theory Spec2Isabelle
  imports Main "HOL-Library.Word" "HOL-Library.Monad_Syntax"
begin

unbundle bit_operations_syntax

chapter \<open>libxo: a shallow embedding of libxo.c\<close>

text \<open>
  Conventions of the embedding.
  \<^item> A C string is a \<open>char list\<close> without its terminating NUL; a pointer into a C string
    is the list of the bytes from the pointer up to the terminator, so \<open>*p\<close> is the head
    of the list (NUL for the empty list) and \<open>p + n\<close> is \<open>drop n\<close>.
  \<^item> C \<open>int\<close> is \<open>int\<close>; \<open>unsigned short\<close> is \<open>16 word\<close>; \<open>unsigned\<close> is \<open>32 word\<close>.
  \<^item> A function that would read or write outside an object (undefined behaviour in C)
    returns \<open>None\<close>.
  \<^item> The allocator hook \<open>xo_realloc\<close> is a parameter: \<open>xo_realloc n\<close> tells whether a
    request for \<open>n\<close> bytes succeeds. A request that succeeds on an existing block is
    taken to hand out a block at another address, as \<open>realloc\<close> may: the old block is
    freed, and a pointer into it is no longer valid.
\<close>

abbreviation NUL :: char where "NUL \<equiv> CHR 0x00"
abbreviation NL :: char where "NL \<equiv> CHR 0x0A"
abbreviation DQ :: char where "DQ \<equiv> CHR 0x22"
abbreviation SP :: char where "SP \<equiv> CHR 0x20"

section \<open>Constants\<close>

definition XO_INDENT_BY :: "16 word" where "XO_INDENT_BY = 2"
definition XO_BUFSIZ :: int where "XO_BUFSIZ = 8 * 1024"
definition XO_DEPTH :: int where "XO_DEPTH = 512"

definition XSF_NOT_FIRST :: "32 word" where "XSF_NOT_FIRST = 1"
definition XSF_LIST :: "32 word" where "XSF_LIST = 2"
definition XSF_INSTANCE :: "32 word" where "XSF_INSTANCE = 4"

definition XFF_COLON :: "32 word" where "XFF_COLON = 1"
definition XFF_COMMA :: "32 word" where "XFF_COMMA = 2"
definition XFF_WS :: "32 word" where "XFF_WS = 4"
definition XFF_HIDE :: "32 word" where "XFF_HIDE = 8"
definition XFF_QUOTE :: "32 word" where "XFF_QUOTE = 16"
definition XFF_NOQUOTE :: "32 word" where "XFF_NOQUOTE = 32"

text \<open>
  Modelled from the spec: \<open>libxo.h\<close> is not among the sources, so the values of the
  \<open>XO_STYLE_*\<close> and \<open>XOF_*\<close> constants are unknown. The spec gives the output style as an
  enumeration with exactly four variants and the handle flags as independent booleans;
  the style is a datatype and the flag word is the set of the flags that are on
  (\<open>f & XOF_X\<close> is \<open>XOF_X \<in> f\<close>, \<open>f |= XOF_X\<close> is \<open>insert XOF_X f\<close>).
\<close>

datatype xo_style_t = XO_STYLE_TEXT | XO_STYLE_XML | XO_STYLE_JSON | XO_STYLE_HTML

datatype xo_xof_t =
  XOF_CLOSE_FP | XOF_PRETTY | XOF_DIV_OPEN | XOF_WARN | XOF_XPATH | XOF_INFO | XOF_WARN_XML

section \<open>Data\<close>

text \<open>
  \<open>xo_buffer_t\<close>. \<open>xb_data\<close> holds the bytes between \<open>xb_bufp\<close> and \<open>xb_curp\<close>, so the
  offset of the insertion point is \<open>length xb_data\<close>; \<open>xb_size\<close> is the size of the
  allocated block.
\<close>

record xo_buffer_t =
  xb_data :: string
  xb_size :: int

text \<open>\<open>xo_stack_t\<close>: \<open>xs_name\<close> is \<open>None\<close> for a NULL pointer.\<close>

record xo_stack_t =
  xs_flags :: "32 word"
  xs_name :: "string option"

text \<open>
  Modelled from the spec: \<open>xo_info_t\<close> is declared in the missing \<open>libxo.h\<close>; the spec
  gives an info entry as the triple (name, type, help).
\<close>

record xo_info_t =
  xi_name :: string
  xi_type :: "string option"
  xi_help :: "string option"

text \<open>
  \<open>xo_handle_t\<close>. The callbacks are \<open>None\<close> for a NULL function pointer. \<open>xo_opaque\<close>
  is the sink behind the opaque pointer, seen as the list of the strings handed to the
  write callback; the write callback maps that list and the new string to its return
  value. \<open>xo_stderr\<close> is not a field of the C structure: it is the standard error
  stream, as the list of the lines \<open>xo_warn\<close> has printed. The unused \<open>xo_fp\<close> is left out.
\<close>

record xo_handle_t =
  xo_style :: xo_style_t
  xo_flags :: "xo_xof_t set"
  xo_indent :: "16 word"
  xo_indent_by :: "16 word"
  xo_write :: "(string list \<Rightarrow> string \<Rightarrow> int) option"
  xo_close :: "(string list \<Rightarrow> string list) option"
  xo_formatter :: "(string \<Rightarrow> string option) option"
  xo_opaque :: "string list"
  xo_data :: xo_buffer_t
  xo_fmt :: xo_buffer_t
  xo_stack :: "xo_stack_t list"
  xo_depth :: int
  xo_stack_size :: int
  xo_info :: "xo_info_t list option"
  xo_info_count :: int
  xo_stderr :: "string list"

section \<open>Growable buffer\<close>

text \<open>\<open>xo_write_to_file\<close>: \<open>fprintf(fp, "%s", data)\<close> returns the number of bytes printed.\<close>

definition xo_write_to_file :: "string list \<Rightarrow> string \<Rightarrow> int" where
  "xo_write_to_file opaque data = int (length data)"

definition xo_close_file :: "string list \<Rightarrow> string list" where
  "xo_close_file opaque = opaque"

text \<open>\<open>xo_buf_init\<close>; the result of \<open>xo_realloc\<close> is not checked by the source.\<close>

definition xo_buf_init :: "xo_buffer_t" where
  "xo_buf_init = \<lparr>xb_data = [], xb_size = XO_BUFSIZ\<rparr>"

text \<open>
  \<open>xo_buf_has_room\<close> returns the C result (0 or 1) and the buffer. When it grows the
  buffer it stores the new block in \<open>xb_bufp\<close> and the new \<open>xb_size\<close>, and leaves \<open>xb_curp\<close>
  as it was: in the buffer it returns with a new \<open>xb_size\<close> the insertion point is still
  in the block that was freed. Every caller writes through \<open>xb_curp\<close> next (or calls
  \<open>vsnprintf\<close> a second time), which is where the embedding has the fault.
\<close>

definition xo_buf_has_room :: "(int \<Rightarrow> bool) \<Rightarrow> xo_buffer_t \<Rightarrow> int \<Rightarrow> int \<times> xo_buffer_t" where
  "xo_buf_has_room xo_realloc xbp len =
     (if int (length (xb_data xbp)) + len \<ge> xb_size xbp then
        (let sz = xb_size xbp + XO_BUFSIZ
         in if \<not> xo_realloc sz then (0, xbp)
            else (1, xbp\<lparr>xb_size := sz\<rparr>))
      else (1, xbp))"

text \<open>
  \<open>xo_buf_append\<close>, with \<open>str\<close> the \<open>len\<close> bytes that \<open>memcpy\<close> copies. The copy is
  outside the block when the bytes do not fit after \<open>xo_buf_has_room\<close> said they do, and
  it goes to the freed block when \<open>xo_buf_has_room\<close> has grown the buffer.
\<close>

definition xo_buf_append :: "(int \<Rightarrow> bool) \<Rightarrow> xo_buffer_t \<Rightarrow> string \<Rightarrow> xo_buffer_t option" where
  "xo_buf_append xo_realloc xbp str =
     (case xo_buf_has_room xo_realloc xbp (int (length str)) of
        (ok, xbp') \<Rightarrow>
          if ok = 0 then Some xbp
          else if int (length (xb_data xbp')) + int (length str) > xb_size xbp' then None
          else if xb_size xbp' \<noteq> xb_size xbp then None
          else Some (xbp'\<lparr>xb_data := xb_data xbp' @ str\<rparr>))"

section \<open>Warnings and indentation\<close>

text \<open>\<open>xo_warn\<close>: both branches of the source print the message and a newline to stderr.\<close>

definition xo_warn :: "xo_handle_t \<Rightarrow> string \<Rightarrow> xo_handle_t" where
  "xo_warn xop msg = xop\<lparr>xo_stderr := xo_stderr xop @ [msg @ [NL]]\<rparr>"

text \<open>The function \<open>xo_indent\<close> of the source (the record field has the name already).\<close>

definition xo_indent_f :: "xo_handle_t \<Rightarrow> int" where
  "xo_indent_f xop =
     (if XOF_PRETTY \<in> xo_flags xop then uint (xo_indent xop) * uint (xo_indent_by xop) else 0)"

section \<open>Printing through the handle\<close>

text \<open>
  \<open>xo_printf\<close>, with \<open>out\<close> the text that the format and its arguments expand to.
  \<open>vsnprintf\<close> stores at most \<open>left - 1\<close> bytes of it and returns its length \<open>rc\<close>. When
  \<open>rc > xb_size\<close> the buffer is grown: if that fails the result is -1 and nothing is
  written; if it succeeds the source calls \<open>vsnprintf\<close> a second time, with the
  argument list that the first call has consumed and with \<open>xb_curp\<close> in the freed block,
  which is undefined. Otherwise the write callback gets the C string at \<open>xb_bufp\<close> and
  its result is returned.
\<close>

definition xo_printf :: "(int \<Rightarrow> bool) \<Rightarrow> xo_handle_t \<Rightarrow> string \<Rightarrow> (int \<times> xo_handle_t) option" where
  "xo_printf xo_realloc xop out =
     (let xbp = xo_data xop;
          left = xb_size xbp - int (length (xb_data xbp));
          rc = int (length out)
      in if left \<le> 0 then None
         else if rc > xb_size xbp then
           (if fst (xo_buf_has_room xo_realloc xbp rc) = 0 then Some (- 1, xop) else None)
         else
           (case xo_write xop of
              None \<Rightarrow> None
            | Some w \<Rightarrow>
                let s = xb_data xbp @ take (nat (left - 1)) out
                in Some (w (xo_opaque xop) s,
                         xop\<lparr>xo_data := xbp\<lparr>xb_data := []\<rparr>,
                             xo_opaque := xo_opaque xop @ [s]\<rparr>)))"

section \<open>Structural stack\<close>

text \<open>Reading and updating \<open>xop->xo_stack[xop->xo_depth]\<close>.\<close>

definition xo_stack_top :: "xo_handle_t \<Rightarrow> xo_stack_t option" where
  "xo_stack_top xop =
     (if 0 \<le> xo_depth xop \<and> xo_depth xop < int (length (xo_stack xop))
      then Some (xo_stack xop ! nat (xo_depth xop)) else None)"

definition xo_set_not_first :: "xo_handle_t \<Rightarrow> xo_handle_t option" where
  "xo_set_not_first xop =
     (case xo_stack_top xop of
        None \<Rightarrow> None
      | Some xsp \<Rightarrow>
          Some (xop\<lparr>xo_stack := (xo_stack xop)
                  [nat (xo_depth xop) := xsp\<lparr>xs_flags := xs_flags xsp OR XSF_NOT_FIRST\<rparr>]\<rparr>))"

text \<open>The warnings of a pop, in the order of the source.\<close>

definition xo_pop_warnings :: "xo_handle_t \<Rightarrow> xo_stack_t \<Rightarrow> string \<Rightarrow> 32 word \<Rightarrow> xo_handle_t" where
  "xo_pop_warnings xop xsp name flags =
     (let x1 = (case xs_name xsp of
                  None \<Rightarrow> xop
                | Some tp \<Rightarrow>
                    if name \<noteq> tp
                    then xo_warn xop (''xo: incorrect close: '' @ [CHR 0x27] @ name @ [CHR 0x27]
                                      @ '' .vs. '' @ [CHR 0x27] @ tp @ [CHR 0x27])
                    else xop);
          x2 = (if xs_flags xsp AND XSF_LIST \<noteq> flags AND XSF_LIST
                then xo_warn x1 (''xo: list close on list confict: '' @ [CHR 0x27] @ name @ [CHR 0x27])
                else x1)
      in if xs_flags xsp AND XSF_INSTANCE \<noteq> flags AND XSF_INSTANCE
         then xo_warn x2 (''xo: list close on instance confict: '' @ [CHR 0x27] @ name @ [CHR 0x27])
         else x2)"

text \<open>
  \<open>xo_depth_change\<close>. A push writes the frame at \<open>xo_depth + delta\<close>; a pop reads the
  frame at \<open>xo_depth\<close> when \<open>XOF_WARN\<close> or \<open>XOF_XPATH\<close> is set. The name is a C string
  (a NULL name is not modelled).
\<close>

definition xo_depth_change ::
  "(int \<Rightarrow> bool) \<Rightarrow> xo_handle_t \<Rightarrow> string \<Rightarrow> int \<Rightarrow> int \<Rightarrow> 32 word \<Rightarrow> xo_handle_t option" where
  "xo_depth_change xo_realloc xop name delta indent flags =
     (let d = xo_depth xop; n = int (length (xo_stack xop))
      in if delta \<ge> 0 then
           (let i = d + delta
            in if i < 0 \<or> n \<le> i then None
               else
                 (let xsp = (xo_stack xop ! nat i)\<lparr>xs_flags := flags\<rparr>;
                      xsp' = (if (XOF_XPATH \<in> xo_flags xop \<or> XOF_WARN \<in> xo_flags xop)
                                 \<and> xo_realloc (int (length name) + 1)
                              then xsp\<lparr>xs_name := Some name\<rparr> else xsp)
                  in Some (xop\<lparr>xo_stack := (xo_stack xop)[nat i := xsp'],
                               xo_depth := d + delta,
                               xo_indent := xo_indent xop + word_of_int indent\<rparr>)))
         else if d = 0 then
           Some (if XOF_WARN \<in> xo_flags xop
                 then xo_warn xop (''xo: close with empty stack: '' @ [CHR 0x27] @ name @ [CHR 0x27])
                 else xop)
         else if XOF_WARN \<notin> xo_flags xop \<and> XOF_XPATH \<notin> xo_flags xop then
           Some (xop\<lparr>xo_depth := d + delta, xo_indent := xo_indent xop + word_of_int indent\<rparr>)
         else if d < 0 \<or> n \<le> d then None
         else
           (let xsp = xo_stack xop ! nat d;
                x1 = (if XOF_WARN \<in> xo_flags xop then xo_pop_warnings xop xsp name flags else xop);
                st = (if XOF_XPATH \<in> xo_flags xop \<and> xs_name xsp \<noteq> None
                      then (xo_stack xop)[nat d := xsp\<lparr>xs_name := None\<rparr>]
                      else xo_stack xop)
            in Some (x1\<lparr>xo_stack := st,
                        xo_depth := d + delta,
                        xo_indent := xo_indent xop + word_of_int indent\<rparr>)))"

section \<open>Structural operations\<close>

text \<open>The handle argument is the handle that \<open>xo_default\<close> returns.\<close>

definition xo_pad :: "xo_handle_t \<Rightarrow> string" where
  "xo_pad xop = replicate (nat (xo_indent_f xop)) SP"

definition xo_not_first :: "xo_stack_t \<Rightarrow> bool" where
  "xo_not_first xsp = (xs_flags xsp AND XSF_NOT_FIRST \<noteq> 0)"

definition xo_open_container_h ::
  "(int \<Rightarrow> bool) \<Rightarrow> xo_handle_t \<Rightarrow> string \<Rightarrow> (int \<times> xo_handle_t) option" where
  "xo_open_container_h xo_realloc xop name =
     (let ppn = (if XOF_PRETTY \<in> xo_flags xop then [NL] else [])
      in case xo_style xop of
           XO_STYLE_XML \<Rightarrow>
             do {
               (rc, x1) \<leftarrow> xo_printf xo_realloc xop (xo_pad xop @ ''<'' @ name @ ''>'' @ ppn);
               x2 \<leftarrow> xo_depth_change xo_realloc x1 name 1 1 0;
               Some (rc, x2)
             }
         | XO_STYLE_JSON \<Rightarrow>
             do {
               xsp \<leftarrow> xo_stack_top xop;
               x0 \<leftarrow> xo_set_not_first xop;
               (rc, x1) \<leftarrow> xo_printf xo_realloc x0
                  ((if xo_not_first xsp
                    then (if XOF_PRETTY \<in> xo_flags xop then [CHR '','', NL] else '', '')
                    else [])
                   @ xo_pad x0 @ [DQ] @ name @ [DQ] @ '': {'' @ ppn);
               x2 \<leftarrow> xo_depth_change xo_realloc x1 name 1 1 0;
               Some (rc, x2)
             }
         | _ \<Rightarrow>
             do {
               x2 \<leftarrow> xo_depth_change xo_realloc xop name 1 0 0;
               Some (0, x2)
             })"

definition xo_close_container_h ::
  "(int \<Rightarrow> bool) \<Rightarrow> xo_handle_t \<Rightarrow> string \<Rightarrow> (int \<times> xo_handle_t) option" where
  "xo_close_container_h xo_realloc xop name =
     (case xo_style xop of
        XO_STYLE_XML \<Rightarrow>
          do {
            x1 \<leftarrow> xo_depth_change xo_realloc xop name (- 1) (- 1) 0;
            xo_printf xo_realloc x1
              (xo_pad x1 @ ''</'' @ name @ ''>''
               @ (if XOF_PRETTY \<in> xo_flags xop then [NL] else []))
          }
      | XO_STYLE_JSON \<Rightarrow>
          do {
            x1 \<leftarrow> xo_depth_change xo_realloc xop name (- 1) (- 1) 0;
            (rc, x2) \<leftarrow> xo_printf xo_realloc x1
              ((if XOF_PRETTY \<in> xo_flags xop then [NL] else [])
               @ xo_pad x1 @ ''}'' @ (if xo_depth xop \<le> 1 then [NL] else []));
            x3 \<leftarrow> xo_set_not_first x2;
            Some (rc, x3)
          }
      | _ \<Rightarrow>
          do {
            x1 \<leftarrow> xo_depth_change xo_realloc xop name (- 1) 0 0;
            Some (0, x1)
          })"

definition xo_open_list_h ::
  "(int \<Rightarrow> bool) \<Rightarrow> xo_handle_t \<Rightarrow> string \<Rightarrow> (int \<times> xo_handle_t) option" where
  "xo_open_list_h xo_realloc xop name =
     (let ppn = (if XOF_PRETTY \<in> xo_flags xop then [NL] else [])
      in case xo_style xop of
           XO_STYLE_JSON \<Rightarrow>
             do {
               xsp \<leftarrow> xo_stack_top xop;
               x0 \<leftarrow> xo_set_not_first xop;
               (rc, x1) \<leftarrow> xo_printf xo_realloc x0
                  ((if xo_not_first xsp
                    then (if XOF_PRETTY \<in> xo_flags xop then [CHR '','', NL] else '', '')
                    else [])
                   @ xo_pad x0 @ [DQ] @ name @ [DQ] @ '': ['' @ ppn);
               x2 \<leftarrow> xo_depth_change xo_realloc x1 name 1 1 XSF_LIST;
               Some (rc, x2)
             }
         | _ \<Rightarrow> Some (0, xop))"

text \<open>\<open>xo_close_list_h\<close> ends with \<open>return 0\<close>.\<close>

definition xo_close_list_h ::
  "(int \<Rightarrow> bool) \<Rightarrow> xo_handle_t \<Rightarrow> string \<Rightarrow> (int \<times> xo_handle_t) option" where
  "xo_close_list_h xo_realloc xop name =
     (case xo_style xop of
        XO_STYLE_JSON \<Rightarrow>
          do {
            xsp \<leftarrow> xo_stack_top xop;
            x0 \<leftarrow> xo_set_not_first xop;
            x1 \<leftarrow> xo_depth_change xo_realloc x0 name (- 1) (- 1) XSF_LIST;
            (rc, x2) \<leftarrow> xo_printf xo_realloc x1
               ((if xo_not_first xsp
                 then (if XOF_PRETTY \<in> xo_flags xop then [NL] else [])
                 else [])
                @ xo_pad x1 @ '']'');
            x3 \<leftarrow> xo_set_not_first x2;
            Some (0, x3)
          }
      | _ \<Rightarrow> Some (0, xop))"

definition xo_open_instance_h ::
  "(int \<Rightarrow> bool) \<Rightarrow> xo_handle_t \<Rightarrow> string \<Rightarrow> (int \<times> xo_handle_t) option" where
  "xo_open_instance_h xo_realloc xop name =
     (let ppn = (if XOF_PRETTY \<in> xo_flags xop then [NL] else [])
      in case xo_style xop of
           XO_STYLE_XML \<Rightarrow>
             do {
               (rc, x1) \<leftarrow> xo_printf xo_realloc xop (xo_pad xop @ ''<'' @ name @ ''>'' @ ppn);
               x2 \<leftarrow> xo_depth_change xo_realloc x1 name 1 1 0;
               Some (rc, x2)
             }
         | XO_STYLE_JSON \<Rightarrow>
             do {
               xsp \<leftarrow> xo_stack_top xop;
               x0 \<leftarrow> xo_set_not_first xop;
               (rc, x1) \<leftarrow> xo_printf xo_realloc x0
                  ((if xo_not_first xsp
                    then (if XOF_PRETTY \<in> xo_flags xop then [CHR '','', NL] else '', '')
                    else [])
                   @ xo_pad x0 @ ''{'' @ ppn);
               x2 \<leftarrow> xo_depth_change xo_realloc x1 name 1 1 0;
               Some (rc, x2)
             }
         | _ \<Rightarrow>
             do {
               x2 \<leftarrow> xo_depth_change xo_realloc xop name 1 0 0;
               Some (0, x2)
             })"

definition xo_close_instance_h ::
  "(int \<Rightarrow> bool) \<Rightarrow> xo_handle_t \<Rightarrow> string \<Rightarrow> (int \<times> xo_handle_t) option" where
  "xo_close_instance_h xo_realloc xop name =
     (case xo_style xop of
        XO_STYLE_XML \<Rightarrow>
          do {
            x1 \<leftarrow> xo_depth_change xo_realloc xop name (- 1) (- 1) 0;
            xo_printf xo_realloc x1
              (xo_pad x1 @ ''</'' @ name @ ''>''
               @ (if XOF_PRETTY \<in> xo_flags xop then [NL] else []))
          }
      | XO_STYLE_JSON \<Rightarrow>
          do {
            x1 \<leftarrow> xo_depth_change xo_realloc xop name (- 1) (- 1) 0;
            (rc, x2) \<leftarrow> xo_printf xo_realloc x1
              ((if XOF_PRETTY \<in> xo_flags xop then [NL] else []) @ xo_pad x1 @ ''}'');
            x3 \<leftarrow> xo_set_not_first x2;
            Some (rc, x3)
          }
      | _ \<Rightarrow>
          do {
            x1 \<leftarrow> xo_depth_change xo_realloc xop name (- 1) 0 0;
            Some (0, x1)
          })"

section \<open>Handles\<close>

text \<open>
  The option characters of \<open>LIBXO_OPTIONS\<close>: the loop of \<open>xo_init_handle\<close> over the
  value of the variable. After \<open>i\<close> and \<open>sz > 0\<close> digits the source adds \<open>sz - 1\<close> to
  \<open>env\<close> and the loop header adds one more, so the next character looked at is the last
  digit. \<open>atoi\<close> is the decimal value of the leading digits (its overflow is not
  modelled); the assignment to the \<open>unsigned short\<close> truncates it.
\<close>

definition xo_isdigit :: "char \<Rightarrow> bool" where
  "xo_isdigit c = (c \<in> set ''0123456789'')"

definition xo_atoi :: "string \<Rightarrow> int" where
  "xo_atoi s = foldl (\<lambda>a c. 10 * a + (of_char c - 48)) 0 (takeWhile xo_isdigit s)"

fun xo_options :: "string \<Rightarrow> xo_handle_t \<Rightarrow> xo_handle_t" where
  "xo_options [] xop = xop"
| "xo_options (c # env) xop =
     (if c = NUL then xop
      else if c = CHR ''H'' then xo_options env (xop\<lparr>xo_style := XO_STYLE_HTML\<rparr>)
      else if c = CHR ''I'' then xo_options env (xop\<lparr>xo_flags := insert XOF_INFO (xo_flags xop)\<rparr>)
      else if c = CHR ''i'' then
        (let sz = length (takeWhile xo_isdigit env)
         in if sz > 0
            then xo_options (drop (sz - 1) env) (xop\<lparr>xo_indent_by := word_of_int (xo_atoi env)\<rparr>)
            else xo_options env xop)
      else if c = CHR ''J'' then xo_options env (xop\<lparr>xo_style := XO_STYLE_JSON\<rparr>)
      else if c = CHR ''P'' then xo_options env (xop\<lparr>xo_flags := insert XOF_PRETTY (xo_flags xop)\<rparr>)
      else if c = CHR ''T'' then xo_options env (xop\<lparr>xo_style := XO_STYLE_TEXT\<rparr>)
      else if c = CHR ''W'' then xo_options env (xop\<lparr>xo_flags := insert XOF_WARN (xo_flags xop)\<rparr>)
      else if c = CHR ''X'' then xo_options env (xop\<lparr>xo_style := XO_STYLE_XML\<rparr>)
      else if c = CHR ''x'' then xo_options env (xop\<lparr>xo_flags := insert XOF_XPATH (xo_flags xop)\<rparr>)
      else xo_options env xop)"

text \<open>
  \<open>xo_init_handle\<close>. \<open>env\<close> is the result of \<open>getenv("LIBXO_OPTIONS")\<close> (\<open>None\<close> for
  NULL) and \<open>stk i\<close> is what the block that \<open>xo_realloc\<close> returns for the stack holds at
  frame \<open>i\<close>: the source does not initialise it. The three allocations are not checked
  by the source and are taken to succeed. \<open>xo_opaque = stdout\<close> binds a sink to which
  the handle has written nothing yet.
\<close>

definition xo_init_handle ::
  "string option \<Rightarrow> (nat \<Rightarrow> xo_stack_t) \<Rightarrow> xo_handle_t \<Rightarrow> xo_handle_t" where
  "xo_init_handle env stk xop =
     (let x1 = xop\<lparr>xo_opaque := [],
                   xo_write := Some xo_write_to_file,
                   xo_data := xo_buf_init,
                   xo_fmt := xo_buf_init,
                   xo_indent_by := XO_INDENT_BY,
                   xo_stack_size := XO_DEPTH,
                   xo_stack := map stk [0..<nat XO_DEPTH]\<rparr>
      in case env of None \<Rightarrow> x1 | Some e \<Rightarrow> xo_options e x1)"

text \<open>
  \<open>xo_create\<close>. \<open>mem\<close> is what the block allocated for the handle holds: the fields that
  neither \<open>xo_create\<close> nor \<open>xo_init_handle\<close> assigns keep its values. The result is
  \<open>None\<close> when the function returns NULL. The size is that of the structure on an LP64
  target.
\<close>

definition xo_sizeof_handle :: int where
  "xo_sizeof_handle = 128"

definition xo_create ::
  "(int \<Rightarrow> bool) \<Rightarrow> string option \<Rightarrow> (nat \<Rightarrow> xo_stack_t) \<Rightarrow> xo_handle_t \<Rightarrow>
   xo_style_t \<Rightarrow> xo_xof_t set \<Rightarrow> xo_handle_t option" where
  "xo_create xo_realloc env stk mem style flags =
     (if xo_realloc xo_sizeof_handle
      then Some (xo_init_handle env stk (mem\<lparr>xo_style := style, xo_flags := flags\<rparr>))
      else None)"

definition xo_create_to_file ::
  "(int \<Rightarrow> bool) \<Rightarrow> string option \<Rightarrow> (nat \<Rightarrow> xo_stack_t) \<Rightarrow> xo_handle_t \<Rightarrow>
   string list \<Rightarrow> xo_style_t \<Rightarrow> xo_xof_t set \<Rightarrow> xo_handle_t option" where
  "xo_create_to_file xo_realloc env stk mem fp style flags =
     (case xo_create xo_realloc env stk mem style flags of
        None \<Rightarrow> None
      | Some xop \<Rightarrow>
          Some (xop\<lparr>xo_opaque := fp,
                    xo_write := Some xo_write_to_file,
                    xo_close := Some xo_close_file\<rparr>))"

text \<open>
  The static variables \<open>xo_default_handle\<close> and \<open>xo_default_inited\<close>. A static object
  starts with all bytes zero; the comment of \<open>xo_create\<close> says that the default handle
  generates text, so the zero style is \<open>XO_STYLE_TEXT\<close>.
\<close>

record xo_globals =
  xo_default_handle :: xo_handle_t
  xo_default_inited :: int

definition xo_zero_handle :: xo_handle_t where
  "xo_zero_handle =
     \<lparr>xo_style = XO_STYLE_TEXT, xo_flags = {}, xo_indent = 0, xo_indent_by = 0,
      xo_write = None, xo_close = None, xo_formatter = None, xo_opaque = [],
      xo_data = \<lparr>xb_data = [], xb_size = 0\<rparr>, xo_fmt = \<lparr>xb_data = [], xb_size = 0\<rparr>,
      xo_stack = [], xo_depth = 0, xo_stack_size = 0, xo_info = None, xo_info_count = 0,
      xo_stderr = []\<rparr>"

definition xo_globals_start :: xo_globals where
  "xo_globals_start = \<lparr>xo_default_handle = xo_zero_handle, xo_default_inited = 0\<rparr>"

definition xo_default_init :: "string option \<Rightarrow> (nat \<Rightarrow> xo_stack_t) \<Rightarrow> xo_globals \<Rightarrow> xo_globals" where
  "xo_default_init env stk g =
     g\<lparr>xo_default_handle := xo_init_handle env stk (xo_default_handle g),
       xo_default_inited := 1\<rparr>"

text \<open>
  \<open>xo_default\<close>: the handle argument is \<open>None\<close> for NULL. The result is the handle the
  returned pointer points to, and the static variables.
\<close>

definition xo_default ::
  "string option \<Rightarrow> (nat \<Rightarrow> xo_stack_t) \<Rightarrow> xo_handle_t option \<Rightarrow> xo_globals \<Rightarrow>
   xo_handle_t \<times> xo_globals" where
  "xo_default env stk xop g =
     (case xop of
        None \<Rightarrow>
          (let g' = (if xo_default_inited g = 0 then xo_default_init env stk g else g)
           in (xo_default_handle g', g'))
      | Some h \<Rightarrow> (h, g))"

text \<open>
  \<open>bzero(p, n)\<close> on a handle, for \<open>n\<close> up to 8: the structure starts with the four
  \<open>unsigned short\<close> fields \<open>xo_style\<close>, \<open>xo_flags\<close>, \<open>xo_indent\<close> and \<open>xo_indent_by\<close>, at
  the offsets 0, 2, 4 and 6; every other field lies at offset 8 or beyond.
\<close>

definition xo_bzero :: "nat \<Rightarrow> xo_handle_t \<Rightarrow> xo_handle_t" where
  "xo_bzero n xop =
     xop\<lparr>xo_style := (if 2 \<le> n then XO_STYLE_TEXT else xo_style xop),
         xo_flags := (if 4 \<le> n then {} else xo_flags xop),
         xo_indent := (if 6 \<le> n then 0 else xo_indent xop),
         xo_indent_by := (if 8 \<le> n then 0 else xo_indent_by xop)\<rparr>"

text \<open>
  \<open>xo_destroy\<close>. The source clears \<open>sizeof(&xo_default_handle)\<close> bytes, the size of a
  pointer: \<open>ptr_size\<close> (4 or 8). The three \<open>xo_free\<close> calls leave the fields of the
  handle as they are. The result is the static variables; a handle of the caller is
  freed.
\<close>

definition xo_destroy ::
  "nat \<Rightarrow> string option \<Rightarrow> (nat \<Rightarrow> xo_stack_t) \<Rightarrow> xo_handle_t option \<Rightarrow> xo_globals \<Rightarrow> xo_globals" where
  "xo_destroy ptr_size env stk xop g =
     (case xo_default env stk xop g of
        (h, g1) \<Rightarrow>
          (let h1 = (case xo_close h of
                       Some cl \<Rightarrow>
                         if XOF_CLOSE_FP \<in> xo_flags h then h\<lparr>xo_opaque := cl (xo_opaque h)\<rparr> else h
                     | None \<Rightarrow> h)
           in case xop of
                None \<Rightarrow> g1\<lparr>xo_default_handle := xo_bzero ptr_size h1, xo_default_inited := 0\<rparr>
              | Some _ \<Rightarrow> g1))"

section \<open>Style renderers\<close>

text \<open>\<open>xo_buf_append(&xop->xo_fmt, str, len)\<close>.\<close>

definition xo_fmt_append :: "(int \<Rightarrow> bool) \<Rightarrow> xo_handle_t \<Rightarrow> string \<Rightarrow> xo_handle_t option" where
  "xo_fmt_append xo_realloc xop str =
     (case xo_buf_append xo_realloc (xo_fmt xop) str of
        None \<Rightarrow> None
      | Some xbp \<Rightarrow> Some (xop\<lparr>xo_fmt := xbp\<rparr>))"

text \<open>A pointer and length pair that may be NULL with length 0.\<close>

definition xo_str :: "string option \<Rightarrow> string" where
  "xo_str p = (case p of None \<Rightarrow> [] | Some s \<Rightarrow> s)"

text \<open>\<open>xo_buf_indent\<close>: \<open>memset\<close> of \<open>indent\<close> blanks after \<open>xo_buf_has_room\<close>.\<close>

definition xo_buf_indent :: "(int \<Rightarrow> bool) \<Rightarrow> xo_handle_t \<Rightarrow> int \<Rightarrow> xo_handle_t option" where
  "xo_buf_indent xo_realloc xop indent =
     (let ind = (if indent \<le> 0 then xo_indent_f xop else indent)
      in xo_fmt_append xo_realloc xop (replicate (nat ind) SP))"

definition xo_line_ensure_open :: "(int \<Rightarrow> bool) \<Rightarrow> xo_handle_t \<Rightarrow> xo_handle_t option" where
  "xo_line_ensure_open xo_realloc xop =
     (if XOF_DIV_OPEN \<in> xo_flags xop then Some xop
      else if xo_style xop \<noteq> XO_STYLE_HTML then Some xop
      else
        do {
          x1 \<leftarrow> xo_fmt_append xo_realloc (xop\<lparr>xo_flags := insert XOF_DIV_OPEN (xo_flags xop)\<rparr>)
                  (''<div class='' @ [DQ] @ ''line'' @ [DQ] @ ''>'');
          if XOF_PRETTY \<in> xo_flags x1 then xo_fmt_append xo_realloc x1 [NL] else Some x1
        })"

definition xo_line_close :: "(int \<Rightarrow> bool) \<Rightarrow> xo_handle_t \<Rightarrow> xo_handle_t option" where
  "xo_line_close xo_realloc xop =
     (case xo_style xop of
        XO_STYLE_HTML \<Rightarrow>
          do {
            x1 \<leftarrow> (if XOF_DIV_OPEN \<notin> xo_flags xop then xo_line_ensure_open xo_realloc xop
                    else Some xop);
            x2 \<leftarrow> xo_fmt_append xo_realloc (x1\<lparr>xo_flags := xo_flags x1 - {XOF_DIV_OPEN}\<rparr>) ''</div>'';
            if XOF_PRETTY \<in> xo_flags x2 then xo_fmt_append xo_realloc x2 [NL] else Some x2
          }
      | XO_STYLE_TEXT \<Rightarrow> xo_fmt_append xo_realloc xop [NL]
      | _ \<Rightarrow> Some xop)"

text \<open>
  \<open>xo_info_find\<close>: \<open>bsearch\<close> by name over the first \<open>xo_info_count\<close> entries of a table
  that the caller keeps sorted.
\<close>

definition xo_info_find :: "xo_handle_t \<Rightarrow> string \<Rightarrow> xo_info_t option" where
  "xo_info_find xop name =
     find (\<lambda>xip. xi_name xip = name) (take (nat (xo_info_count xop)) ((case xo_info xop of None \<Rightarrow> [] | Some t \<Rightarrow> t)))"

text \<open>The loop of \<open>xo_buf_append_div\<close> over the frames 0 to \<open>xo_depth\<close>.\<close>

fun xo_xpath_names :: "(int \<Rightarrow> bool) \<Rightarrow> xo_stack_t list \<Rightarrow> xo_handle_t \<Rightarrow> xo_handle_t option" where
  "xo_xpath_names xo_realloc [] xop = Some xop"
| "xo_xpath_names xo_realloc (xsp # fs) xop =
     (case xs_name xsp of
        None \<Rightarrow> xo_xpath_names xo_realloc fs xop
      | Some n \<Rightarrow>
          do {
            x1 \<leftarrow> xo_fmt_append xo_realloc xop ''/'';
            x2 \<leftarrow> xo_fmt_append xo_realloc x1 n;
            xo_xpath_names xo_realloc fs x2
          })"

definition xo_buf_append_div ::
  "(int \<Rightarrow> bool) \<Rightarrow> xo_handle_t \<Rightarrow> string \<Rightarrow> string option \<Rightarrow> string option \<Rightarrow> xo_handle_t option" where
  "xo_buf_append_div xo_realloc xop class name val =
     do {
       x1 \<leftarrow> xo_line_ensure_open xo_realloc xop;
       x2 \<leftarrow> (if XOF_PRETTY \<in> xo_flags x1 then xo_buf_indent xo_realloc x1 (uint (xo_indent_by x1))
               else Some x1);
       x3 \<leftarrow> xo_fmt_append xo_realloc x2 (''<div class='' @ [DQ]);
       x4 \<leftarrow> xo_fmt_append xo_realloc x3 class;
       x5 \<leftarrow> (case name of
                 None \<Rightarrow> Some x4
               | Some n \<Rightarrow>
                   do {
                     y \<leftarrow> xo_fmt_append xo_realloc x4 ([DQ] @ '' data-tag='' @ [DQ]);
                     xo_fmt_append xo_realloc y n
                   });
       x6 \<leftarrow> (case name of
                 None \<Rightarrow> Some x5
               | Some n \<Rightarrow>
                   if XOF_XPATH \<in> xo_flags x5 then
                     do {
                       y1 \<leftarrow> xo_fmt_append xo_realloc x5 ([DQ] @ '' data-xpath='' @ [DQ]);
                       y2 \<leftarrow> (if int (length (xo_stack y1)) \<le> xo_depth y1 then None
                               else xo_xpath_names xo_realloc
                                      (take (nat (xo_depth y1 + 1)) (xo_stack y1)) y1);
                       y3 \<leftarrow> xo_fmt_append xo_realloc y2 ''/'';
                       xo_fmt_append xo_realloc y3 n
                     }
                   else Some x5);
       x7 \<leftarrow> (case name of
                 None \<Rightarrow> Some x6
               | Some n \<Rightarrow>
                   if XOF_INFO \<in> xo_flags x6 \<and> xo_info x6 \<noteq> None then
                     (case xo_info_find x6 n of
                        None \<Rightarrow> Some x6
                      | Some xip \<Rightarrow>
                          do {
                            z1 \<leftarrow> (case xi_type xip of
                                      None \<Rightarrow> Some x6
                                    | Some t \<Rightarrow>
                                        do {
                                          z \<leftarrow> xo_fmt_append xo_realloc x6
                                                 ([DQ] @ '' data-type='' @ [DQ]);
                                          xo_fmt_append xo_realloc z t
                                        });
                            (case xi_help xip of
                               None \<Rightarrow> Some z1
                             | Some t \<Rightarrow>
                                 do {
                                   z \<leftarrow> xo_fmt_append xo_realloc z1
                                          ([DQ] @ '' data-help='' @ [DQ]);
                                   xo_fmt_append xo_realloc z t
                                 })
                          })
                   else Some x6);
       x8 \<leftarrow> xo_fmt_append xo_realloc x7 ([DQ] @ ''>'');
       x9 \<leftarrow> xo_fmt_append xo_realloc x8 (xo_str val);
       x10 \<leftarrow> xo_fmt_append xo_realloc x9 ''</div>'';
       if XOF_PRETTY \<in> xo_flags x10 then xo_fmt_append xo_realloc x10 [NL] else Some x10
     }"

definition xo_format_text :: "(int \<Rightarrow> bool) \<Rightarrow> xo_handle_t \<Rightarrow> string option \<Rightarrow> xo_handle_t option" where
  "xo_format_text xo_realloc xop str =
     (case xo_style xop of
        XO_STYLE_TEXT \<Rightarrow> xo_fmt_append xo_realloc xop (xo_str str)
      | XO_STYLE_HTML \<Rightarrow> xo_buf_append_div xo_realloc xop ''text'' None str
      | _ \<Rightarrow> Some xop)"

definition xo_format_label :: "(int \<Rightarrow> bool) \<Rightarrow> xo_handle_t \<Rightarrow> string option \<Rightarrow> xo_handle_t option" where
  "xo_format_label xo_realloc xop str =
     (case xo_style xop of
        XO_STYLE_TEXT \<Rightarrow> xo_fmt_append xo_realloc xop (xo_str str)
      | XO_STYLE_HTML \<Rightarrow> xo_buf_append_div xo_realloc xop ''label'' None str
      | _ \<Rightarrow> Some xop)"

definition xo_format_decoration :: "(int \<Rightarrow> bool) \<Rightarrow> xo_handle_t \<Rightarrow> string option \<Rightarrow> xo_handle_t option" where
  "xo_format_decoration xo_realloc xop str =
     (case xo_style xop of
        XO_STYLE_TEXT \<Rightarrow> xo_fmt_append xo_realloc xop (xo_str str)
      | XO_STYLE_HTML \<Rightarrow> xo_buf_append_div xo_realloc xop ''decoration'' None str
      | _ \<Rightarrow> Some xop)"

definition xo_format_padding :: "(int \<Rightarrow> bool) \<Rightarrow> xo_handle_t \<Rightarrow> string option \<Rightarrow> xo_handle_t option" where
  "xo_format_padding xo_realloc xop str =
     (case xo_style xop of
        XO_STYLE_TEXT \<Rightarrow> xo_fmt_append xo_realloc xop (xo_str str)
      | XO_STYLE_HTML \<Rightarrow> xo_buf_append_div xo_realloc xop ''padding'' None str
      | _ \<Rightarrow> Some xop)"

text \<open>
  \<open>xo_format_title\<close>. \<open>snp f a\<close> is the text that \<open>snprintf\<close> makes of the format \<open>f\<close>
  and the string argument \<open>a\<close>. \<open>left\<close> is taken before the HTML prefix is appended.
  \<open>snprintf\<close> stores \<open>min rc (left - 1)\<close> bytes and a NUL at the insertion point, outside
  the block when they do not fit. The insertion point then moves by \<open>rc\<close>: when
  \<open>rc = left\<close> the NUL is among the bytes it passes; when \<open>rc > left\<close> and the buffer could
  grow it passes bytes that were never written, which is modelled as \<open>None\<close>.
\<close>

definition xo_format_title ::
  "(int \<Rightarrow> bool) \<Rightarrow> (string \<Rightarrow> string \<Rightarrow> string) \<Rightarrow> xo_handle_t \<Rightarrow> string option \<Rightarrow> string \<Rightarrow>
   xo_handle_t option" where
  "xo_format_title xo_realloc snp xop str fmt =
     (if xo_style xop \<noteq> XO_STYLE_TEXT \<and> xo_style xop \<noteq> XO_STYLE_HTML then Some xop
      else
        do {
          let left = xb_size (xo_fmt xop) - int (length (xb_data (xo_fmt xop)));
          x1 \<leftarrow> (if xo_style xop = XO_STYLE_HTML then
                    do {
                      y1 \<leftarrow> xo_line_ensure_open xo_realloc xop;
                      y2 \<leftarrow> (if XOF_PRETTY \<in> xo_flags y1
                              then xo_buf_indent xo_realloc y1 (uint (xo_indent_by y1))
                              else Some y1);
                      xo_fmt_append xo_realloc y2 (''<div class='' @ [DQ] @ ''title'' @ [DQ] @ ''>'')
                    }
                  else Some xop);
          let out = snp fmt (xo_str str);
          let rc = int (length out);
          let stored = take (nat (left - 1)) out;
          if left \<le> 0
             \<or> int (length (xb_data (xo_fmt x1))) + int (length stored) + 1 > xb_size (xo_fmt x1)
          then None
          else if rc > left then
            (if fst (xo_buf_has_room xo_realloc (xo_fmt x1) rc) = 0 then Some x1 else None)
          else
            do {
              let x2 = x1\<lparr>xo_fmt := (xo_fmt x1)\<lparr>xb_data :=
                          xb_data (xo_fmt x1) @ (if rc = left then stored @ [NUL] else out)\<rparr>\<rparr>;
              if xo_style xop = XO_STYLE_HTML then
                do {
                  y1 \<leftarrow> xo_fmt_append xo_realloc x2 ''</div>'';
                  if XOF_PRETTY \<in> xo_flags y1 then xo_fmt_append xo_realloc y1 [NL] else Some y1
                }
              else Some x2
            }
        })"

definition xo_format_prep :: "(int \<Rightarrow> bool) \<Rightarrow> xo_handle_t \<Rightarrow> xo_handle_t option" where
  "xo_format_prep xo_realloc xop =
     (case xo_stack_top xop of
        None \<Rightarrow> None
      | Some xsp \<Rightarrow>
          if xo_not_first xsp then
            do {
              x1 \<leftarrow> xo_fmt_append xo_realloc xop '','';
              if XOF_PRETTY \<in> xo_flags x1 then xo_fmt_append xo_realloc x1 [NL] else Some x1
            }
          else xo_set_not_first xop)"

text \<open>
  \<open>xo_format_value\<close>. \<open>format[flen - 1]\<close> is the last byte of the format; with
  \<open>flen = 0\<close> it is a read before the format.
\<close>

definition xo_quote :: "string \<Rightarrow> 32 word \<Rightarrow> bool option" where
  "xo_quote format flags =
     (if flags AND XFF_QUOTE \<noteq> 0 then Some True
      else if flags AND XFF_NOQUOTE \<noteq> 0 then Some False
      else if format = [] then None
      else if last format = CHR ''s'' then Some True
      else Some False)"

definition xo_format_value ::
  "(int \<Rightarrow> bool) \<Rightarrow> xo_handle_t \<Rightarrow> string option \<Rightarrow> string \<Rightarrow> string option \<Rightarrow> 32 word \<Rightarrow>
   xo_handle_t option" where
  "xo_format_value xo_realloc xop name format encoding flags =
     (let pretty = (XOF_PRETTY \<in> xo_flags xop)
      in case xo_style xop of
           XO_STYLE_TEXT \<Rightarrow> xo_fmt_append xo_realloc xop format
         | XO_STYLE_HTML \<Rightarrow> xo_buf_append_div xo_realloc xop ''data'' name (Some format)
         | XO_STYLE_XML \<Rightarrow>
             do {
               let f = (case encoding of Some e \<Rightarrow> e | None \<Rightarrow> format);
               x1 \<leftarrow> (if pretty then xo_buf_indent xo_realloc xop (- 1) else Some xop);
               x2 \<leftarrow> xo_fmt_append xo_realloc x1 ''<'';
               x3 \<leftarrow> xo_fmt_append xo_realloc x2 (xo_str name);
               x4 \<leftarrow> xo_fmt_append xo_realloc x3 ''>'';
               x5 \<leftarrow> xo_fmt_append xo_realloc x4 f;
               x6 \<leftarrow> xo_fmt_append xo_realloc x5 ''</'';
               x7 \<leftarrow> xo_fmt_append xo_realloc x6 (xo_str name);
               x8 \<leftarrow> xo_fmt_append xo_realloc x7 ''>'';
               if pretty then xo_fmt_append xo_realloc x8 [NL] else Some x8
             }
         | XO_STYLE_JSON \<Rightarrow>
             do {
               let f = (case encoding of Some e \<Rightarrow> e | None \<Rightarrow> format);
               x0 \<leftarrow> xo_format_prep xo_realloc xop;
               quote \<leftarrow> xo_quote f flags;
               x1 \<leftarrow> (if pretty then xo_buf_indent xo_realloc x0 (- 1) else Some x0);
               x2 \<leftarrow> xo_fmt_append xo_realloc x1 [DQ];
               x3 \<leftarrow> xo_fmt_append xo_realloc x2 (xo_str name);
               x4 \<leftarrow> xo_fmt_append xo_realloc x3 ([DQ] @ '':'');
               x5 \<leftarrow> (if pretty then xo_fmt_append xo_realloc x4 [SP] else Some x4);
               x6 \<leftarrow> (if quote then xo_fmt_append xo_realloc x5 [DQ] else Some x5);
               x7 \<leftarrow> xo_fmt_append xo_realloc x6 f;
               if quote then xo_fmt_append xo_realloc x7 [DQ] else Some x7
             })"

section \<open>Format-string parser and emission driver\<close>

text \<open>\<open>*p\<close> for a pointer into a C string.\<close>

definition xo_peek :: "string \<Rightarrow> char" where
  "xo_peek p = (case p of [] \<Rightarrow> NUL | c # _ \<Rightarrow> c)"

text \<open>
  \<open>for (; *sp; sp++) if (stop(*sp)) break;\<close> : the number of bytes the loop moves
  \<open>sp\<close> by.
\<close>

fun xo_scan :: "(char \<Rightarrow> bool) \<Rightarrow> string \<Rightarrow> nat" where
  "xo_scan stop [] = 0"
| "xo_scan stop (c # sp) = (if c = NUL \<or> stop c then 0 else Suc (xo_scan stop sp))"

text \<open>The same for the loop that looks for the two closing braces of an escape.\<close>

fun xo_scan_braces :: "string \<Rightarrow> nat" where
  "xo_scan_braces [] = 0"
| "xo_scan_braces (c # sp) =
     (if c = NUL then 0
      else if c = CHR ''}'' \<and> xo_peek sp = CHR ''}'' then 0
      else Suc (xo_scan_braces sp))"

text \<open>
  The \<open>switch\<close> in the body of the modifier loop, for one modifier character. The local
  \<open>style\<close> is the modifier character, NUL for 0.
\<close>

definition xo_modifier ::
  "string \<Rightarrow> char \<Rightarrow> char \<Rightarrow> 32 word \<Rightarrow> xo_handle_t \<Rightarrow> char \<times> 32 word \<times> xo_handle_t" where
  "xo_modifier fmt c style flags xop =
     (if c = CHR ''D'' \<or> c = CHR ''L'' \<or> c = CHR ''P'' \<or> c = CHR ''T'' \<or> c = CHR ''V'' then
        (c, flags,
         if XOF_WARN \<in> xo_flags xop \<and> style \<noteq> NUL
         then xo_warn xop (''format string uses multiple styles: '' @ fmt) else xop)
      else if c = CHR ''C'' then (style, flags OR XFF_COLON, xop)
      else if c = CHR ''H'' then (style, flags OR XFF_HIDE, xop)
      else if c = CHR ''N'' then (style, flags OR XFF_NOQUOTE, xop)
      else if c = CHR ''Q'' then (style, flags OR XFF_QUOTE, xop)
      else if c = CHR ''W'' then (style, flags OR XFF_WS, xop)
      else
        (style, flags,
         if XOF_WARN \<in> xo_flags xop
         then xo_warn xop (''format string uses unknown modifier: '' @ fmt) else xop))"

text \<open>
  The modifier loop \<open>for (sp = basep; sp; sp++)\<close>. Its condition tests the pointer,
  not the byte: at the terminating NUL the body takes the default case and the loop
  moves on to the byte after the string, which is the result \<open>None\<close>.
\<close>

fun xo_modifiers ::
  "string \<Rightarrow> string \<Rightarrow> char \<times> 32 word \<times> xo_handle_t \<Rightarrow> (char \<times> 32 word \<times> xo_handle_t \<times> string) option" where
  "xo_modifiers fmt [] st = None"
| "xo_modifiers fmt (c # sp) st =
     (if c = NUL then None
      else if c = CHR '':'' \<or> c = CHR ''/'' \<or> c = CHR ''}'' then
        Some (fst st, fst (snd st), snd (snd st), c # sp)
      else xo_modifiers fmt sp (xo_modifier fmt c (fst st) (fst (snd st)) (snd (snd st))))"

text \<open>
  One of the three segments after the modifiers: when \<open>*sp\<close> is the separator, skip it
  and scan to the next stop character. The result is the segment (\<open>None\<close> when it is
  empty: the source leaves the pointer NULL) and the new \<open>sp\<close>.
\<close>

definition xo_segment :: "char \<Rightarrow> (char \<Rightarrow> bool) \<Rightarrow> string \<Rightarrow> string option \<times> string" where
  "xo_segment sep stop sp =
     (if xo_peek sp = sep then
        (let ep = tl sp; n = xo_scan stop ep
         in (if n \<noteq> 0 then Some (take n ep) else None, drop n ep))
      else (None, sp))"

record xo_field =
  xf_style :: char
  xf_flags :: "32 word"
  xf_content :: "string option"
  xf_format :: "string option"
  xf_encoding :: "string option"
  xf_len :: nat

text \<open>
  The parse of one brace field from \<open>basep\<close>; \<open>xf_len\<close> is \<open>sp - basep\<close> at the end.
\<close>

definition xo_parse_field :: "string \<Rightarrow> string \<Rightarrow> xo_handle_t \<Rightarrow> (xo_field \<times> xo_handle_t) option" where
  "xo_parse_field fmt basep xop =
     (case xo_modifiers fmt basep (NUL, 0, xop) of
        None \<Rightarrow> None
      | Some (style, flags, x1, sp0) \<Rightarrow>
          (let (content, sp1) = xo_segment (CHR '':'') (\<lambda>c. c = CHR ''}'' \<or> c = CHR ''/'') sp0;
               (format, sp2) = xo_segment (CHR ''/'') (\<lambda>c. c = CHR ''}'' \<or> c = CHR ''/'') sp1;
               (encoding, sp3) = xo_segment (CHR ''/'') (\<lambda>c. c = CHR ''}'') sp2;
               sp4 = (if xo_peek sp3 = CHR ''}'' then tl sp3 else sp3)
           in Some (\<lparr>xf_style = style, xf_flags = flags, xf_content = content,
                      xf_format = format, xf_encoding = encoding,
                      xf_len = length basep - length sp4\<rparr>, x1)))"

text \<open>The dispatch on the style of the field, and the colon and blank that may follow.\<close>

definition xo_render_field ::
  "(int \<Rightarrow> bool) \<Rightarrow> (string \<Rightarrow> string \<Rightarrow> string) \<Rightarrow> xo_handle_t \<Rightarrow> xo_field \<Rightarrow> xo_handle_t option" where
  "xo_render_field xo_realloc snp xop fld =
     do {
       let format = (case xf_format fld of None \<Rightarrow> ''%s'' | Some f \<Rightarrow> f);
       x1 \<leftarrow> (if xf_style fld = CHR ''T''
               then xo_format_title xo_realloc snp xop (xf_content fld) format
               else if xf_style fld = CHR ''L''
               then xo_format_label xo_realloc xop (xf_content fld)
               else if xf_style fld = NUL \<or> xf_style fld = CHR ''V''
               then xo_format_value xo_realloc xop (xf_content fld) format
                      (xf_encoding fld) (xf_flags fld)
               else if xf_style fld = CHR ''D''
               then xo_format_decoration xo_realloc xop (xf_content fld)
               else if xf_style fld = CHR ''P''
               then xo_format_padding xo_realloc xop (xf_content fld)
               else Some xop);
       x2 \<leftarrow> (if xf_flags fld AND XFF_COLON \<noteq> 0
               then xo_format_decoration xo_realloc x1 (Some '':'') else Some x1);
       if xf_flags fld AND XFF_WS \<noteq> 0 then xo_format_padding xo_realloc x2 (Some '' '') else Some x2
     }"

text \<open>
  The formatter hook: the source copies \<open>ep - cp\<close> bytes from \<open>cp + 1\<close> (the bytes of
  the field and the byte that ended the scan), hands them to the hook as a C string
  and parses the string the hook returns, if any.
\<close>

definition xo_basep :: "xo_handle_t \<Rightarrow> string \<Rightarrow> string" where
  "xo_basep xop rest =
     (case xo_formatter xop of
        None \<Rightarrow> rest
      | Some f \<Rightarrow>
          (let n = xo_scan (\<lambda>c. c = CHR ''}'') rest;
               tmp = takeWhile (\<lambda>c. c \<noteq> NUL) (take (Suc n) rest)
           in case f tmp of None \<Rightarrow> rest | Some newp \<Rightarrow> newp))"

datatype xo_fault = Fmt_overread | Mem_fault | Args_reused

text \<open>
  The loop of \<open>xo_emit_hv\<close> over the format string, \<open>cp\<close> being the bytes from the
  cursor to the terminator. \<open>Fmt_overread\<close> is a read past the terminating NUL of the
  format string; \<open>Mem_fault\<close> is a fault of a renderer; \<open>Args_reused\<close> is a second
  \<open>vsnprintf\<close> over the argument list that the first one has consumed. After a field
  the source moves the cursor by \<open>sp - basep + 1\<close> from the opening brace, which is
  \<open>xf_len\<close> bytes from the byte after the brace.
\<close>

function xo_emit_loop ::
  "(int \<Rightarrow> bool) \<Rightarrow> (string \<Rightarrow> string \<Rightarrow> string) \<Rightarrow> string \<Rightarrow> xo_handle_t \<Rightarrow> string \<Rightarrow>
   xo_fault + xo_handle_t" where
  "xo_emit_loop xo_realloc snp fmt xop cp =
     (case cp of
        [] \<Rightarrow> Inr xop
      | c # rest \<Rightarrow>
          if c = NUL then Inr xop
          else if c = NL then
            (case xo_line_close xo_realloc xop of
               None \<Rightarrow> Inl Mem_fault
             | Some x \<Rightarrow> xo_emit_loop xo_realloc snp fmt x rest)
          else if c = CHR ''{'' \<and> xo_peek rest = CHR ''{'' then
            (let cp2 = tl rest;
                 n = xo_scan_braces cp2;
                 sp = drop n cp2;
                 sp' = (if xo_peek sp = CHR ''}'' \<and> xo_peek (tl sp) = CHR ''}'' then drop 2 sp else sp);
                 cp' = (if xo_peek sp' \<noteq> NUL then tl sp' else sp')
             in case xo_format_text xo_realloc xop (Some (take n cp2)) of
                  None \<Rightarrow> Inl Mem_fault
                | Some x \<Rightarrow> xo_emit_loop xo_realloc snp fmt x cp')
          else if c \<noteq> CHR ''{'' then
            (let n = xo_scan (\<lambda>c. c = CHR ''{'' \<or> c = NL) cp
             in case xo_format_text xo_realloc xop (Some (take n cp)) of
                  None \<Rightarrow> Inl Mem_fault
                | Some x \<Rightarrow> xo_emit_loop xo_realloc snp fmt x (drop n cp))
          else
            (case xo_parse_field fmt (xo_basep xop rest) xop of
               None \<Rightarrow> Inl Fmt_overread
             | Some (fld, x1) \<Rightarrow>
                 (case xo_render_field xo_realloc snp x1 fld of
                    None \<Rightarrow> Inl Mem_fault
                  | Some x2 \<Rightarrow>
                      if xf_len fld > length rest then Inl Fmt_overread
                      else xo_emit_loop xo_realloc snp fmt x2 (drop (xf_len fld) rest))))"
  by pat_completeness auto
termination
  by (relation "measure (\<lambda>(xo_realloc, snp, fmt, xop, cp). length cp)") auto

text \<open>
  \<open>xo_emit_hv\<close>. \<open>vsn f\<close> is the text that \<open>vsnprintf\<close> makes of the format \<open>f\<close> and the
  arguments of the caller. The format is the C string at the start of the work buffer:
  when the append of the final NUL was dropped, \<open>vsnprintf\<close> reads on past the insertion
  point (\<open>Mem_fault\<close>). \<open>vsnprintf\<close> stores at \<open>xb_bufp\<close> of the data buffer, at most
  \<open>xb_size - 1\<close> bytes and a NUL, and returns the length \<open>rc\<close> of the text. When
  \<open>rc > xb_size\<close> the data buffer is grown: if that fails the result is -1 and nothing
  is written; if it succeeds the source calls \<open>vsnprintf\<close> a second time with the
  argument list that the first call has consumed (\<open>Args_reused\<close>). Otherwise the write
  callback gets the C string at \<open>xb_bufp\<close>; its result is not used.
\<close>

definition xo_emit_hv ::
  "(int \<Rightarrow> bool) \<Rightarrow> (string \<Rightarrow> string) \<Rightarrow> (string \<Rightarrow> string \<Rightarrow> string) \<Rightarrow> xo_handle_t \<Rightarrow> string \<Rightarrow>
   xo_fault + (int \<times> xo_handle_t)" where
  "xo_emit_hv xo_realloc vsn snp xop fmt =
     (case xo_emit_loop xo_realloc snp fmt xop fmt of
        Inl e \<Rightarrow> Inl e
      | Inr x0 \<Rightarrow>
          (case xo_fmt_append xo_realloc x0 [NUL] of
             None \<Rightarrow> Inl Mem_fault
           | Some x1 \<Rightarrow>
               if NUL \<notin> set (xb_data (xo_fmt x1)) \<or> xb_size (xo_data x1) \<le> 0 then Inl Mem_fault
               else
                 (let out = vsn (takeWhile (\<lambda>c. c \<noteq> NUL) (xb_data (xo_fmt x1)));
                      rc = int (length out);
                      x2 = x1\<lparr>xo_fmt := (xo_fmt x1)\<lparr>xb_data := []\<rparr>\<rparr>
                  in if rc > xb_size (xo_data x2) then
                       (if fst (xo_buf_has_room xo_realloc (xo_data x2) rc) = 0 then Inr (- 1, x2)
                        else Inl Args_reused)
                     else
                       (case xo_write x2 of
                          None \<Rightarrow> Inl Mem_fault
                        | Some w \<Rightarrow>
                            (let xbp = xo_data x2;
                                 s = take (nat (xb_size xbp - 1)) out;
                                 old = xb_data xbp
                             in Inr (rc, x2\<lparr>xo_data := xbp\<lparr>xb_data :=
                                               take (length old) (s @ NUL # drop (Suc (length s)) old)\<rparr>,
                                           xo_opaque := xo_opaque x2 @ [s]\<rparr>))))))"

text \<open>\<open>xo_emit_h\<close> and \<open>xo_emit\<close> pass their arguments on to \<open>xo_emit_hv\<close>.\<close>

definition xo_emit_h ::
  "(int \<Rightarrow> bool) \<Rightarrow> (string \<Rightarrow> string) \<Rightarrow> (string \<Rightarrow> string \<Rightarrow> string) \<Rightarrow> xo_handle_t \<Rightarrow> string \<Rightarrow>
   xo_fault + (int \<times> xo_handle_t)" where
  "xo_emit_h xo_realloc vsn snp xop fmt = xo_emit_hv xo_realloc vsn snp xop fmt"

section \<open>Callers\<close>

text \<open>
  The functions without a handle argument call the \<open>_h\<close> function with NULL, which
  works on the default handle in place; \<open>xo_open_container\<close> stands for all of them.
\<close>

definition xo_open_container ::
  "(int \<Rightarrow> bool) \<Rightarrow> string option \<Rightarrow> (nat \<Rightarrow> xo_stack_t) \<Rightarrow> string \<Rightarrow> xo_globals \<Rightarrow>
   (int \<times> xo_globals) option" where
  "xo_open_container xo_realloc env stk name g =
     (case xo_default env stk None g of
        (h, g1) \<Rightarrow>
          (case xo_open_container_h xo_realloc h name of
             None \<Rightarrow> None
           | Some (rc, h') \<Rightarrow> Some (rc, g1\<lparr>xo_default_handle := h'\<rparr>)))"

text \<open>A program that uses the library: a sequence of calls on one handle.\<close>

datatype xo_call =
  Open_container string | Close_container string
| Open_list string | Close_list string
| Open_instance string | Close_instance string
| Emit string

fun xo_call_h ::
  "(int \<Rightarrow> bool) \<Rightarrow> (string \<Rightarrow> string) \<Rightarrow> (string \<Rightarrow> string \<Rightarrow> string) \<Rightarrow> xo_handle_t \<Rightarrow> xo_call \<Rightarrow>
   (int \<times> xo_handle_t) option" where
  "xo_call_h xo_realloc vsn snp xop (Open_container name) = xo_open_container_h xo_realloc xop name"
| "xo_call_h xo_realloc vsn snp xop (Close_container name) = xo_close_container_h xo_realloc xop name"
| "xo_call_h xo_realloc vsn snp xop (Open_list name) = xo_open_list_h xo_realloc xop name"
| "xo_call_h xo_realloc vsn snp xop (Close_list name) = xo_close_list_h xo_realloc xop name"
| "xo_call_h xo_realloc vsn snp xop (Open_instance name) = xo_open_instance_h xo_realloc xop name"
| "xo_call_h xo_realloc vsn snp xop (Close_instance name) = xo_close_instance_h xo_realloc xop name"
| "xo_call_h xo_realloc vsn snp xop (Emit fmt) =
     (case xo_emit_hv xo_realloc vsn snp xop fmt of Inl e \<Rightarrow> None | Inr r \<Rightarrow> Some r)"

fun xo_calls ::
  "(int \<Rightarrow> bool) \<Rightarrow> (string \<Rightarrow> string) \<Rightarrow> (string \<Rightarrow> string \<Rightarrow> string) \<Rightarrow> xo_handle_t \<Rightarrow> xo_call list \<Rightarrow>
   xo_handle_t option" where
  "xo_calls xo_realloc vsn snp xop [] = Some xop"
| "xo_calls xo_realloc vsn snp xop (c # cs) =
     (case xo_call_h xo_realloc vsn snp xop c of
        None \<Rightarrow> None
      | Some (rc, x) \<Rightarrow> xo_calls xo_realloc vsn snp x cs)"

text \<open>
  A handle as \<open>xo_create\<close> makes it when \<open>LIBXO_OPTIONS\<close> is not set and the allocator
  hands out zeroed memory.
\<close>

definition xo_zero_frame :: xo_stack_t where
  "xo_zero_frame = \<lparr>xs_flags = 0, xs_name = None\<rparr>"

definition xo_fresh :: "xo_style_t \<Rightarrow> xo_xof_t set \<Rightarrow> xo_handle_t" where
  "xo_fresh style flags =
     xo_init_handle None (\<lambda>i. xo_zero_frame) (xo_zero_handle\<lparr>xo_style := style, xo_flags := flags\<rparr>)"

section \<open>Frame conditions\<close>

text \<open>
  What the renderers and the emission loop leave alone: every field of the handle but
  the work buffer, the frames, the standard error stream and the \<open>XOF_DIV_OPEN\<close> flag.
\<close>

definition xo_keeps :: "xo_handle_t \<Rightarrow> xo_handle_t \<Rightarrow> bool" where
  "xo_keeps a b \<longleftrightarrow>
     xo_style b = xo_style a \<and> xo_indent b = xo_indent a \<and> xo_indent_by b = xo_indent_by a
     \<and> xo_write b = xo_write a \<and> xo_close b = xo_close a \<and> xo_formatter b = xo_formatter a
     \<and> xo_opaque b = xo_opaque a \<and> xo_data b = xo_data a \<and> xo_depth b = xo_depth a
     \<and> xo_stack_size b = xo_stack_size a \<and> xo_info b = xo_info a
     \<and> xo_info_count b = xo_info_count a \<and> length (xo_stack b) = length (xo_stack a)
     \<and> xo_flags b - {XOF_DIV_OPEN} = xo_flags a - {XOF_DIV_OPEN}"

text \<open>The same for a computation that may fault.\<close>

definition xo_kept :: "xo_handle_t \<Rightarrow> xo_handle_t option \<Rightarrow> bool" where
  "xo_kept a m \<longleftrightarrow> (\<forall>x. m = Some x \<longrightarrow> xo_keeps a x)"

section \<open>A close on the empty stack\<close>

text \<open>The line that \<open>xo_depth_change\<close> prints for a pop at depth 0.\<close>

definition xo_empty_stack_warning :: "string \<Rightarrow> string" where
  "xo_empty_stack_warning name =
     ''xo: close with empty stack: '' @ [CHR 0x27] @ name @ [CHR 0x27] @ [NL]"

text \<open>
  The effect of a close call at depth 0 on the handle: the depth and the indent stay,
  the frames stay but for the \<open>XSF_NOT_FIRST\<close> bit that the JSON branch sets on frame
  0 afterwards, and one line is printed when \<open>XOF_WARN\<close> is set.
\<close>

definition xo_root_close :: "xo_handle_t \<Rightarrow> string \<Rightarrow> xo_handle_t \<Rightarrow> bool" where
  "xo_root_close xop name x \<longleftrightarrow>
     xo_depth x = 0 \<and> xo_indent x = xo_indent xop
     \<and> xo_stack x =
         (if xo_style xop = XO_STYLE_JSON
          then (xo_stack xop)[0 := (xo_stack xop ! 0)
                 \<lparr>xs_flags := xs_flags (xo_stack xop ! 0) OR XSF_NOT_FIRST\<rparr>]
          else xo_stack xop)
     \<and> xo_stderr x =
         xo_stderr xop @ (if XOF_WARN \<in> xo_flags xop then [xo_empty_stack_warning name] else [])"

section \<open>The option characters, as the specification gives them\<close>

text \<open>The C string that a byte list stands for ends at the first NUL.\<close>

definition xo_cstr :: "string \<Rightarrow> string" where
  "xo_cstr s = takeWhile (\<lambda>c. c \<noteq> NUL) s"

text \<open>
  The spec's table of \<open>LIBXO_OPTIONS\<close>: \<open>P\<close>, \<open>W\<close>, \<open>I\<close> and \<open>x\<close> switch a flag on;
  \<open>H\<close>, \<open>J\<close>, \<open>T\<close> and \<open>X\<close> select a style, the last one in the string standing.
\<close>

definition xo_options_flags_spec :: "string \<Rightarrow> xo_xof_t set" where
  "xo_options_flags_spec e =
     (if CHR ''P'' \<in> set (xo_cstr e) then {XOF_PRETTY} else {})
     \<union> (if CHR ''W'' \<in> set (xo_cstr e) then {XOF_WARN} else {})
     \<union> (if CHR ''I'' \<in> set (xo_cstr e) then {XOF_INFO} else {})
     \<union> (if CHR ''x'' \<in> set (xo_cstr e) then {XOF_XPATH} else {})"

definition xo_style_letter :: "char \<Rightarrow> xo_style_t \<Rightarrow> xo_style_t" where
  "xo_style_letter c s =
     (if c = CHR ''H'' then XO_STYLE_HTML
      else if c = CHR ''J'' then XO_STYLE_JSON
      else if c = CHR ''T'' then XO_STYLE_TEXT
      else if c = CHR ''X'' then XO_STYLE_XML
      else s)"

definition xo_options_style_spec :: "string \<Rightarrow> xo_style_t \<Rightarrow> xo_style_t" where
  "xo_options_style_spec e s = fold xo_style_letter (xo_cstr e) s"

section \<open>The JSON value, as the specification gives it\<close>

text \<open>
  The quoting policy in the words of the spec: quote when \<open>Q\<close> is set; otherwise do not
  quote when \<open>N\<close> is set; otherwise quote exactly when the format ends in \<open>s\<close>.
\<close>

definition xo_quoted_spec :: "32 word \<Rightarrow> string \<Rightarrow> bool" where
  "xo_quoted_spec flags f =
     (if flags AND XFF_QUOTE \<noteq> 0 then True
      else if flags AND XFF_NOQUOTE \<noteq> 0 then False
      else last f = CHR ''s'')"

text \<open>
  The text of a value field after its separator: the indentation when pretty-printing,
  the quoted name and a colon, a blank when pretty-printing, and the format, in double
  quotes when the policy says so.
\<close>

definition xo_json_value_spec :: "xo_handle_t \<Rightarrow> string \<Rightarrow> string \<Rightarrow> 32 word \<Rightarrow> string" where
  "xo_json_value_spec xop name f flags =
     (if XOF_PRETTY \<in> xo_flags xop then replicate (nat (xo_indent_f xop)) SP else [])
     @ [DQ] @ name @ [DQ] @ '':''
     @ (if XOF_PRETTY \<in> xo_flags xop then [SP] else [])
     @ (if xo_quoted_spec flags f then [DQ] @ f @ [DQ] else f)"

section \<open>Return values and the sink\<close>

text \<open>
  The C string that \<open>xo_printf\<close> hands to the write callback when the text \<open>out\<close> does
  not make it grow the data buffer: the bytes before the insertion point and what
  \<open>vsnprintf\<close> stores of \<open>out\<close> in the room that is left.
\<close>

definition xo_stored :: "xo_handle_t \<Rightarrow> string \<Rightarrow> string" where
  "xo_stored xop out =
     xb_data (xo_data xop)
     @ take (nat (xb_size (xo_data xop) - int (length (xb_data (xo_data xop))) - 1)) out"

text \<open>
  The return contract of a structural call from \<open>xop\<close> to \<open>x\<close> with result \<open>rc\<close>, for the
  text that the call prints (\<open>None\<close> when it prints nothing in the style of the handle).
  A call that prints nothing returns 0 and does not invoke the write callback. A call
  whose text is not longer than the data buffer invokes the callback once, on that
  text, and returns what the callback returned. A call whose text is longer returns -1
  without invoking the callback, the allocator having refused to grow the buffer.
\<close>

definition xo_sink_return ::
  "(int \<Rightarrow> bool) \<Rightarrow> xo_handle_t \<Rightarrow> string option \<Rightarrow> int \<Rightarrow> xo_handle_t \<Rightarrow> bool" where
  "xo_sink_return xo_realloc xop text rc x \<longleftrightarrow>
     (case text of
        None \<Rightarrow> rc = 0 \<and> xo_opaque x = xo_opaque xop
      | Some out \<Rightarrow>
          if int (length out) \<le> xb_size (xo_data xop) then
            (\<exists>w. xo_write xop = Some w
                 \<and> xo_opaque x = xo_opaque xop @ [xo_stored xop out]
                 \<and> rc = w (xo_opaque xop) (xo_stored xop out))
          else rc = - 1 \<and> xo_opaque x = xo_opaque xop
               \<and> \<not> xo_realloc (xb_size (xo_data xop) + XO_BUFSIZ))"

text \<open>
  The texts of the structural calls, from the handle before the call: the expansions
  of the format strings that the source passes to \<open>xo_printf\<close>. \<open>xo_ppn\<close> is the newline
  of pretty-printing, \<open>xo_sep\<close> the JSON separator before a child that is not the first,
  and \<open>xo_popped\<close> the handle with the indent that a pop leaves (a pop at depth 0 leaves
  the indent alone).
\<close>

definition xo_ppn :: "xo_handle_t \<Rightarrow> string" where
  "xo_ppn xop = (if XOF_PRETTY \<in> xo_flags xop then [NL] else [])"

definition xo_sep :: "xo_handle_t \<Rightarrow> string" where
  "xo_sep xop =
     (if xo_not_first (xo_stack xop ! nat (xo_depth xop))
      then (if XOF_PRETTY \<in> xo_flags xop then [CHR '','', NL] else '', '') else [])"

definition xo_popped :: "xo_handle_t \<Rightarrow> xo_handle_t" where
  "xo_popped xop =
     (if xo_depth xop = 0 then xop else xop\<lparr>xo_indent := xo_indent xop + word_of_int (- 1)\<rparr>)"

definition xo_open_container_text :: "xo_handle_t \<Rightarrow> string \<Rightarrow> string option" where
  "xo_open_container_text xop name =
     (case xo_style xop of
        XO_STYLE_XML \<Rightarrow> Some (xo_pad xop @ ''<'' @ name @ ''>'' @ xo_ppn xop)
      | XO_STYLE_JSON \<Rightarrow>
          Some (xo_sep xop @ xo_pad xop @ [DQ] @ name @ [DQ] @ '': {'' @ xo_ppn xop)
      | _ \<Rightarrow> None)"

definition xo_close_container_text :: "xo_handle_t \<Rightarrow> string \<Rightarrow> string option" where
  "xo_close_container_text xop name =
     (case xo_style xop of
        XO_STYLE_XML \<Rightarrow> Some (xo_pad (xo_popped xop) @ ''</'' @ name @ ''>'' @ xo_ppn xop)
      | XO_STYLE_JSON \<Rightarrow>
          Some (xo_ppn xop @ xo_pad (xo_popped xop) @ ''}''
                @ (if xo_depth xop \<le> 1 then [NL] else []))
      | _ \<Rightarrow> None)"

definition xo_open_list_text :: "xo_handle_t \<Rightarrow> string \<Rightarrow> string option" where
  "xo_open_list_text xop name =
     (case xo_style xop of
        XO_STYLE_JSON \<Rightarrow>
          Some (xo_sep xop @ xo_pad xop @ [DQ] @ name @ [DQ] @ '': ['' @ xo_ppn xop)
      | _ \<Rightarrow> None)"

definition xo_open_instance_text :: "xo_handle_t \<Rightarrow> string \<Rightarrow> string option" where
  "xo_open_instance_text xop name =
     (case xo_style xop of
        XO_STYLE_XML \<Rightarrow> Some (xo_pad xop @ ''<'' @ name @ ''>'' @ xo_ppn xop)
      | XO_STYLE_JSON \<Rightarrow> Some (xo_sep xop @ xo_pad xop @ ''{'' @ xo_ppn xop)
      | _ \<Rightarrow> None)"

definition xo_close_instance_text :: "xo_handle_t \<Rightarrow> string \<Rightarrow> string option" where
  "xo_close_instance_text xop name =
     (case xo_style xop of
        XO_STYLE_XML \<Rightarrow> Some (xo_pad (xo_popped xop) @ ''</'' @ name @ ''>'' @ xo_ppn xop)
      | XO_STYLE_JSON \<Rightarrow> Some (xo_ppn xop @ xo_pad (xo_popped xop) @ ''}'')
      | _ \<Rightarrow> None)"

text \<open>
  The text of an emission: what \<open>vsnprintf\<close> makes of the format that the loop has put
  into the work buffer and of the arguments of the caller.
\<close>

definition xo_emit_text ::
  "(int \<Rightarrow> bool) \<Rightarrow> (string \<Rightarrow> string) \<Rightarrow> (string \<Rightarrow> string \<Rightarrow> string) \<Rightarrow> xo_handle_t \<Rightarrow> string \<Rightarrow>
   string option" where
  "xo_emit_text xo_realloc vsn snp xop fmt =
     (case xo_emit_loop xo_realloc snp fmt xop fmt of
        Inl e \<Rightarrow> None
      | Inr x0 \<Rightarrow>
          (case xo_fmt_append xo_realloc x0 [NUL] of
             None \<Rightarrow> None
           | Some x1 \<Rightarrow> Some (vsn (takeWhile (\<lambda>c. c \<noteq> NUL) (xb_data (xo_fmt x1))))))"

text \<open>
  The return contract of an emission with the text \<open>out\<close>. When \<open>out\<close> is not longer than
  the data buffer, the result is the length of \<open>out\<close>, and the write callback has been
  invoked once, on what the buffer holds of \<open>out\<close>; what the callback returned plays no
  part. When \<open>out\<close> is longer, the result is -1, the callback has not been invoked, and
  the allocator has refused to grow the buffer.
\<close>

definition xo_emit_contract ::
  "(int \<Rightarrow> bool) \<Rightarrow> xo_handle_t \<Rightarrow> string \<Rightarrow> int \<Rightarrow> xo_handle_t \<Rightarrow> bool" where
  "xo_emit_contract xo_realloc xop out rc x \<longleftrightarrow>
     (if int (length out) \<le> xb_size (xo_data xop) then
        rc = int (length out)
        \<and> xo_opaque x = xo_opaque xop @ [take (nat (xb_size (xo_data xop) - 1)) out]
      else rc = - 1 \<and> xo_opaque x = xo_opaque xop
           \<and> \<not> xo_realloc (xb_size (xo_data xop) + XO_BUFSIZ))"

text \<open>Two handles that agree on what \<open>xo_printf\<close> reads: callback, sink and data buffer.\<close>

definition xo_same_sink :: "xo_handle_t \<Rightarrow> xo_handle_t \<Rightarrow> bool" where
  "xo_same_sink a b \<longleftrightarrow>
     xo_write b = xo_write a \<and> xo_opaque b = xo_opaque a \<and> xo_data b = xo_data a"

text \<open>A write callback that reports an error.\<close>

definition xo_failing_sink :: "string list \<Rightarrow> string \<Rightarrow> int" where
  "xo_failing_sink opaque data = - 1"

section \<open>Format strings whose fields are delimited\<close>

text \<open>The characters that end the modifiers of a brace field.\<close>

definition xo_delimiter :: "char \<Rightarrow> bool" where
  "xo_delimiter c \<longleftrightarrow> c = CHR '':'' \<or> c = CHR ''/'' \<or> c = CHR ''}''"

text \<open>
  Every opening brace of the string has a colon, a slash or a closing brace somewhere
  after it: no field consists of modifiers alone up to the end of the string. A field
  may still lack its closing brace.
\<close>

primrec xo_delimited :: "string \<Rightarrow> bool" where
  "xo_delimited [] = True"
| "xo_delimited (c # s) =
     ((c = CHR ''{'' \<longrightarrow> list_ex xo_delimiter s) \<and> xo_delimited s)"

text \<open>The two conditions the loop keeps for the rest of the format string.\<close>

definition xo_c_format :: "string \<Rightarrow> bool" where
  "xo_c_format fmt \<longleftrightarrow> NUL \<notin> set fmt \<and> xo_delimited fmt"

text \<open>
  The bytes of a brace field that has no closing brace, from the byte after the opening
  brace to the end of the format string: no closing brace (and no NUL) among them, a
  colon or a slash among them, and the first is not a second opening brace (which would
  make the two an escape).
\<close>

definition xo_open_ended :: "string \<Rightarrow> bool" where
  "xo_open_ended sp \<longleftrightarrow> NUL \<notin> set sp \<and> CHR ''}'' \<notin> set sp"

definition xo_unterminated :: "string \<Rightarrow> bool" where
  "xo_unterminated fld \<longleftrightarrow>
     xo_open_ended fld \<and> list_ex xo_delimiter fld \<and> xo_peek fld \<noteq> CHR ''{''"

section \<open>JSON children and separators\<close>













chapter \<open>Properties\<close>

section \<open>The fresh handle\<close>

lemma xo_fresh_fields:
  "xo_style (xo_fresh style flags) = style"
  "xo_flags (xo_fresh style flags) = flags"
  "xo_indent (xo_fresh style flags) = 0"
  "xo_indent_by (xo_fresh style flags) = 2"
  "xo_write (xo_fresh style flags) = Some xo_write_to_file"
  "xo_close (xo_fresh style flags) = None"
  "xo_formatter (xo_fresh style flags) = None"
  "xo_opaque (xo_fresh style flags) = []"
  "xo_data (xo_fresh style flags) = \<lparr>xb_data = [], xb_size = 8192\<rparr>"
  "xo_fmt (xo_fresh style flags) = \<lparr>xb_data = [], xb_size = 8192\<rparr>"
  "xo_depth (xo_fresh style flags) = 0"
  "xo_stack_size (xo_fresh style flags) = 512"
  "xo_info (xo_fresh style flags) = None"
  "xo_stderr (xo_fresh style flags) = []"
  "length (xo_stack (xo_fresh style flags)) = 512"
  by (simp_all add: xo_fresh_def xo_init_handle_def xo_zero_handle_def xo_buf_init_def
      XO_BUFSIZ_def XO_DEPTH_def XO_INDENT_BY_def del: upt_rec_numeral)

lemma xo_fresh_frame:
  "i < 512 \<Longrightarrow> xo_stack (xo_fresh style flags) ! i = xo_zero_frame"
  by (simp add: xo_fresh_def xo_init_handle_def XO_DEPTH_def del: upt_rec_numeral)

lemma xo_fresh_stack_nonempty: "xo_stack (xo_fresh style flags) \<noteq> []"
proof
  assume "xo_stack (xo_fresh style flags) = []"
  then have "length (xo_stack (xo_fresh style flags)) = 0" by simp
  then show False by (simp add: xo_fresh_fields)
qed

lemma xo_create_fresh:
  "xo_create (\<lambda>n. True) None (\<lambda>i. xo_zero_frame) xo_zero_handle style flags
     = Some (xo_fresh style flags)"
  by (simp add: xo_create_def xo_fresh_def)

section \<open>Growable buffer\<close>

text \<open>
  C4. The claim is that a successful \<open>xo_buf_has_room\<close> leaves room for the requested
  bytes, for every length. The source grows the block once, by \<open>XO_BUFSIZ\<close>: on a new
  buffer of 8192 bytes a request for 20000 bytes is answered with 1 and a block of
  16384 bytes, and the \<open>memcpy\<close> of \<open>xo_buf_append\<close> that follows leaves the block.
\<close>

theorem xo_buf_has_room_grows_once:
  "fst (xo_buf_has_room (\<lambda>n. True) xo_buf_init 20000) = 1
   \<and> xb_size (snd (xo_buf_has_room (\<lambda>n. True) xo_buf_init 20000)) = 16384
   \<and> xo_buf_append (\<lambda>n. True) xo_buf_init (replicate 20000 (CHR ''a'')) = None"
  by (simp add: xo_buf_has_room_def xo_buf_append_def xo_buf_init_def XO_BUFSIZ_def)

section \<open>Evaluation\<close>

lemmas xo_ops_defs =
  xo_open_container_h_def xo_close_container_h_def xo_open_list_h_def xo_close_list_h_def
  xo_open_instance_h_def xo_close_instance_h_def

lemmas xo_eval_defs =
  xo_ops_defs xo_printf_def xo_depth_change_def xo_stack_top_def xo_set_not_first_def
  xo_pad_def xo_indent_f_def xo_not_first_def xo_buf_has_room_def xo_warn_def
  xo_pop_warnings_def xo_write_to_file_def XO_BUFSIZ_def
  XSF_NOT_FIRST_def XSF_LIST_def XSF_INSTANCE_def xo_zero_frame_def

section \<open>Depth of the structural operations\<close>

lemma xo_printf_fields:
  assumes "xo_printf R xop out = Some (rc, x)"
  shows "xo_depth x = xo_depth xop" "xo_stack x = xo_stack xop" "xo_flags x = xo_flags xop"
    "xo_style x = xo_style xop" "xo_indent x = xo_indent xop" "xo_stderr x = xo_stderr xop"
    "xo_indent_by x = xo_indent_by xop" "xo_fmt x = xo_fmt xop" "xo_write x = xo_write xop"
    "xo_formatter x = xo_formatter xop"
  using assms
  by (auto simp: xo_printf_def Let_def split: if_splits prod.splits option.splits)

lemma xo_set_not_first_fields:
  assumes "xo_set_not_first xop = Some x"
  shows "xo_depth x = xo_depth xop" "xo_flags x = xo_flags xop"
    "xo_style x = xo_style xop" "xo_indent x = xo_indent xop" "xo_stderr x = xo_stderr xop"
    "xo_indent_by x = xo_indent_by xop" "xo_fmt x = xo_fmt xop" "xo_write x = xo_write xop"
    "xo_data x = xo_data xop" "xo_opaque x = xo_opaque xop"
    "length (xo_stack x) = length (xo_stack xop)" "xo_formatter x = xo_formatter xop"
  using assms
  by (auto simp: xo_set_not_first_def split: option.splits)

lemma xo_printf_depth:
  "xo_printf R xop out = Some (rc, x) \<Longrightarrow> xo_depth x = xo_depth xop"
  by (simp add: xo_printf_fields)

lemma xo_set_not_first_depth:
  "xo_set_not_first xop = Some x \<Longrightarrow> xo_depth x = xo_depth xop"
  by (simp add: xo_set_not_first_fields)

lemma xo_depth_change_depth:
  "xo_depth_change R xop name delta indent flags = Some x \<Longrightarrow>
   xo_depth x = (if delta < 0 \<and> xo_depth xop = 0 then 0 else xo_depth xop + delta)"
  by (auto simp: xo_depth_change_def Let_def xo_warn_def split: if_splits)

lemma xo_open_container_depth:
  "xo_open_container_h R xop name = Some (rc, x) \<Longrightarrow> xo_depth x = xo_depth xop + 1"
  by (cases "xo_style xop")
     (auto simp: xo_open_container_h_def Let_def bind_eq_Some_conv
        dest!: xo_printf_depth xo_set_not_first_depth xo_depth_change_depth)

lemma xo_open_instance_depth:
  "xo_open_instance_h R xop name = Some (rc, x) \<Longrightarrow> xo_depth x = xo_depth xop + 1"
  by (cases "xo_style xop")
     (auto simp: xo_open_instance_h_def Let_def bind_eq_Some_conv
        dest!: xo_printf_depth xo_set_not_first_depth xo_depth_change_depth)

lemma xo_open_list_depth:
  "xo_open_list_h R xop name = Some (rc, x) \<Longrightarrow>
   xo_depth x = (if xo_style xop = XO_STYLE_JSON then xo_depth xop + 1 else xo_depth xop)"
  by (cases "xo_style xop")
     (auto simp: xo_open_list_h_def Let_def bind_eq_Some_conv
        dest!: xo_printf_depth xo_set_not_first_depth xo_depth_change_depth)

lemma xo_close_container_depth:
  "xo_close_container_h R xop name = Some (rc, x) \<Longrightarrow>
   xo_depth x = (if xo_depth xop = 0 then 0 else xo_depth xop - 1)"
  by (cases "xo_style xop")
     (auto simp: xo_close_container_h_def Let_def bind_eq_Some_conv
        dest!: xo_printf_depth xo_set_not_first_depth xo_depth_change_depth)

lemma xo_close_instance_depth:
  "xo_close_instance_h R xop name = Some (rc, x) \<Longrightarrow>
   xo_depth x = (if xo_depth xop = 0 then 0 else xo_depth xop - 1)"
  by (cases "xo_style xop")
     (auto simp: xo_close_instance_h_def Let_def bind_eq_Some_conv
        dest!: xo_printf_depth xo_set_not_first_depth xo_depth_change_depth)

lemma xo_close_list_depth:
  "xo_close_list_h R xop name = Some (rc, x) \<Longrightarrow>
   xo_depth x = (if xo_style xop = XO_STYLE_JSON \<and> xo_depth xop \<noteq> 0
                 then xo_depth xop - 1 else xo_depth xop)"
  by (cases "xo_style xop")
     (auto simp: xo_close_list_h_def Let_def bind_eq_Some_conv
        dest!: xo_printf_depth xo_set_not_first_depth xo_depth_change_depth)

section \<open>Frame of the renderers and of the emission loop\<close>

lemma xo_keeps_refl [simp]: "xo_keeps a a"
  by (simp add: xo_keeps_def)

lemma xo_keeps_trans: "xo_keeps a b \<Longrightarrow> xo_keeps b c \<Longrightarrow> xo_keeps a c"
  by (simp add: xo_keeps_def)

lemma xo_fmt_append_keeps: "xo_fmt_append R xop s = Some x \<Longrightarrow> xo_keeps xop x"
  by (auto simp: xo_fmt_append_def xo_keeps_def split: option.splits)

lemma xo_keeps_flag_update [simp]:
  "xo_keeps a (b\<lparr>xo_flags := insert XOF_DIV_OPEN (xo_flags b)\<rparr>) = xo_keeps a b"
  "xo_keeps a (b\<lparr>xo_flags := xo_flags b - {XOF_DIV_OPEN}\<rparr>) = xo_keeps a b"
  "xo_keeps (b\<lparr>xo_flags := insert XOF_DIV_OPEN (xo_flags b)\<rparr>) c = xo_keeps b c"
  "xo_keeps (b\<lparr>xo_flags := xo_flags b - {XOF_DIV_OPEN}\<rparr>) c = xo_keeps b c"
  by (auto simp: xo_keeps_def)

lemma xo_keptD: "xo_kept a m \<Longrightarrow> m = Some x \<Longrightarrow> xo_keeps a x"
  by (simp add: xo_kept_def)

lemma xo_kept_Some: "xo_keeps a x \<Longrightarrow> xo_kept a (Some x)"
  by (simp add: xo_kept_def)

lemma xo_kept_None: "xo_kept a None"
  by (simp add: xo_kept_def)

lemma xo_kept_bind:
  "xo_kept a m \<Longrightarrow> (\<And>y. xo_keeps a y \<Longrightarrow> xo_kept a (k y)) \<Longrightarrow> xo_kept a (m \<bind> k)"
  by (auto simp: xo_kept_def bind_eq_Some_conv)

lemma xo_kept_if:
  "(c \<Longrightarrow> xo_kept a m) \<Longrightarrow> (\<not> c \<Longrightarrow> xo_kept a n) \<Longrightarrow> xo_kept a (if c then m else n)"
  by simp

lemma xo_kept_option:
  "(xo_kept a m) \<Longrightarrow> (\<And>v. xo_kept a (n v)) \<Longrightarrow> xo_kept a (case p of None \<Rightarrow> m | Some v \<Rightarrow> n v)"
  by (simp split: option.splits)

lemma xo_kept_fmt_append: "xo_keeps a y \<Longrightarrow> xo_kept a (xo_fmt_append R y s)"
  by (auto simp: xo_kept_def dest!: xo_fmt_append_keeps elim: xo_keeps_trans)

lemma xo_kept_style:
  "(xo_style y = XO_STYLE_TEXT \<Longrightarrow> xo_kept a m1) \<Longrightarrow> (xo_style y = XO_STYLE_XML \<Longrightarrow> xo_kept a m2) \<Longrightarrow>
   (xo_style y = XO_STYLE_JSON \<Longrightarrow> xo_kept a m3) \<Longrightarrow> (xo_style y = XO_STYLE_HTML \<Longrightarrow> xo_kept a m4) \<Longrightarrow>
   xo_kept a (case xo_style y of XO_STYLE_TEXT \<Rightarrow> m1 | XO_STYLE_XML \<Rightarrow> m2
              | XO_STYLE_JSON \<Rightarrow> m3 | XO_STYLE_HTML \<Rightarrow> m4)"
  by (simp split: xo_style_t.splits)

lemmas xo_kept_intros =
  xo_kept_Some xo_kept_None xo_kept_bind xo_kept_if xo_kept_option xo_kept_style
  xo_kept_fmt_append

lemma xo_kept_buf_indent: "xo_keeps a y \<Longrightarrow> xo_kept a (xo_buf_indent R y n)"
  unfolding xo_buf_indent_def Let_def by (intro xo_kept_intros; simp)

lemma xo_kept_line_ensure_open: "xo_keeps a y \<Longrightarrow> xo_kept a (xo_line_ensure_open R y)"
  unfolding xo_line_ensure_open_def by (intro xo_kept_intros; simp)

lemma xo_kept_line_close: "xo_keeps a y \<Longrightarrow> xo_kept a (xo_line_close R y)"
  unfolding xo_line_close_def
  by (intro xo_kept_intros xo_kept_line_ensure_open; simp)

lemma xo_kept_xpath_names: "xo_keeps a y \<Longrightarrow> xo_kept a (xo_xpath_names R fs y)"
proof (induction fs arbitrary: y)
  case Nil
  then show ?case by (simp add: xo_kept_Some)
next
  case (Cons f fs)
  show ?case
    unfolding xo_xpath_names.simps
    by (intro xo_kept_intros Cons.IH; simp add: Cons.prems)
qed

lemma xo_kept_buf_append_div: "xo_keeps a y \<Longrightarrow> xo_kept a (xo_buf_append_div R y cls name val)"
  unfolding xo_buf_append_div_def
  by (intro xo_kept_intros xo_kept_line_ensure_open xo_kept_buf_indent xo_kept_xpath_names; simp)

lemma xo_keeps_fmt_update [simp]:
  "xo_keeps a (b\<lparr>xo_fmt := f\<rparr>) = xo_keeps a b"
  by (auto simp: xo_keeps_def)

lemma xo_kept_format_text: "xo_keeps a y \<Longrightarrow> xo_kept a (xo_format_text R y s)"
  unfolding xo_format_text_def
  by (intro xo_kept_intros xo_kept_buf_append_div; simp)

lemma xo_kept_format_label: "xo_keeps a y \<Longrightarrow> xo_kept a (xo_format_label R y s)"
  unfolding xo_format_label_def
  by (intro xo_kept_intros xo_kept_buf_append_div; simp)

lemma xo_kept_format_decoration: "xo_keeps a y \<Longrightarrow> xo_kept a (xo_format_decoration R y s)"
  unfolding xo_format_decoration_def
  by (intro xo_kept_intros xo_kept_buf_append_div; simp)

lemma xo_kept_format_padding: "xo_keeps a y \<Longrightarrow> xo_kept a (xo_format_padding R y s)"
  unfolding xo_format_padding_def
  by (intro xo_kept_intros xo_kept_buf_append_div; simp)

lemma xo_set_not_first_keeps: "xo_set_not_first xop = Some x \<Longrightarrow> xo_keeps xop x"
  by (auto simp: xo_set_not_first_def xo_keeps_def split: option.splits)

lemma xo_kept_set_not_first: "xo_keeps a y \<Longrightarrow> xo_kept a (xo_set_not_first y)"
  by (auto simp: xo_kept_def dest!: xo_set_not_first_keeps elim: xo_keeps_trans)

lemma xo_kept_format_prep: "xo_keeps a y \<Longrightarrow> xo_kept a (xo_format_prep R y)"
  unfolding xo_format_prep_def
  by (intro xo_kept_intros xo_kept_set_not_first; simp)

lemma xo_kept_format_title: "xo_keeps a y \<Longrightarrow> xo_kept a (xo_format_title R snp y s f)"
  unfolding xo_format_title_def Let_def
  by (intro xo_kept_intros xo_kept_line_ensure_open xo_kept_buf_indent; simp)

lemma xo_kept_quote:
  "(\<And>q. xo_kept a (k q)) \<Longrightarrow> xo_kept a (xo_quote f fl \<bind> k)"
  by (cases "xo_quote f fl") (simp_all add: xo_kept_None)

lemma xo_kept_format_value: "xo_keeps a y \<Longrightarrow> xo_kept a (xo_format_value R y name f e fl)"
  unfolding xo_format_value_def Let_def
  by (intro xo_kept_intros xo_kept_quote xo_kept_format_prep xo_kept_buf_indent
        xo_kept_buf_append_div; simp)

lemma xo_kept_render_field: "xo_keeps a y \<Longrightarrow> xo_kept a (xo_render_field R snp y fld)"
  unfolding xo_render_field_def Let_def
  by (intro xo_kept_intros xo_kept_format_title xo_kept_format_label xo_kept_format_value
        xo_kept_format_decoration xo_kept_format_padding; simp)

lemma xo_modifier_keeps:
  "xo_modifier fmt c style flags xop = (s, f, x) \<Longrightarrow> xo_keeps xop x \<and> xo_flags x = xo_flags xop"
  by (auto simp: xo_modifier_def xo_warn_def xo_keeps_def split: if_splits)

lemma xo_modifiers_keeps:
  "xo_modifiers fmt sp st = Some (s, f, x, sp') \<Longrightarrow>
   xo_keeps (snd (snd st)) x \<and> xo_flags x = xo_flags (snd (snd st))"
proof (induction fmt sp st rule: xo_modifiers.induct)
  case (1 fmt st)
  then show ?case by simp
next
  case (2 fmt c sp st)
  show ?case
  proof (cases "c = NUL \<or> c = CHR '':'' \<or> c = CHR ''/'' \<or> c = CHR ''}''")
    case True
    with "2.prems" show ?thesis by (auto split: if_splits)
  next
    case False
    obtain s1 f1 x1 where m: "xo_modifier fmt c (fst st) (fst (snd st)) (snd (snd st)) = (s1, f1, x1)"
      by (cases "xo_modifier fmt c (fst st) (fst (snd st)) (snd (snd st))") auto
    from False "2.prems" have "xo_modifiers fmt sp (s1, f1, x1) = Some (s, f, x, sp')"
      by (simp add: m)
    with "2.IH" False m have "xo_keeps x1 x \<and> xo_flags x = xo_flags x1" by simp
    with xo_modifier_keeps[OF m] show ?thesis
      by (auto elim: xo_keeps_trans)
  qed
qed

lemma xo_parse_field_keeps:
  assumes "xo_parse_field fmt basep xop = Some (fld, x)"
  shows "xo_keeps xop x \<and> xo_flags x = xo_flags xop"
proof -
  from assms obtain s f sp0 where "xo_modifiers fmt basep (NUL, 0, xop) = Some (s, f, x, sp0)"
    by (cases "xo_modifiers fmt basep (NUL, 0, xop)")
       (auto simp: xo_parse_field_def Let_def case_prod_beta)
  from xo_modifiers_keeps[OF this] show ?thesis by simp
qed

declare xo_emit_loop.simps [simp del]

lemma xo_emit_loop_keeps:
  "xo_emit_loop R snp fmt xop cp = Inr x \<Longrightarrow> xo_keeps xop x"
proof (induction R snp fmt xop cp rule: xo_emit_loop.induct)
  case (1 R snp fmt xop cp)
  note u = "1.prems"[unfolded xo_emit_loop.simps[of R snp fmt xop cp]]
  show ?case
  proof (cases cp)
    case Nil
    with u show ?thesis by simp
  next
    case (Cons c rest)
    note cp = Cons
    consider (nul) "c = NUL" | (nl) "c \<noteq> NUL" "c = NL"
      | (esc) "c \<noteq> NUL" "c \<noteq> NL" "c = CHR ''{''" "xo_peek rest = CHR ''{''"
      | (run) "c \<noteq> NUL" "c \<noteq> NL" "c \<noteq> CHR ''{''"
      | (fld) "c \<noteq> NUL" "c \<noteq> NL" "c = CHR ''{''" "xo_peek rest \<noteq> CHR ''{''"
      by blast
    then show ?thesis
    proof cases
      case nul
      with u cp show ?thesis by simp
    next
      case nl
      obtain y where y: "xo_line_close R xop = Some y"
        and r: "xo_emit_loop R snp fmt y rest = Inr x"
        using u nl by (cases "xo_line_close R xop") (auto simp: cp)
      from "1.IH"(1)[OF cp _ _ y] nl r have "xo_keeps y x" by simp
      moreover have "xo_keeps xop y"
        by (rule xo_keptD[OF xo_kept_line_close[OF xo_keeps_refl] y])
      ultimately show ?thesis by (blast intro: xo_keeps_trans)
    next
      case esc
      let ?cp2 = "tl rest"
      let ?n = "xo_scan_braces ?cp2"
      let ?sp = "drop ?n ?cp2"
      let ?sp' = "(if xo_peek ?sp = CHR ''}'' \<and> xo_peek (tl ?sp) = CHR ''}'' then drop 2 ?sp else ?sp)"
      let ?cp' = "(if xo_peek ?sp' \<noteq> NUL then tl ?sp' else ?sp')"
      obtain y where y: "xo_format_text R xop (Some (take ?n ?cp2)) = Some y"
        and r: "xo_emit_loop R snp fmt y ?cp' = Inr x"
        using u esc
        by (cases "xo_format_text R xop (Some (take ?n ?cp2))") (auto simp: cp Let_def)
      from "1.IH"(2)[OF cp _ _ _ refl refl refl refl refl y] esc r
      have "xo_keeps y x" by simp
      moreover have "xo_keeps xop y"
        by (rule xo_keptD[OF xo_kept_format_text[OF xo_keeps_refl] y])
      ultimately show ?thesis by (blast intro: xo_keeps_trans)
    next
      case run
      let ?n = "xo_scan (\<lambda>c. c = CHR ''{'' \<or> c = NL) cp"
      obtain y where y: "xo_format_text R xop (Some (take ?n cp)) = Some y"
        and r: "xo_emit_loop R snp fmt y (drop ?n cp) = Inr x"
        using u run
        by (cases "xo_format_text R xop (Some (take ?n cp))") (auto simp: cp Let_def)
      from "1.IH"(3)[OF cp _ _ _ _ refl y] run r
      have "xo_keeps y x" by simp
      moreover have "xo_keeps xop y"
        by (rule xo_keptD[OF xo_kept_format_text[OF xo_keeps_refl] y])
      ultimately show ?thesis by (blast intro: xo_keeps_trans)
    next
      case fld
      obtain f x1 where p: "xo_parse_field fmt (xo_basep xop rest) xop = Some (f, x1)"
        using u fld by (cases "xo_parse_field fmt (xo_basep xop rest) xop") (auto simp: cp)
      obtain x2 where y: "xo_render_field R snp x1 f = Some x2"
        using u fld p by (cases "xo_render_field R snp x1 f") (auto simp: cp)
      have le: "\<not> xf_len f > length rest"
        and r: "xo_emit_loop R snp fmt x2 (drop (xf_len f) rest) = Inr x"
        using u fld p y by (auto simp: cp split: if_splits)
      from "1.IH"(4)[OF cp _ _ _ _ p refl y le] fld r
      have "xo_keeps x2 x" by simp
      moreover have "xo_keeps x1 x2"
        by (rule xo_keptD[OF xo_kept_render_field[OF xo_keeps_refl] y])
      moreover from p have "xo_keeps xop x1" by (simp add: xo_parse_field_keeps)
      ultimately show ?thesis by (blast intro: xo_keeps_trans)
    qed
  qed
qed

lemma xo_emit_hv_depth:
  assumes "xo_emit_hv R vsn snp xop fmt = Inr (rc, x)"
  shows "xo_depth x = xo_depth xop"
proof -
  from assms obtain x0 where l: "xo_emit_loop R snp fmt xop fmt = Inr x0"
    by (cases "xo_emit_loop R snp fmt xop fmt") (auto simp: xo_emit_hv_def)
  from assms l obtain x1 where a: "xo_fmt_append R x0 [NUL] = Some x1"
    by (cases "xo_fmt_append R x0 [NUL]") (auto simp: xo_emit_hv_def)
  from assms l a have "xo_depth x = xo_depth x1"
    by (auto simp: xo_emit_hv_def Let_def split: if_splits prod.splits option.splits)
  moreover from xo_fmt_append_keeps[OF a] have "xo_depth x1 = xo_depth x0"
    by (simp add: xo_keeps_def)
  moreover from xo_emit_loop_keeps[OF l] have "xo_depth x0 = xo_depth xop"
    by (simp add: xo_keeps_def)
  ultimately show ?thesis by simp
qed

lemma xo_call_h_depth_nonneg:
  assumes "0 \<le> xo_depth xop" and "xo_call_h R vsn snp xop c = Some (rc, x)"
  shows "0 \<le> xo_depth x"
proof (cases c)
  case (Open_container n)
  with assms show ?thesis by (auto dest!: xo_open_container_depth)
next
  case (Close_container n)
  with assms show ?thesis by (auto dest!: xo_close_container_depth)
next
  case (Open_list n)
  with assms show ?thesis by (auto dest!: xo_open_list_depth)
next
  case (Close_list n)
  with assms show ?thesis by (auto dest!: xo_close_list_depth)
next
  case (Open_instance n)
  with assms show ?thesis by (auto dest!: xo_open_instance_depth)
next
  case (Close_instance n)
  with assms show ?thesis by (auto dest!: xo_close_instance_depth)
next
  case (Emit f)
  with assms show ?thesis by (auto split: sum.splits dest!: xo_emit_hv_depth)
qed

text \<open>
  C10. Along every sequence of calls on a handle (the six structural operations, and
  emission as well), in any style, a depth that is not negative stays so: a pop at
  depth 0 returns before the decrement.
\<close>

theorem xo_depth_never_negative:
  "0 \<le> xo_depth xop \<Longrightarrow> xo_calls R vsn snp xop cs = Some x \<Longrightarrow> 0 \<le> xo_depth x"
proof (induction cs arbitrary: xop)
  case Nil
  then show ?case by simp
next
  case (Cons c cs)
  from Cons.prems(2) obtain rc y where c: "xo_call_h R vsn snp xop c = Some (rc, y)"
    and r: "xo_calls R vsn snp y cs = Some x"
    by (auto split: option.splits)
  from Cons.prems(1) c have "0 \<le> xo_depth y" by (rule xo_call_h_depth_nonneg)
  then show ?case using r by (rule Cons.IH)
qed

lemma xo_three_calls:
  "xo_calls (\<lambda>n. True) (\<lambda>f. f) (\<lambda>f a. a) (xo_fresh XO_STYLE_XML {})
      [Open_container ''a'', Close_container ''a'', Close_container ''a''] \<noteq> None"
  by (simp add: xo_eval_defs xo_fresh_fields xo_fresh_frame Let_def)

theorem xo_depth_never_negative_witness:
  "0 \<le> xo_depth (xo_fresh XO_STYLE_XML {})
   \<and> (\<exists>x. xo_calls (\<lambda>n. True) (\<lambda>f. f) (\<lambda>f a. a) (xo_fresh XO_STYLE_XML {})
              [Open_container ''a'', Close_container ''a'', Close_container ''a''] = Some x
          \<and> 0 \<le> xo_depth x)"
proof -
  have h: "0 \<le> xo_depth (xo_fresh XO_STYLE_XML {})"
    by (simp add: xo_fresh_fields)
  from xo_three_calls obtain x where
    x: "xo_calls (\<lambda>n. True) (\<lambda>f. f) (\<lambda>f a. a) (xo_fresh XO_STYLE_XML {})
          [Open_container ''a'', Close_container ''a'', Close_container ''a''] = Some x"
    by blast
  from xo_depth_never_negative[OF h x] h x show ?thesis by blast
qed

section \<open>Names of the popped frames\<close>

text \<open>
  C7. The claim is that a pop under \<open>XOF_XPATH\<close> or \<open>XOF_WARN\<close> frees the name of the
  frame and clears the field. The push copies the name under either flag, but the pop
  frees it under \<open>XOF_XPATH\<close> only: on a handle with \<open>XOF_WARN\<close> alone, after
  \<open>open_container a\<close> and \<open>close_container a\<close> the depth is 0 again, no warning was
  printed, and the popped frame 1 still holds the name.
\<close>

theorem xo_pop_keeps_name_under_warn:
  "(case xo_calls (\<lambda>n. True) (\<lambda>f. f) (\<lambda>f a. a) (xo_fresh XO_STYLE_XML {XOF_WARN})
           [Open_container ''a'', Close_container ''a''] of
      None \<Rightarrow> None
    | Some h \<Rightarrow> Some (xo_depth h, xs_name (xo_stack h ! 1), xo_stderr h))
   = Some (0, Some ''a'', [])"
  by (simp add: xo_eval_defs xo_fresh_fields xo_fresh_frame)

section \<open>Destruction of the default handle\<close>

lemma xo_default_start:
  "xo_default None (\<lambda>i. xo_zero_frame) None xo_globals_start
     = (xo_fresh XO_STYLE_TEXT {},
        \<lparr>xo_default_handle = xo_fresh XO_STYLE_TEXT {}, xo_default_inited = 1\<rparr>)"
  by (simp add: xo_default_def xo_default_init_def xo_globals_start_def xo_fresh_def
      xo_zero_handle_def)

lemma xo_fresh_text_open:
  "xo_open_container_h (\<lambda>n. True) (xo_fresh XO_STYLE_TEXT {}) ''a''
     = Some (0, (xo_fresh XO_STYLE_TEXT {})
                 \<lparr>xo_stack := (xo_stack (xo_fresh XO_STYLE_TEXT {}))[1 := xo_zero_frame],
                  xo_depth := 1, xo_indent := 0\<rparr>)"
  by (simp add: xo_open_container_h_def xo_depth_change_def xo_fresh_fields xo_fresh_frame
      xo_zero_frame_def)

text \<open>
  C9. The claim is that destroying the default handle zeroes the whole record.
  \<open>bzero\<close> is given the size of a pointer, so on an LP64 target it clears the first
  eight bytes: style, flags, indent and indent-by. After \<open>xo_open_container("a")\<close> and
  \<open>xo_destroy(NULL)\<close> the inited flag is 0, but the depth is still 1, the stack size
  512, the buffer size 8192 and the write callback set; the next use initialises the
  handle again and the depth is still 1.
\<close>

theorem xo_destroy_default_keeps_fields:
  "(case xo_open_container (\<lambda>n. True) None (\<lambda>i. xo_zero_frame) ''a'' xo_globals_start of
      None \<Rightarrow> None
    | Some (rc, g) \<Rightarrow>
        (let g' = xo_destroy 8 None (\<lambda>i. xo_zero_frame) None g
         in Some (xo_default_inited g',
                  xo_depth (xo_default_handle g'),
                  xo_stack_size (xo_default_handle g'),
                  xb_size (xo_data (xo_default_handle g')),
                  xo_write (xo_default_handle g') = None,
                  xo_depth (fst (xo_default None (\<lambda>i. xo_zero_frame) None g')))))
   = Some (0, 1, 512, 8192, False, 1)"
proof -
  define h where "h = (xo_fresh XO_STYLE_TEXT {})
                 \<lparr>xo_stack := (xo_stack (xo_fresh XO_STYLE_TEXT {}))[1 := xo_zero_frame],
                  xo_depth := 1, xo_indent := 0\<rparr>"
  define g where "g = \<lparr>xo_default_handle = h, xo_default_inited = 1\<rparr>"
  define g' where "g' = \<lparr>xo_default_handle = xo_bzero 8 h, xo_default_inited = 0\<rparr>"
  have opened: "xo_open_container (\<lambda>n. True) None (\<lambda>i. xo_zero_frame) ''a'' xo_globals_start
                  = Some (0, g)"
    by (simp add: xo_open_container_def xo_default_start xo_fresh_text_open h_def g_def)
  have destroyed: "xo_destroy 8 None (\<lambda>i. xo_zero_frame) None g = g'"
    by (simp add: xo_destroy_def xo_default_def g_def g'_def h_def xo_fresh_fields)
  have kept: "xo_depth (xo_bzero 8 h) = 1" "xo_stack_size (xo_bzero 8 h) = 512"
    "xb_size (xo_data (xo_bzero 8 h)) = 8192" "xo_write (xo_bzero 8 h) = Some xo_write_to_file"
    by (simp_all add: xo_bzero_def h_def xo_fresh_fields)
  have again: "xo_depth (fst (xo_default None (\<lambda>i. xo_zero_frame) None g')) = 1"
    by (simp add: xo_default_def xo_default_init_def xo_init_handle_def g'_def kept)
  show ?thesis
    by (simp add: opened destroyed again) (simp add: g'_def kept)
qed

section \<open>Close calls at depth 0\<close>

lemma xo_printf_total:
  assumes "int (length (xb_data (xo_data xop))) < xb_size (xo_data xop)" and "xo_write xop \<noteq> None"
    and "int (length out) \<le> xb_size (xo_data xop)"
  shows "\<exists>rc x. xo_printf R xop out = Some (rc, x) \<and> xo_depth x = xo_depth xop
           \<and> xo_stack x = xo_stack xop \<and> xo_indent x = xo_indent xop
           \<and> xo_stderr x = xo_stderr xop \<and> xo_flags x = xo_flags xop \<and> xo_style x = xo_style xop"
  using assms
  by (auto simp: xo_printf_def Let_def)

lemma xo_pad_length: "int (length (xo_pad xop)) = xo_indent_f xop"
  by (simp add: xo_pad_def xo_indent_f_def)

lemma xo_depth_change_root:
  assumes "xo_depth xop = 0" and "delta < 0"
  shows "xo_depth_change R xop name delta indent flags
         = Some (if XOF_WARN \<in> xo_flags xop
                 then xop\<lparr>xo_stderr := xo_stderr xop @ [xo_empty_stack_warning name]\<rparr> else xop)"
  using assms by (simp add: xo_depth_change_def xo_warn_def xo_empty_stack_warning_def)

lemma xo_close_container_root:
  assumes "xo_depth xop = 0" and "xo_stack xop \<noteq> []"
    and "int (length (xb_data (xo_data xop))) < xb_size (xo_data xop)" and "xo_write xop \<noteq> None"
    and "xo_indent_f xop + int (length name) + 4 \<le> xb_size (xo_data xop)"
  shows "\<exists>rc x. xo_close_container_h R xop name = Some (rc, x) \<and> xo_root_close xop name x"
proof -
  define x1 where "x1 = (if XOF_WARN \<in> xo_flags xop
                 then xop\<lparr>xo_stderr := xo_stderr xop @ [xo_empty_stack_warning name]\<rparr> else xop)"
  have d: "\<And>i f. xo_depth_change R xop name (- 1) i f = Some x1"
    using assms(1) by (simp add: xo_depth_change_root x1_def)
  have p: "int (length (xb_data (xo_data x1))) < xb_size (xo_data x1)" "xo_write x1 \<noteq> None"
    using assms by (auto simp: x1_def)
  have i: "int (length (xo_pad x1)) + int (length name) + 4 \<le> xb_size (xo_data x1)"
    using assms(5) by (auto simp: x1_def xo_pad_length xo_indent_f_def)
  have x1: "xo_depth x1 = 0" "xo_stack x1 = xo_stack xop" "xo_indent x1 = xo_indent xop"
    "xo_stderr x1 = xo_stderr xop @ (if XOF_WARN \<in> xo_flags xop then [xo_empty_stack_warning name] else [])"
    using assms by (auto simp: x1_def)
  show ?thesis
  proof (cases "xo_style xop")
    case XO_STYLE_XML
    let ?out = "xo_pad x1 @ ''</'' @ name @ ''>'' @ (if XOF_PRETTY \<in> xo_flags xop then [NL] else [])"
    have "int (length ?out) \<le> xb_size (xo_data x1)" using i by simp
    from xo_printf_total[OF p this, of R] obtain rc x2 where
      pr: "xo_printf R x1 ?out = Some (rc, x2)" and
      x2: "xo_depth x2 = xo_depth x1" "xo_stack x2 = xo_stack x1" "xo_indent x2 = xo_indent x1"
          "xo_stderr x2 = xo_stderr x1"
      by blast
    have "xo_close_container_h R xop name = Some (rc, x2)"
      using XO_STYLE_XML pr by (auto simp: xo_close_container_h_def d)
    moreover have "xo_root_close xop name x2"
      using XO_STYLE_XML x1 x2 by (simp add: xo_root_close_def)
    ultimately show ?thesis by blast
  next
    case XO_STYLE_JSON
    let ?out = "(if XOF_PRETTY \<in> xo_flags xop then [NL] else [])
               @ xo_pad x1 @ ''}'' @ (if xo_depth xop \<le> 1 then [NL] else [])"
    have "int (length ?out) \<le> xb_size (xo_data x1)" using i by simp
    from xo_printf_total[OF p this, of R] obtain rc x2 where
      pr: "xo_printf R x1 ?out = Some (rc, x2)" and
      x2: "xo_depth x2 = xo_depth x1" "xo_stack x2 = xo_stack x1" "xo_indent x2 = xo_indent x1"
          "xo_stderr x2 = xo_stderr x1"
      by blast
    define x3 where "x3 = x2\<lparr>xo_stack := (xo_stack x2)
                  [nat (xo_depth x2) := (xo_stack x2 ! nat (xo_depth x2))
                     \<lparr>xs_flags := xs_flags (xo_stack x2 ! nat (xo_depth x2)) OR XSF_NOT_FIRST\<rparr>]\<rparr>"
    have s: "xo_set_not_first x2 = Some x3"
      using x1 x2 assms(2) by (simp add: xo_set_not_first_def xo_stack_top_def x3_def)
    have "xo_close_container_h R xop name = Some (rc, x3)"
      using XO_STYLE_JSON pr by (auto simp: xo_close_container_h_def d s)
    moreover have "xo_root_close xop name x3"
      using XO_STYLE_JSON x1 x2 by (simp add: xo_root_close_def x3_def)
    ultimately show ?thesis by blast
  next
    case XO_STYLE_TEXT
    with x1 show ?thesis by (simp add: xo_close_container_h_def d xo_root_close_def)
  next
    case XO_STYLE_HTML
    with x1 show ?thesis by (simp add: xo_close_container_h_def d xo_root_close_def)
  qed
qed

lemma xo_close_instance_root:
  assumes "xo_depth xop = 0" and "xo_stack xop \<noteq> []"
    and "int (length (xb_data (xo_data xop))) < xb_size (xo_data xop)" and "xo_write xop \<noteq> None"
    and "xo_indent_f xop + int (length name) + 4 \<le> xb_size (xo_data xop)"
  shows "\<exists>rc x. xo_close_instance_h R xop name = Some (rc, x) \<and> xo_root_close xop name x"
proof -
  define x1 where "x1 = (if XOF_WARN \<in> xo_flags xop
                 then xop\<lparr>xo_stderr := xo_stderr xop @ [xo_empty_stack_warning name]\<rparr> else xop)"
  have d: "\<And>i f. xo_depth_change R xop name (- 1) i f = Some x1"
    using assms(1) by (simp add: xo_depth_change_root x1_def)
  have p: "int (length (xb_data (xo_data x1))) < xb_size (xo_data x1)" "xo_write x1 \<noteq> None"
    using assms by (auto simp: x1_def)
  have i: "int (length (xo_pad x1)) + int (length name) + 4 \<le> xb_size (xo_data x1)"
    using assms(5) by (auto simp: x1_def xo_pad_length xo_indent_f_def)
  have x1: "xo_depth x1 = 0" "xo_stack x1 = xo_stack xop" "xo_indent x1 = xo_indent xop"
    "xo_stderr x1 = xo_stderr xop @ (if XOF_WARN \<in> xo_flags xop then [xo_empty_stack_warning name] else [])"
    using assms by (auto simp: x1_def)
  show ?thesis
  proof (cases "xo_style xop")
    case XO_STYLE_XML
    let ?out = "xo_pad x1 @ ''</'' @ name @ ''>'' @ (if XOF_PRETTY \<in> xo_flags xop then [NL] else [])"
    have "int (length ?out) \<le> xb_size (xo_data x1)" using i by simp
    from xo_printf_total[OF p this, of R] obtain rc x2 where
      pr: "xo_printf R x1 ?out = Some (rc, x2)" and
      x2: "xo_depth x2 = xo_depth x1" "xo_stack x2 = xo_stack x1" "xo_indent x2 = xo_indent x1"
          "xo_stderr x2 = xo_stderr x1"
      by blast
    have "xo_close_instance_h R xop name = Some (rc, x2)"
      using XO_STYLE_XML pr by (auto simp: xo_close_instance_h_def d)
    moreover have "xo_root_close xop name x2"
      using XO_STYLE_XML x1 x2 by (simp add: xo_root_close_def)
    ultimately show ?thesis by blast
  next
    case XO_STYLE_JSON
    let ?out = "(if XOF_PRETTY \<in> xo_flags xop then [NL] else [])
               @ xo_pad x1 @ ''}''"
    have "int (length ?out) \<le> xb_size (xo_data x1)" using i by simp
    from xo_printf_total[OF p this, of R] obtain rc x2 where
      pr: "xo_printf R x1 ?out = Some (rc, x2)" and
      x2: "xo_depth x2 = xo_depth x1" "xo_stack x2 = xo_stack x1" "xo_indent x2 = xo_indent x1"
          "xo_stderr x2 = xo_stderr x1"
      by blast
    define x3 where "x3 = x2\<lparr>xo_stack := (xo_stack x2)
                  [nat (xo_depth x2) := (xo_stack x2 ! nat (xo_depth x2))
                     \<lparr>xs_flags := xs_flags (xo_stack x2 ! nat (xo_depth x2)) OR XSF_NOT_FIRST\<rparr>]\<rparr>"
    have s: "xo_set_not_first x2 = Some x3"
      using x1 x2 assms(2) by (simp add: xo_set_not_first_def xo_stack_top_def x3_def)
    have "xo_close_instance_h R xop name = Some (rc, x3)"
      using XO_STYLE_JSON pr by (auto simp: xo_close_instance_h_def d s)
    moreover have "xo_root_close xop name x3"
      using XO_STYLE_JSON x1 x2 by (simp add: xo_root_close_def x3_def)
    ultimately show ?thesis by blast
  next
    case XO_STYLE_TEXT
    with x1 show ?thesis by (simp add: xo_close_instance_h_def d xo_root_close_def)
  next
    case XO_STYLE_HTML
    with x1 show ?thesis by (simp add: xo_close_instance_h_def d xo_root_close_def)
  qed
qed


lemma xo_close_list_root:
  assumes "xo_depth xop = 0" and "xo_stack xop \<noteq> []"
    and "int (length (xb_data (xo_data xop))) < xb_size (xo_data xop)" and "xo_write xop \<noteq> None"
    and "xo_indent_f xop + int (length name) + 4 \<le> xb_size (xo_data xop)"
    and "xo_style xop = XO_STYLE_JSON"
  shows "\<exists>rc x. xo_close_list_h R xop name = Some (rc, x) \<and> xo_root_close xop name x"
proof -
  define top where "top = xo_stack xop ! 0"
  define x0 where "x0 = xop\<lparr>xo_stack := (xo_stack xop)
                  [0 := top\<lparr>xs_flags := xs_flags top OR XSF_NOT_FIRST\<rparr>]\<rparr>"
  have t: "xo_stack_top xop = Some top"
    using assms(1,2) by (simp add: xo_stack_top_def top_def)
  have s0: "xo_set_not_first xop = Some x0"
    using assms(1) by (simp add: xo_set_not_first_def t x0_def)
  define x1 where "x1 = (if XOF_WARN \<in> xo_flags x0
                 then x0\<lparr>xo_stderr := xo_stderr x0 @ [xo_empty_stack_warning name]\<rparr> else x0)"
  have d: "\<And>i f. xo_depth_change R x0 name (- 1) i f = Some x1"
    using assms(1) by (simp add: xo_depth_change_root x1_def x0_def)
  have p: "int (length (xb_data (xo_data x1))) < xb_size (xo_data x1)" "xo_write x1 \<noteq> None"
    using assms by (auto simp: x1_def x0_def)
  have i: "int (length (xo_pad x1)) + int (length name) + 4 \<le> xb_size (xo_data x1)"
    using assms(5) by (auto simp: x1_def x0_def xo_pad_length xo_indent_f_def)
  have x1: "xo_depth x1 = 0" "xo_stack x1 = xo_stack x0" "xo_indent x1 = xo_indent xop"
    "xo_stderr x1 = xo_stderr xop @ (if XOF_WARN \<in> xo_flags xop then [xo_empty_stack_warning name] else [])"
    using assms by (auto simp: x1_def x0_def)
  let ?out = "(if xo_not_first top then (if XOF_PRETTY \<in> xo_flags xop then [NL] else []) else [])
               @ xo_pad x1 @ '']''"
  have "int (length ?out) \<le> xb_size (xo_data x1)" using i by simp
  from xo_printf_total[OF p this, of R] obtain rc x2 where
    pr: "xo_printf R x1 ?out = Some (rc, x2)" and
    x2: "xo_depth x2 = xo_depth x1" "xo_stack x2 = xo_stack x1" "xo_indent x2 = xo_indent x1"
        "xo_stderr x2 = xo_stderr x1"
    by blast
  define x3 where "x3 = x2\<lparr>xo_stack := (xo_stack x2)
                [nat (xo_depth x2) := (xo_stack x2 ! nat (xo_depth x2))
                   \<lparr>xs_flags := xs_flags (xo_stack x2 ! nat (xo_depth x2)) OR XSF_NOT_FIRST\<rparr>]\<rparr>"
  have s: "xo_set_not_first x2 = Some x3"
    using x1 x2 assms(2) by (simp add: xo_set_not_first_def xo_stack_top_def x3_def x0_def)
  have "xo_close_list_h R xop name = Some (0, x3)"
    using assms(6) pr by (auto simp: xo_close_list_h_def t s0 d s)
  moreover have "xo_root_close xop name x3"
    using assms(2,6) x1 x2 by (simp add: xo_root_close_def x3_def x0_def top_def)
  ultimately show ?thesis by blast
qed

text \<open>
  C3, as amended. At depth 0, on a handle with its stack, data buffer and write
  callback, and with a name whose closing text (the indentation, the name and up to four
  more bytes) fits the data buffer, so that \<open>xo_printf\<close> does not have to grow it:
  \<open>close_container\<close> and \<open>close_instance\<close> in every style and \<open>close_list\<close>
  in JSON style return, print exactly one warning when \<open>XOF_WARN\<close> is set and none
  otherwise, and leave the depth, the indent and the frames as they are, but for the
  NotFirst flag of frame 0 in JSON style. \<open>close_list\<close> in any other style does
  nothing at all.
\<close>

theorem xo_close_at_depth_zero:
  assumes "xo_depth xop = 0" and "xo_stack xop \<noteq> []"
    and "int (length (xb_data (xo_data xop))) < xb_size (xo_data xop)" and "xo_write xop \<noteq> None"
    and "xo_indent_f xop + int (length name) + 4 \<le> xb_size (xo_data xop)"
  shows "(\<exists>rc x. xo_close_container_h R xop name = Some (rc, x) \<and> xo_root_close xop name x)
       \<and> (\<exists>rc x. xo_close_instance_h R xop name = Some (rc, x) \<and> xo_root_close xop name x)
       \<and> (if xo_style xop = XO_STYLE_JSON
          then (\<exists>rc x. xo_close_list_h R xop name = Some (rc, x) \<and> xo_root_close xop name x)
          else xo_close_list_h R xop name = Some (0, xop))"
proof (intro conjI)
  show "\<exists>rc x. xo_close_container_h R xop name = Some (rc, x) \<and> xo_root_close xop name x"
    using assms by (rule xo_close_container_root)
  show "\<exists>rc x. xo_close_instance_h R xop name = Some (rc, x) \<and> xo_root_close xop name x"
    using assms by (rule xo_close_instance_root)
  show "if xo_style xop = XO_STYLE_JSON
        then (\<exists>rc x. xo_close_list_h R xop name = Some (rc, x) \<and> xo_root_close xop name x)
        else xo_close_list_h R xop name = Some (0, xop)"
  proof (cases "xo_style xop = XO_STYLE_JSON")
    case True
    with xo_close_list_root[OF assms True] show ?thesis by simp
  next
    case False
    then show ?thesis by (cases "xo_style xop") (simp_all add: xo_close_list_h_def)
  qed
qed

theorem xo_close_at_depth_zero_witness:
  "xo_depth (xo_fresh XO_STYLE_JSON {XOF_WARN}) = 0
   \<and> xo_stack (xo_fresh XO_STYLE_JSON {XOF_WARN}) \<noteq> []
   \<and> int (length (xb_data (xo_data (xo_fresh XO_STYLE_JSON {XOF_WARN}))))
       < xb_size (xo_data (xo_fresh XO_STYLE_JSON {XOF_WARN}))
   \<and> xo_write (xo_fresh XO_STYLE_JSON {XOF_WARN}) \<noteq> None
   \<and> xo_indent_f (xo_fresh XO_STYLE_JSON {XOF_WARN}) + int (length ''top'') + 4
       \<le> xb_size (xo_data (xo_fresh XO_STYLE_JSON {XOF_WARN}))
   \<and> (\<exists>rc x. xo_close_container_h (\<lambda>n. True) (xo_fresh XO_STYLE_JSON {XOF_WARN}) ''top'' = Some (rc, x)
         \<and> xo_root_close (xo_fresh XO_STYLE_JSON {XOF_WARN}) ''top'' x)
   \<and> (\<exists>rc x. xo_close_instance_h (\<lambda>n. True) (xo_fresh XO_STYLE_JSON {XOF_WARN}) ''top'' = Some (rc, x)
         \<and> xo_root_close (xo_fresh XO_STYLE_JSON {XOF_WARN}) ''top'' x)
   \<and> (\<exists>rc x. xo_close_list_h (\<lambda>n. True) (xo_fresh XO_STYLE_JSON {XOF_WARN}) ''top'' = Some (rc, x)
         \<and> xo_root_close (xo_fresh XO_STYLE_JSON {XOF_WARN}) ''top'' x)"
proof -
  have h: "xo_depth (xo_fresh XO_STYLE_JSON {XOF_WARN}) = 0"
    "xo_stack (xo_fresh XO_STYLE_JSON {XOF_WARN}) \<noteq> []"
    "int (length (xb_data (xo_data (xo_fresh XO_STYLE_JSON {XOF_WARN}))))
       < xb_size (xo_data (xo_fresh XO_STYLE_JSON {XOF_WARN}))"
    "xo_write (xo_fresh XO_STYLE_JSON {XOF_WARN}) \<noteq> None"
    "xo_indent_f (xo_fresh XO_STYLE_JSON {XOF_WARN}) + int (length ''top'') + 4
       \<le> xb_size (xo_data (xo_fresh XO_STYLE_JSON {XOF_WARN}))"
    by (simp_all add: xo_fresh_fields xo_fresh_stack_nonempty xo_indent_f_def)
  from xo_close_at_depth_zero[OF h, of "\<lambda>n. True"] h show ?thesis
    by (simp add: xo_fresh_fields)
qed

text \<open>
  The claim as stated fails for \<open>close_list\<close> outside JSON: with \<open>XOF_WARN\<close> set, at
  depth 0, the XML handle is returned as it was and no warning is printed.
\<close>

theorem xo_close_list_xml_counterexample:
  "xo_depth (xo_fresh XO_STYLE_XML {XOF_WARN}) = 0
   \<and> XOF_WARN \<in> xo_flags (xo_fresh XO_STYLE_XML {XOF_WARN})
   \<and> xo_close_list_h (\<lambda>n. True) (xo_fresh XO_STYLE_XML {XOF_WARN}) ''top''
       = Some (0, xo_fresh XO_STYLE_XML {XOF_WARN})
   \<and> xo_stderr (xo_fresh XO_STYLE_XML {XOF_WARN}) = []"
  by (simp add: xo_close_list_h_def xo_fresh_fields)

section \<open>Initialisation and the environment\<close>

lemma xo_cstr_Cons:
  "xo_cstr (c # e) = (if c = NUL then [] else c # xo_cstr e)"
  by (simp add: xo_cstr_def)

lemma xo_cstr_digits:
  "k \<le> length (takeWhile xo_isdigit e) \<Longrightarrow> xo_cstr e = take k e @ xo_cstr (drop k e)"
proof (induction e arbitrary: k)
  case Nil
  then show ?case by (simp add: xo_cstr_def)
next
  case (Cons c e)
  show ?case
  proof (cases k)
    case 0
    then show ?thesis by simp
  next
    case (Suc j)
    with Cons.prems have d: "xo_isdigit c" and j: "j \<le> length (takeWhile xo_isdigit e)"
      by (auto split: if_splits)
    from d have "c \<noteq> NUL" by (auto simp: xo_isdigit_def)
    with Cons.IH[OF j] Suc show ?thesis by (simp add: xo_cstr_Cons)
  qed
qed

lemma xo_take_digits:
  "k \<le> length (takeWhile xo_isdigit e) \<Longrightarrow> \<forall>c \<in> set (take k e). xo_isdigit c"
proof (induction e arbitrary: k)
  case Nil
  then show ?case by simp
next
  case (Cons c e)
  then show ?case by (cases k) (auto split: if_splits)
qed

lemma xo_style_letter_digits:
  "\<forall>c \<in> set ds. xo_isdigit c \<Longrightarrow> fold xo_style_letter ds s = s"
  by (induction ds arbitrary: s) (auto simp: xo_style_letter_def xo_isdigit_def)

lemma xo_options_style_spec_drop:
  assumes "k \<le> length (takeWhile xo_isdigit e)"
  shows "xo_options_style_spec (drop k e) s = xo_options_style_spec e s"
  using xo_cstr_digits[OF assms] xo_style_letter_digits[OF xo_take_digits[OF assms]]
  by (simp add: xo_options_style_spec_def)

lemma xo_options_flags_spec_drop:
  assumes "k \<le> length (takeWhile xo_isdigit e)"
  shows "xo_options_flags_spec (drop k e) = xo_options_flags_spec e"
proof -
  have "\<And>c. \<not> xo_isdigit c \<Longrightarrow> c \<in> set (xo_cstr e) \<longleftrightarrow> c \<in> set (xo_cstr (drop k e))"
    using xo_cstr_digits[OF assms] xo_take_digits[OF assms] by auto
  then show ?thesis
    by (simp add: xo_options_flags_spec_def xo_isdigit_def)
qed

lemma xo_options_spec:
  "xo_style (xo_options e xop) = xo_options_style_spec e (xo_style xop)
   \<and> xo_flags (xo_options e xop) = xo_flags xop \<union> xo_options_flags_spec e"
proof (induction e xop rule: xo_options.induct)
  case (1 xop)
  then show ?case by (simp add: xo_options_style_spec_def xo_options_flags_spec_def xo_cstr_def)
next
  case (2 c env xop)
  have st: "xo_options_style_spec (c # env) s
            = (if c = NUL then s else xo_options_style_spec env (xo_style_letter c s))" for s
    by (simp add: xo_options_style_spec_def xo_cstr_Cons)
  have fl: "xo_options_flags_spec (c # env)
            = (if c = NUL then {} else
               (if c = CHR ''P'' then {XOF_PRETTY} else {}) \<union> (if c = CHR ''W'' then {XOF_WARN} else {})
               \<union> (if c = CHR ''I'' then {XOF_INFO} else {}) \<union> (if c = CHR ''x'' then {XOF_XPATH} else {})
               \<union> xo_options_flags_spec env)"
    by (auto simp: xo_options_flags_spec_def xo_cstr_Cons)
  show ?case
  proof (cases "c = CHR ''i''")
    case True
    define sz where "sz = length (takeWhile xo_isdigit env)"
    define j where "j = sz - 1"
    have k: "j \<le> length (takeWhile xo_isdigit env)" by (simp add: sz_def j_def)
    have nn: "c \<noteq> NUL" using True by simp
    have l: "xo_style_letter c s = s" for s using True by (simp add: xo_style_letter_def)
    have e3: "xo_options_style_spec (c # env) s = xo_options_style_spec env s" for s
      unfolding st using nn l by simp
    have e4: "xo_options_flags_spec (c # env) = xo_options_flags_spec env"
      unfolding fl using True by simp
    have e1: "xo_options_style_spec (c # env) s = xo_options_style_spec (drop j env) s" for s
      unfolding e3 by (rule xo_options_style_spec_drop[OF k, symmetric])
    have e2: "xo_options_flags_spec (c # env) = xo_options_flags_spec (drop j env)"
      unfolding e4 by (rule xo_options_flags_spec_drop[OF k, symmetric])
    show ?thesis
    proof (cases "sz > 0")
      case pos: True
      have u: "xo_options (c # env) xop
               = xo_options (drop j env) (xop\<lparr>xo_indent_by := word_of_int (xo_atoi env)\<rparr>)"
        using True pos by (simp add: Let_def sz_def j_def)
      from "2.IH"(3)[OF nn _ _ True sz_def pos] True
      have "xo_style (xo_options (drop j env) (xop\<lparr>xo_indent_by := word_of_int (xo_atoi env)\<rparr>))
              = xo_options_style_spec (drop j env) (xo_style xop)
            \<and> xo_flags (xo_options (drop j env) (xop\<lparr>xo_indent_by := word_of_int (xo_atoi env)\<rparr>))
              = xo_flags xop \<union> xo_options_flags_spec (drop j env)"
        by (simp add: j_def)
      then show ?thesis unfolding u e1 e2 .
    next
      case zero: False
      have u: "xo_options (c # env) xop = xo_options env xop"
        using True zero by (simp add: Let_def sz_def)
      from "2.IH"(4)[OF nn _ _ True sz_def zero] True
      have "xo_style (xo_options env xop) = xo_options_style_spec env (xo_style xop)
            \<and> xo_flags (xo_options env xop) = xo_flags xop \<union> xo_options_flags_spec env"
        by simp
      then show ?thesis unfolding u e3 e4 .
    qed
  next
    case False
    with "2.IH" show ?thesis
      by (auto simp: st fl xo_style_letter_def)
  qed
qed


lemma xo_init_handle_spec:
  "xo_style (xo_init_handle env stk xop) = xo_options_style_spec (xo_str env) (xo_style xop)
   \<and> xo_flags (xo_init_handle env stk xop) = xo_flags xop \<union> xo_options_flags_spec (xo_str env)"
proof (cases env)
  case None
  then show ?thesis
    by (simp add: xo_init_handle_def xo_str_def xo_options_style_spec_def
        xo_options_flags_spec_def xo_cstr_def)
next
  case (Some e)
  then show ?thesis
    by (simp add: xo_init_handle_def xo_str_def xo_options_spec)
qed

text \<open>
  C8, as amended. \<open>xo_init_handle\<close> applies the option characters of
  \<open>LIBXO_OPTIONS\<close> to every handle it initialises. A handle that \<open>xo_create\<close> returns
  has the style that the last style letter of the variable selects, the style argument
  when there is none, and the flags of the argument together with those the variable
  switches on; with the variable unset it has exactly the style and the flags passed.
  The default handle gets the same treatment at its lazy initialisation, starting from
  the text style and no flags.
\<close>

theorem xo_create_applies_options:
  "(xo_create R env stk mem style flags = Some h \<longrightarrow>
      xo_style h = xo_options_style_spec (xo_str env) style
      \<and> xo_flags h = flags \<union> xo_options_flags_spec (xo_str env))
   \<and> (xo_create R None stk mem style flags = Some h \<longrightarrow> xo_style h = style \<and> xo_flags h = flags)
   \<and> xo_style (fst (xo_default env stk None xo_globals_start))
       = xo_options_style_spec (xo_str env) XO_STYLE_TEXT
   \<and> xo_flags (fst (xo_default env stk None xo_globals_start))
       = xo_options_flags_spec (xo_str env)"
proof -
  have a: "xo_create R e stk mem style flags = Some h \<Longrightarrow>
      xo_style h = xo_options_style_spec (xo_str e) style
      \<and> xo_flags h = flags \<union> xo_options_flags_spec (xo_str e)" for e
    using xo_init_handle_spec[of e stk "mem\<lparr>xo_style := style, xo_flags := flags\<rparr>"]
    by (auto simp: xo_create_def split: if_splits)
  have b: "xo_options_style_spec (xo_str None) style = style"
    "xo_options_flags_spec (xo_str None) = {}"
    by (simp_all add: xo_str_def xo_options_style_spec_def xo_options_flags_spec_def xo_cstr_def)
  have c: "fst (xo_default env stk None xo_globals_start) = xo_init_handle env stk xo_zero_handle"
    by (simp add: xo_default_def xo_default_init_def xo_globals_start_def)
  have d: "xo_style xo_zero_handle = XO_STYLE_TEXT" "xo_flags xo_zero_handle = {}"
    by (simp_all add: xo_zero_handle_def)
  show ?thesis
    using a[of env] a[of None] b xo_init_handle_spec[of env stk xo_zero_handle]
    by (simp add: c d)
qed

theorem xo_create_applies_options_witness:
  "xo_create (\<lambda>n. True) (Some ''JPi4'') (\<lambda>i. xo_zero_frame) xo_zero_handle XO_STYLE_XML {XOF_WARN}
     = Some (xo_init_handle (Some ''JPi4'') (\<lambda>i. xo_zero_frame)
               (xo_zero_handle\<lparr>xo_style := XO_STYLE_XML, xo_flags := {XOF_WARN}\<rparr>))
   \<and> xo_style (xo_init_handle (Some ''JPi4'') (\<lambda>i. xo_zero_frame)
               (xo_zero_handle\<lparr>xo_style := XO_STYLE_XML, xo_flags := {XOF_WARN}\<rparr>)) = XO_STYLE_JSON
   \<and> xo_flags (xo_init_handle (Some ''JPi4'') (\<lambda>i. xo_zero_frame)
               (xo_zero_handle\<lparr>xo_style := XO_STYLE_XML, xo_flags := {XOF_WARN}\<rparr>))
       = {XOF_WARN, XOF_PRETTY}
   \<and> xo_create (\<lambda>n. True) None (\<lambda>i. xo_zero_frame) xo_zero_handle XO_STYLE_XML {XOF_WARN}
     = Some (xo_fresh XO_STYLE_XML {XOF_WARN})
   \<and> xo_style (xo_fresh XO_STYLE_XML {XOF_WARN}) = XO_STYLE_XML
   \<and> xo_flags (xo_fresh XO_STYLE_XML {XOF_WARN}) = {XOF_WARN}"
proof -
  let ?h = "xo_init_handle (Some ''JPi4'') (\<lambda>i. xo_zero_frame)
               (xo_zero_handle\<lparr>xo_style := XO_STYLE_XML, xo_flags := {XOF_WARN}\<rparr>)"
  have c: "xo_create (\<lambda>n. True) (Some ''JPi4'') (\<lambda>i. xo_zero_frame) xo_zero_handle
             XO_STYLE_XML {XOF_WARN} = Some ?h"
    by (simp add: xo_create_def)
  have s: "xo_options_style_spec (xo_str (Some ''JPi4'')) XO_STYLE_XML = XO_STYLE_JSON"
    "{XOF_WARN} \<union> xo_options_flags_spec (xo_str (Some ''JPi4'')) = {XOF_WARN, XOF_PRETTY}"
    by (auto simp: xo_str_def xo_options_style_spec_def xo_options_flags_spec_def xo_cstr_def
        xo_style_letter_def)
  from xo_create_applies_options[of "\<lambda>n. True" "Some ''JPi4''" "\<lambda>i. xo_zero_frame" xo_zero_handle
      XO_STYLE_XML "{XOF_WARN}" ?h] c
  have "xo_style ?h = xo_options_style_spec (xo_str (Some ''JPi4'')) XO_STYLE_XML
        \<and> xo_flags ?h = {XOF_WARN} \<union> xo_options_flags_spec (xo_str (Some ''JPi4''))"
    by blast
  moreover
  from xo_create_applies_options[of "\<lambda>n. True" None "\<lambda>i. xo_zero_frame" xo_zero_handle
      XO_STYLE_XML "{XOF_WARN}" "xo_fresh XO_STYLE_XML {XOF_WARN}"]
      xo_create_fresh[of XO_STYLE_XML "{XOF_WARN}"]
  have "xo_style (xo_fresh XO_STYLE_XML {XOF_WARN}) = XO_STYLE_XML
        \<and> xo_flags (xo_fresh XO_STYLE_XML {XOF_WARN}) = {XOF_WARN}"
    by blast
  ultimately show ?thesis using c s by (simp add: xo_create_fresh)
qed

text \<open>
  The claim as stated fails when the variable is set: \<open>xo_create(XO_STYLE_XML, 0)\<close>
  under \<open>LIBXO_OPTIONS=JP\<close> returns a JSON handle with \<open>XOF_PRETTY\<close>.
\<close>

theorem xo_create_env_counterexample:
  "map_option (\<lambda>h. (xo_style h, xo_flags h))
     (xo_create (\<lambda>n. True) (Some ''JP'') (\<lambda>i. xo_zero_frame) xo_zero_handle XO_STYLE_XML {})
   = Some (XO_STYLE_JSON, {XOF_PRETTY})"
  by (simp add: xo_create_def xo_init_handle_def)

section \<open>Quoting of JSON values\<close>

lemma xo_indent_f_nonneg: "0 \<le> xo_indent_f xop"
  by (simp add: xo_indent_f_def)

lemma xo_fmt_append_room:
  "int (length (xb_data (xo_fmt xop))) + int (length s) < xb_size (xo_fmt xop) \<Longrightarrow>
   xo_fmt_append R xop s = Some (xop\<lparr>xo_fmt := (xo_fmt xop)\<lparr>xb_data := xb_data (xo_fmt xop) @ s\<rparr>\<rparr>)"
  by (simp add: xo_fmt_append_def xo_buf_append_def xo_buf_has_room_def)

lemma xo_format_prep_room:
  assumes "0 \<le> xo_depth xop" "xo_depth xop < int (length (xo_stack xop))"
    and "int (length (xb_data (xo_fmt xop))) + 2 < xb_size (xo_fmt xop)"
  shows "\<exists>x. xo_format_prep R xop = Some x
           \<and> xo_flags x = xo_flags xop \<and> xo_indent x = xo_indent xop
           \<and> xo_indent_by x = xo_indent_by xop \<and> xb_size (xo_fmt x) = xb_size (xo_fmt xop)
           \<and> xb_data (xo_fmt x) = xb_data (xo_fmt xop) @
               (if xo_not_first (xo_stack xop ! nat (xo_depth xop))
                then '','' @ (if XOF_PRETTY \<in> xo_flags xop then [NL] else []) else [])"
  using assms
  by (auto simp: xo_format_prep_def xo_stack_top_def xo_fmt_append_room xo_set_not_first_def)

text \<open>
  C2. In JSON style, with a valid current frame and room in the work buffer,
  \<open>xo_format_value\<close> returns and appends, after the separator, the name and the chosen
  format (the encode-fmt when present, else the print-fmt); the format stands between
  double quotes exactly when \<open>Q\<close> is set, or \<open>N\<close> is clear and the format ends in \<open>s\<close>.
\<close>

theorem xo_format_value_json_quote:
  assumes "xo_style xop = XO_STYLE_JSON"
    and "0 \<le> xo_depth xop" and "xo_depth xop < int (length (xo_stack xop))"
    and "f = (case encoding of Some e \<Rightarrow> e | None \<Rightarrow> format)" and "f \<noteq> []"
    and "int (length (xb_data (xo_fmt xop))) + xo_indent_f xop + int (length (xo_str name))
           + int (length f) + 8 < xb_size (xo_fmt xop)"
  shows "\<exists>x. xo_format_value R xop name format encoding flags = Some x
           \<and> xb_data (xo_fmt x) =
               xb_data (xo_fmt xop)
               @ (if xo_not_first (xo_stack xop ! nat (xo_depth xop))
                  then '','' @ (if XOF_PRETTY \<in> xo_flags xop then [NL] else []) else [])
               @ xo_json_value_spec xop (xo_str name) f flags"
proof -
  have n: "0 \<le> xo_indent_f xop" by (rule xo_indent_f_nonneg)
  from assms(6) n have r: "int (length (xb_data (xo_fmt xop))) + 2 < xb_size (xo_fmt xop)"
    by simp
  from xo_format_prep_room[OF assms(2,3) r, of R] obtain x0 where
    p: "xo_format_prep R xop = Some x0" and
    x0: "xo_flags x0 = xo_flags xop" "xo_indent x0 = xo_indent xop"
        "xo_indent_by x0 = xo_indent_by xop" "xb_size (xo_fmt x0) = xb_size (xo_fmt xop)"
        "xb_data (xo_fmt x0) = xb_data (xo_fmt xop) @
               (if xo_not_first (xo_stack xop ! nat (xo_depth xop))
                then '','' @ (if XOF_PRETTY \<in> xo_flags xop then [NL] else []) else [])"
    by blast
  have i: "xo_indent_f x0 = xo_indent_f xop"
    by (simp add: xo_indent_f_def x0)
  have q: "xo_quote f flags = Some (xo_quoted_spec flags f)"
    using assms(5) by (simp add: xo_quote_def xo_quoted_spec_def)
  have l: "int (length (xb_data (xo_fmt x0))) \<le> int (length (xb_data (xo_fmt xop))) + 2"
    by (simp add: x0)
  have fv: "(case encoding of Some e \<Rightarrow> e | None \<Rightarrow> format) = f"
    using assms(4) by simp
  show ?thesis
    using assms(1,6) n l
    by (simp add: xo_format_value_def fv p q xo_buf_indent_def i xo_fmt_append_room x0(1,4)
        xo_json_value_spec_def Let_def)
       (simp add: x0(5))
qed


theorem xo_format_value_json_quote_witness:
  "xo_style (xo_fresh XO_STYLE_JSON {}) = XO_STYLE_JSON
   \<and> 0 \<le> xo_depth (xo_fresh XO_STYLE_JSON {})
   \<and> xo_depth (xo_fresh XO_STYLE_JSON {}) < int (length (xo_stack (xo_fresh XO_STYLE_JSON {})))
   \<and> ''%d'' = (case None of Some e \<Rightarrow> e | None \<Rightarrow> ''%d'') \<and> ''%d'' \<noteq> []
   \<and> int (length (xb_data (xo_fmt (xo_fresh XO_STYLE_JSON {})))) + xo_indent_f (xo_fresh XO_STYLE_JSON {})
         + int (length (xo_str (Some ''k''))) + int (length ''%d'') + 8
       < xb_size (xo_fmt (xo_fresh XO_STYLE_JSON {}))
   \<and> (\<exists>x. xo_format_value (\<lambda>n. True) (xo_fresh XO_STYLE_JSON {}) (Some ''k'') ''%d'' None XFF_QUOTE = Some x
          \<and> xb_data (xo_fmt x) = [DQ] @ ''k'' @ [DQ] @ '':'' @ [DQ] @ ''%d'' @ [DQ])
   \<and> (\<exists>x. xo_format_value (\<lambda>n. True) (xo_fresh XO_STYLE_JSON {}) (Some ''k'') ''%d'' None 0 = Some x
          \<and> xb_data (xo_fmt x) = [DQ] @ ''k'' @ [DQ] @ '':'' @ ''%d'')"
proof -
  have h: "xo_style (xo_fresh XO_STYLE_JSON {}) = XO_STYLE_JSON"
    "0 \<le> xo_depth (xo_fresh XO_STYLE_JSON {})"
    "xo_depth (xo_fresh XO_STYLE_JSON {}) < int (length (xo_stack (xo_fresh XO_STYLE_JSON {})))"
    "''%d'' = (case None of Some e \<Rightarrow> e | None \<Rightarrow> ''%d'')" "''%d'' \<noteq> []"
    "int (length (xb_data (xo_fmt (xo_fresh XO_STYLE_JSON {})))) + xo_indent_f (xo_fresh XO_STYLE_JSON {})
         + int (length (xo_str (Some ''k''))) + int (length ''%d'') + 8
       < xb_size (xo_fmt (xo_fresh XO_STYLE_JSON {}))"
    by (simp_all add: xo_fresh_fields xo_indent_f_def xo_str_def)
  have s: "\<not> xo_not_first (xo_stack (xo_fresh XO_STYLE_JSON {}) ! nat (xo_depth (xo_fresh XO_STYLE_JSON {})))"
    "xo_json_value_spec (xo_fresh XO_STYLE_JSON {}) (xo_str (Some ''k'')) ''%d'' XFF_QUOTE
       = [DQ] @ ''k'' @ [DQ] @ '':'' @ [DQ] @ ''%d'' @ [DQ]"
    "xo_json_value_spec (xo_fresh XO_STYLE_JSON {}) (xo_str (Some ''k'')) ''%d'' 0
       = [DQ] @ ''k'' @ [DQ] @ '':'' @ ''%d''"
    by (simp_all add: xo_fresh_fields xo_fresh_frame xo_not_first_def xo_zero_frame_def
        xo_json_value_spec_def xo_quoted_spec_def xo_str_def XFF_QUOTE_def XFF_NOQUOTE_def)
  from xo_format_value_json_quote[OF h, of "\<lambda>n. True" XFF_QUOTE]
       xo_format_value_json_quote[OF h, of "\<lambda>n. True" 0] h s
  show ?thesis by (simp add: xo_fresh_fields)
qed

section \<open>Return values\<close>

lemma xo_printf_exact:
  "xo_printf R xop out = Some (rc, x) \<Longrightarrow>
   xo_sink_return R xop (Some out) rc x \<and> xo_write x = xo_write xop
   \<and> xo_flags x = xo_flags xop \<and> xo_depth x = xo_depth xop \<and> xo_stack x = xo_stack xop"
  by (auto simp: xo_printf_def Let_def xo_sink_return_def xo_stored_def xo_buf_has_room_def
      split: if_splits option.splits)

lemma xo_sink_return_cong:
  "xo_same_sink a b \<Longrightarrow> xo_opaque y = xo_opaque x \<Longrightarrow>
   xo_sink_return R b t rc x \<Longrightarrow> xo_sink_return R a t rc y"
  by (auto simp: xo_sink_return_def xo_same_sink_def xo_stored_def split: option.splits if_splits)

lemma xo_depth_change_same_sink:
  "xo_depth_change R xop name delta indent flags = Some x \<Longrightarrow>
   xo_same_sink xop x \<and> xo_flags x = xo_flags xop \<and> xo_indent_by x = xo_indent_by xop"
  by (auto simp: xo_depth_change_def Let_def xo_warn_def xo_pop_warnings_def xo_same_sink_def
      split: if_splits option.splits)

lemma xo_depth_change_pop_pad:
  "xo_depth_change R xop name (- 1) (- 1) flags = Some x \<Longrightarrow> xo_pad x = xo_pad (xo_popped xop)"
  by (auto simp: xo_depth_change_def Let_def xo_warn_def xo_pop_warnings_def xo_pad_def
      xo_indent_f_def xo_popped_def split: if_splits option.splits)

lemma xo_set_not_first_same_sink:
  "xo_set_not_first xop = Some x \<Longrightarrow>
   xo_same_sink xop x \<and> xo_pad x = xo_pad xop \<and> xo_flags x = xo_flags xop"
  by (auto simp: xo_set_not_first_def xo_same_sink_def xo_pad_def xo_indent_f_def
      split: option.splits)

lemma xo_stack_top_Some:
  "xo_stack_top xop = Some xsp \<Longrightarrow> xsp = xo_stack xop ! nat (xo_depth xop)"
  by (auto simp: xo_stack_top_def split: if_splits)

lemma xo_sink_return_step:
  "xo_sink_return R b t rc x1 \<Longrightarrow> xo_same_sink a b \<Longrightarrow> xo_opaque x = xo_opaque x1 \<Longrightarrow>
   xo_sink_return R a t rc x"
  by (auto simp: xo_sink_return_def xo_same_sink_def xo_stored_def split: option.splits if_splits)

lemma xo_same_sink_refl: "xo_same_sink a a"
  by (simp add: xo_same_sink_def)

lemma xo_open_container_exact:
  assumes "xo_open_container_h R xop name = Some (rc, x)"
  shows "xo_sink_return R xop (xo_open_container_text xop name) rc x"
proof (cases "xo_style xop")
  case XO_STYLE_XML
  from assms XO_STYLE_XML obtain x1 where
    p: "xo_printf R xop (xo_pad xop @ ''<'' @ name @ ''>'' @ xo_ppn xop) = Some (rc, x1)"
    and d: "xo_depth_change R x1 name 1 1 0 = Some x"
    by (auto simp: xo_open_container_h_def Let_def bind_eq_Some_conv xo_ppn_def)
  from xo_printf_exact[OF p] xo_depth_change_same_sink[OF d] XO_STYLE_XML show ?thesis
    by (auto simp: xo_open_container_text_def xo_same_sink_def
        intro: xo_sink_return_step[OF _ xo_same_sink_refl])
next
  case XO_STYLE_JSON
  from assms XO_STYLE_JSON obtain xsp x0 x1 where
    t: "xo_stack_top xop = Some xsp" and s: "xo_set_not_first xop = Some x0"
    and p: "xo_printf R x0
              ((if xo_not_first xsp
                then (if XOF_PRETTY \<in> xo_flags xop then [CHR '','', NL] else '', '') else [])
               @ xo_pad x0 @ [DQ] @ name @ [DQ] @ '': {'' @ xo_ppn xop) = Some (rc, x1)"
    and d: "xo_depth_change R x1 name 1 1 0 = Some x"
    by (auto simp: xo_open_container_h_def Let_def bind_eq_Some_conv xo_ppn_def)
  have e: "(if xo_not_first xsp
            then (if XOF_PRETTY \<in> xo_flags xop then [CHR '','', NL] else '', '') else [])
           = xo_sep xop" "xo_pad x0 = xo_pad xop"
    using xo_stack_top_Some[OF t] xo_set_not_first_same_sink[OF s] by (simp_all add: xo_sep_def)
  from xo_printf_exact[OF p] xo_depth_change_same_sink[OF d] xo_set_not_first_same_sink[OF s]
    XO_STYLE_JSON show ?thesis
    unfolding e
    by (auto simp: xo_open_container_text_def xo_same_sink_def[of x1]
        intro: xo_sink_return_step)
next
  case XO_STYLE_TEXT
  with assms show ?thesis
    by (auto simp: xo_open_container_h_def Let_def bind_eq_Some_conv xo_open_container_text_def
        xo_sink_return_def xo_same_sink_def dest!: xo_depth_change_same_sink)
next
  case XO_STYLE_HTML
  with assms show ?thesis
    by (auto simp: xo_open_container_h_def Let_def bind_eq_Some_conv xo_open_container_text_def
        xo_sink_return_def xo_same_sink_def dest!: xo_depth_change_same_sink)
qed

lemma xo_close_container_exact:
  assumes "xo_close_container_h R xop name = Some (rc, x)"
  shows "xo_sink_return R xop (xo_close_container_text xop name) rc x"
proof (cases "xo_style xop")
  case XO_STYLE_XML
  from assms XO_STYLE_XML obtain x1 where
    d: "xo_depth_change R xop name (- 1) (- 1) 0 = Some x1"
    and p: "xo_printf R x1 (xo_pad x1 @ ''</'' @ name @ ''>'' @ xo_ppn xop) = Some (rc, x)"
    by (auto simp: xo_close_container_h_def Let_def bind_eq_Some_conv xo_ppn_def)
  note e = xo_depth_change_pop_pad[OF d]
  from xo_printf_exact[OF p] xo_depth_change_same_sink[OF d] XO_STYLE_XML show ?thesis
    unfolding e
    by (auto simp: xo_close_container_text_def intro: xo_sink_return_step)
next
  case XO_STYLE_JSON
  from assms XO_STYLE_JSON obtain x1 x2 where
    d: "xo_depth_change R xop name (- 1) (- 1) 0 = Some x1"
    and p: "xo_printf R x1 (xo_ppn xop @ xo_pad x1 @ ''}''
                            @ (if xo_depth xop \<le> 1 then [NL] else [])) = Some (rc, x2)"
    and s: "xo_set_not_first x2 = Some x"
    by (auto simp: xo_close_container_h_def Let_def bind_eq_Some_conv xo_ppn_def)
  note e = xo_depth_change_pop_pad[OF d]
  from xo_printf_exact[OF p] xo_depth_change_same_sink[OF d] xo_set_not_first_same_sink[OF s]
    XO_STYLE_JSON show ?thesis
    unfolding e
    by (auto simp: xo_close_container_text_def xo_same_sink_def[of x2]
        intro: xo_sink_return_step)
next
  case XO_STYLE_TEXT
  with assms show ?thesis
    by (auto simp: xo_close_container_h_def Let_def bind_eq_Some_conv xo_close_container_text_def
        xo_sink_return_def xo_same_sink_def dest!: xo_depth_change_same_sink)
next
  case XO_STYLE_HTML
  with assms show ?thesis
    by (auto simp: xo_close_container_h_def Let_def bind_eq_Some_conv xo_close_container_text_def
        xo_sink_return_def xo_same_sink_def dest!: xo_depth_change_same_sink)
qed

lemma xo_close_instance_exact:
  assumes "xo_close_instance_h R xop name = Some (rc, x)"
  shows "xo_sink_return R xop (xo_close_instance_text xop name) rc x"
proof (cases "xo_style xop")
  case XO_STYLE_XML
  from assms XO_STYLE_XML obtain x1 where
    d: "xo_depth_change R xop name (- 1) (- 1) 0 = Some x1"
    and p: "xo_printf R x1 (xo_pad x1 @ ''</'' @ name @ ''>'' @ xo_ppn xop) = Some (rc, x)"
    by (auto simp: xo_close_instance_h_def Let_def bind_eq_Some_conv xo_ppn_def)
  note e = xo_depth_change_pop_pad[OF d]
  from xo_printf_exact[OF p] xo_depth_change_same_sink[OF d] XO_STYLE_XML show ?thesis
    unfolding e
    by (auto simp: xo_close_instance_text_def intro: xo_sink_return_step)
next
  case XO_STYLE_JSON
  from assms XO_STYLE_JSON obtain x1 x2 where
    d: "xo_depth_change R xop name (- 1) (- 1) 0 = Some x1"
    and p: "xo_printf R x1 (xo_ppn xop @ xo_pad x1 @ ''}'') = Some (rc, x2)"
    and s: "xo_set_not_first x2 = Some x"
    by (auto simp: xo_close_instance_h_def Let_def bind_eq_Some_conv xo_ppn_def)
  note e = xo_depth_change_pop_pad[OF d]
  from xo_printf_exact[OF p] xo_depth_change_same_sink[OF d] xo_set_not_first_same_sink[OF s]
    XO_STYLE_JSON show ?thesis
    unfolding e
    by (auto simp: xo_close_instance_text_def xo_same_sink_def[of x2]
        intro: xo_sink_return_step)
next
  case XO_STYLE_TEXT
  with assms show ?thesis
    by (auto simp: xo_close_instance_h_def Let_def bind_eq_Some_conv xo_close_instance_text_def
        xo_sink_return_def xo_same_sink_def dest!: xo_depth_change_same_sink)
next
  case XO_STYLE_HTML
  with assms show ?thesis
    by (auto simp: xo_close_instance_h_def Let_def bind_eq_Some_conv xo_close_instance_text_def
        xo_sink_return_def xo_same_sink_def dest!: xo_depth_change_same_sink)
qed

lemma xo_open_instance_exact:
  assumes "xo_open_instance_h R xop name = Some (rc, x)"
  shows "xo_sink_return R xop (xo_open_instance_text xop name) rc x"
proof (cases "xo_style xop")
  case XO_STYLE_XML
  from assms XO_STYLE_XML obtain x1 where
    p: "xo_printf R xop (xo_pad xop @ ''<'' @ name @ ''>'' @ xo_ppn xop) = Some (rc, x1)"
    and d: "xo_depth_change R x1 name 1 1 0 = Some x"
    by (auto simp: xo_open_instance_h_def Let_def bind_eq_Some_conv xo_ppn_def)
  from xo_printf_exact[OF p] xo_depth_change_same_sink[OF d] XO_STYLE_XML show ?thesis
    by (auto simp: xo_open_instance_text_def xo_same_sink_def
        intro: xo_sink_return_step[OF _ xo_same_sink_refl])
next
  case XO_STYLE_JSON
  from assms XO_STYLE_JSON obtain xsp x0 x1 where
    t: "xo_stack_top xop = Some xsp" and s: "xo_set_not_first xop = Some x0"
    and p: "xo_printf R x0
              ((if xo_not_first xsp
                then (if XOF_PRETTY \<in> xo_flags xop then [CHR '','', NL] else '', '') else [])
               @ xo_pad x0 @ ''{'' @ xo_ppn xop) = Some (rc, x1)"
    and d: "xo_depth_change R x1 name 1 1 0 = Some x"
    by (auto simp: xo_open_instance_h_def Let_def bind_eq_Some_conv xo_ppn_def)
  have e: "(if xo_not_first xsp
            then (if XOF_PRETTY \<in> xo_flags xop then [CHR '','', NL] else '', '') else [])
           = xo_sep xop" "xo_pad x0 = xo_pad xop"
    using xo_stack_top_Some[OF t] xo_set_not_first_same_sink[OF s] by (simp_all add: xo_sep_def)
  from xo_printf_exact[OF p] xo_depth_change_same_sink[OF d] xo_set_not_first_same_sink[OF s]
    XO_STYLE_JSON show ?thesis
    unfolding e
    by (auto simp: xo_open_instance_text_def xo_same_sink_def[of x1]
        intro: xo_sink_return_step)
next
  case XO_STYLE_TEXT
  with assms show ?thesis
    by (auto simp: xo_open_instance_h_def Let_def bind_eq_Some_conv xo_open_instance_text_def
        xo_sink_return_def xo_same_sink_def dest!: xo_depth_change_same_sink)
next
  case XO_STYLE_HTML
  with assms show ?thesis
    by (auto simp: xo_open_instance_h_def Let_def bind_eq_Some_conv xo_open_instance_text_def
        xo_sink_return_def xo_same_sink_def dest!: xo_depth_change_same_sink)
qed

lemma xo_open_list_exact:
  assumes "xo_open_list_h R xop name = Some (rc, x)"
  shows "xo_sink_return R xop (xo_open_list_text xop name) rc x"
proof (cases "xo_style xop = XO_STYLE_JSON")
  case True
  from assms True obtain xsp x0 x1 where
    t: "xo_stack_top xop = Some xsp" and s: "xo_set_not_first xop = Some x0"
    and p: "xo_printf R x0
              ((if xo_not_first xsp
                then (if XOF_PRETTY \<in> xo_flags xop then [CHR '','', NL] else '', '') else [])
               @ xo_pad x0 @ [DQ] @ name @ [DQ] @ '': ['' @ xo_ppn xop) = Some (rc, x1)"
    and d: "xo_depth_change R x1 name 1 1 XSF_LIST = Some x"
    by (auto simp: xo_open_list_h_def Let_def bind_eq_Some_conv xo_ppn_def)
  have e: "(if xo_not_first xsp
            then (if XOF_PRETTY \<in> xo_flags xop then [CHR '','', NL] else '', '') else [])
           = xo_sep xop" "xo_pad x0 = xo_pad xop"
    using xo_stack_top_Some[OF t] xo_set_not_first_same_sink[OF s] by (simp_all add: xo_sep_def)
  from xo_printf_exact[OF p] xo_depth_change_same_sink[OF d] xo_set_not_first_same_sink[OF s]
    True show ?thesis
    unfolding e
    by (auto simp: xo_open_list_text_def xo_same_sink_def[of x1]
        intro: xo_sink_return_step)
next
  case False
  with assms show ?thesis
    by (cases "xo_style xop")
       (auto simp: xo_open_list_h_def Let_def xo_open_list_text_def xo_sink_return_def)
qed

lemma xo_emit_hv_exact:
  assumes "xo_emit_hv R vsn snp xop fmt = Inr (rc, x)"
  shows "\<exists>out. xo_emit_text R vsn snp xop fmt = Some out \<and> xo_emit_contract R xop out rc x"
proof -
  from assms obtain x0 where l: "xo_emit_loop R snp fmt xop fmt = Inr x0"
    by (cases "xo_emit_loop R snp fmt xop fmt") (auto simp: xo_emit_hv_def)
  from assms l obtain x1 where a: "xo_fmt_append R x0 [NUL] = Some x1"
    by (cases "xo_fmt_append R x0 [NUL]") (auto simp: xo_emit_hv_def)
  have o: "xo_opaque x1 = xo_opaque xop" "xo_data x1 = xo_data xop"
    using xo_emit_loop_keeps[OF l] xo_fmt_append_keeps[OF a] by (simp_all add: xo_keeps_def)
  define out where "out = vsn (takeWhile (\<lambda>c. c \<noteq> NUL) (xb_data (xo_fmt x1)))"
  have t: "xo_emit_text R vsn snp xop fmt = Some out"
    by (simp add: xo_emit_text_def l a out_def)
  from assms l a o have "xo_emit_contract R xop out rc x"
    by (auto simp: xo_emit_hv_def Let_def xo_emit_contract_def xo_buf_has_room_def out_def
        split: if_splits option.splits)
  with t show ?thesis by blast
qed

text \<open>
  C5, as amended. Emission (\<open>xo_emit_hv\<close>, and \<open>xo_emit_h\<close> and \<open>xo_emit\<close> through it),
  when it returns, returns the length of the text that the substitution makes, having
  handed the write callback what the data buffer holds of it, once; the result of the
  callback is not used. When the text is longer than the data buffer emission returns
  -1 without a write, the buffer having failed to grow. \<open>open_container\<close>,
  \<open>close_container\<close>, \<open>open_list\<close>, \<open>open_instance\<close> and \<open>close_instance\<close>, when they
  return, return what the write callback returned for their text in the styles in which
  they print and the text is not longer than the data buffer, -1 without a write when
  it is longer and the buffer failed to grow, and 0 without a write in the styles in
  which they print nothing. (When the buffer does grow the source calls \<open>vsnprintf\<close>
  again with the consumed argument list: no call returns in the embedding.)
\<close>

theorem xo_return_values:
  "(xo_emit_hv R vsn snp xop fmt = Inr (rc, x) \<longrightarrow>
      (\<exists>out. xo_emit_text R vsn snp xop fmt = Some out \<and> xo_emit_contract R xop out rc x))
   \<and> (xo_emit_h R vsn snp xop fmt = Inr (rc, x) \<longrightarrow>
      (\<exists>out. xo_emit_text R vsn snp xop fmt = Some out \<and> xo_emit_contract R xop out rc x))
   \<and> (xo_open_container_h R xop name = Some (rc, x) \<longrightarrow>
        xo_sink_return R xop (xo_open_container_text xop name) rc x)
   \<and> (xo_close_container_h R xop name = Some (rc, x) \<longrightarrow>
        xo_sink_return R xop (xo_close_container_text xop name) rc x)
   \<and> (xo_open_list_h R xop name = Some (rc, x) \<longrightarrow>
        xo_sink_return R xop (xo_open_list_text xop name) rc x)
   \<and> (xo_open_instance_h R xop name = Some (rc, x) \<longrightarrow>
        xo_sink_return R xop (xo_open_instance_text xop name) rc x)
   \<and> (xo_close_instance_h R xop name = Some (rc, x) \<longrightarrow>
        xo_sink_return R xop (xo_close_instance_text xop name) rc x)"
  by (simp add: xo_emit_hv_exact xo_emit_h_def xo_open_container_exact xo_close_container_exact
      xo_open_list_exact xo_open_instance_exact xo_close_instance_exact)


lemma xo_emit_hi:
  "xo_emit_hv (\<lambda>n. True) (\<lambda>f. f) (\<lambda>f a. a)
      ((xo_fresh XO_STYLE_TEXT {})\<lparr>xo_write := Some xo_failing_sink\<rparr>) ''hi''
   = Inr (2, (xo_fresh XO_STYLE_TEXT {})\<lparr>xo_write := Some xo_failing_sink, xo_opaque := [''hi'']\<rparr>)"
  apply (simp add: xo_emit_hv_def xo_emit_loop.simps xo_format_text_def xo_fmt_append_def
      xo_buf_append_def xo_buf_has_room_def xo_fresh_fields xo_str_def Let_def XO_BUFSIZ_def)
  done

lemma xo_emit_text_hi:
  "xo_emit_text (\<lambda>n. True) (\<lambda>f. f) (\<lambda>f a. a)
      ((xo_fresh XO_STYLE_TEXT {})\<lparr>xo_write := Some xo_failing_sink\<rparr>) ''hi'' = Some ''hi''"
  by (simp add: xo_emit_text_def xo_emit_loop.simps xo_format_text_def xo_fmt_append_def
      xo_buf_append_def xo_buf_has_room_def xo_fresh_fields xo_str_def Let_def XO_BUFSIZ_def)

lemma xo_open_a:
  "xo_open_container_h (\<lambda>n. True) (xo_fresh XO_STYLE_XML {}) ''a'' \<noteq> None"
  by (simp add: xo_eval_defs xo_fresh_fields xo_fresh_frame Let_def)

lemma xo_open_a_text:
  "xo_open_container_text (xo_fresh XO_STYLE_XML {}) ''a'' = Some ''<a>''"
  by (simp add: xo_open_container_text_def xo_fresh_fields xo_pad_def xo_indent_f_def xo_ppn_def)

theorem xo_return_values_witness:
  "(\<exists>rc x. xo_open_container_h (\<lambda>n. True) (xo_fresh XO_STYLE_XML {}) ''a'' = Some (rc, x)
       \<and> xo_sink_return (\<lambda>n. True) (xo_fresh XO_STYLE_XML {}) (Some ''<a>'') rc x
       \<and> rc = 3 \<and> xo_opaque x = [''<a>''])
   \<and> (\<exists>rc x. xo_emit_hv (\<lambda>n. True) (\<lambda>f. f) (\<lambda>f a. a)
                 ((xo_fresh XO_STYLE_TEXT {})\<lparr>xo_write := Some xo_failing_sink\<rparr>) ''hi'' = Inr (rc, x)
       \<and> xo_emit_contract (\<lambda>n. True) ((xo_fresh XO_STYLE_TEXT {})\<lparr>xo_write := Some xo_failing_sink\<rparr>)
            ''hi'' rc x
       \<and> rc = 2 \<and> xo_opaque x = [''hi''])"
proof -
  from xo_open_a obtain rc x where
    a: "xo_open_container_h (\<lambda>n. True) (xo_fresh XO_STYLE_XML {}) ''a'' = Some (rc, x)"
    by auto
  note t = xo_return_values[of "\<lambda>n. True" "\<lambda>f. f" "\<lambda>f a. a"]
  from t[of "xo_fresh XO_STYLE_XML {}" _ rc x "''a''"] a
  have s: "xo_sink_return (\<lambda>n. True) (xo_fresh XO_STYLE_XML {}) (Some ''<a>'') rc x"
    by (simp add: xo_open_a_text)
  then have 1: "rc = 3 \<and> xo_opaque x = [''<a>'']"
    by (simp add: xo_sink_return_def xo_fresh_fields xo_stored_def xo_write_to_file_def)
  from t[of "(xo_fresh XO_STYLE_TEXT {})\<lparr>xo_write := Some xo_failing_sink\<rparr>" "''hi''" 2
          "(xo_fresh XO_STYLE_TEXT {})\<lparr>xo_write := Some xo_failing_sink, xo_opaque := [''hi'']\<rparr>"]
       xo_emit_hi
  have 2: "xo_emit_contract (\<lambda>n. True) ((xo_fresh XO_STYLE_TEXT {})\<lparr>xo_write := Some xo_failing_sink\<rparr>)
            ''hi'' 2
            ((xo_fresh XO_STYLE_TEXT {})\<lparr>xo_write := Some xo_failing_sink, xo_opaque := [''hi'']\<rparr>)"
    by (simp add: xo_emit_text_hi)
  from a s 1 xo_emit_hi 2 show ?thesis by simp
qed

text \<open>
  The claim as stated fails for emission: with a write callback that returns -1,
  \<open>xo_emit("hi")\<close> in text style hands \<open>hi\<close> to the callback and returns 2.
\<close>

theorem xo_emit_ignores_sink_counterexample:
  "xo_emit_hv (\<lambda>n. True) (\<lambda>f. f) (\<lambda>f a. a)
      ((xo_fresh XO_STYLE_TEXT {})\<lparr>xo_write := Some xo_failing_sink\<rparr>) ''hi''
   = Inr (2, (xo_fresh XO_STYLE_TEXT {})\<lparr>xo_write := Some xo_failing_sink, xo_opaque := [''hi'']\<rparr>)
   \<and> xo_failing_sink (xo_opaque ((xo_fresh XO_STYLE_TEXT {})\<lparr>xo_write := Some xo_failing_sink\<rparr>)) ''hi''
     = - 1"
  by (simp add: xo_emit_hv_def xo_emit_loop.simps xo_format_text_def xo_fmt_append_def
      xo_buf_append_def xo_buf_has_room_def xo_fresh_fields xo_str_def Let_def XO_BUFSIZ_def
      xo_failing_sink_def)

text \<open>\<open>xo_close_list_h\<close> returns 0 also when it has invoked the callback.\<close>

lemma xo_close_list_returns_zero:
  "xo_close_list_h R xop name = Some (rc, x) \<Longrightarrow> rc = 0"
  by (cases "xo_style xop") (auto simp: xo_close_list_h_def bind_eq_Some_conv)

text \<open>
  A text that is longer than the data buffer, with an allocator that lets the buffer
  grow: \<open>xo_printf\<close> and \<open>xo_emit_hv\<close> call \<open>vsnprintf\<close> a second time with the argument
  list that the first call has consumed, and have no result.
\<close>

lemma xo_printf_grown:
  assumes "int (length (xb_data (xo_data xop))) < xb_size (xo_data xop)"
    and "xb_size (xo_data xop) < int (length out)"
    and "R (xb_size (xo_data xop) + XO_BUFSIZ)"
  shows "xo_printf R xop out = None"
  using assms by (simp add: xo_printf_def Let_def xo_buf_has_room_def)

lemma xo_emit_hv_grown:
  assumes "xo_emit_text R vsn snp xop fmt = Some out"
    and "xb_size (xo_data xop) < int (length out)"
    and "R (xb_size (xo_data xop) + XO_BUFSIZ)"
  shows "\<exists>e. xo_emit_hv R vsn snp xop fmt = Inl e"
proof -
  from assms(1) obtain x0 where l: "xo_emit_loop R snp fmt xop fmt = Inr x0"
    by (cases "xo_emit_loop R snp fmt xop fmt") (auto simp: xo_emit_text_def)
  from assms(1) l obtain x1 where a: "xo_fmt_append R x0 [NUL] = Some x1"
    by (cases "xo_fmt_append R x0 [NUL]") (auto simp: xo_emit_text_def)
  have o: "xo_data x1 = xo_data xop"
    using xo_emit_loop_keeps[OF l] xo_fmt_append_keeps[OF a] by (simp add: xo_keeps_def)
  from assms(1) l a have t: "out = vsn (takeWhile (\<lambda>c. c \<noteq> NUL) (xb_data (xo_fmt x1)))"
    by (simp add: xo_emit_text_def)
  show ?thesis
    using assms(2,3) t o
    by (simp add: xo_emit_hv_def l a Let_def xo_buf_has_room_def)
qed

section \<open>Reads of the format string\<close>

lemma xo_c_format_drop: "xo_c_format cp \<Longrightarrow> xo_c_format (drop k cp)"
proof (induction cp arbitrary: k)
  case Nil
  then show ?case by simp
next
  case (Cons c cp)
  then show ?case by (cases k) (auto simp: xo_c_format_def)
qed

lemma xo_c_format_tl: "xo_c_format cp \<Longrightarrow> xo_c_format (tl cp)"
  using xo_c_format_drop[of cp 1] by (simp add: drop_Suc)

lemma xo_c_format_if_drop: "xo_c_format a \<Longrightarrow> xo_c_format (if b then drop k a else a)"
  by (simp add: xo_c_format_drop)

lemma xo_c_format_if_tl: "xo_c_format a \<Longrightarrow> xo_c_format (if b then tl a else a)"
  by (simp add: xo_c_format_tl)

lemma xo_modifiers_delimited:
  "NUL \<notin> set sp \<Longrightarrow> list_ex xo_delimiter sp \<Longrightarrow> \<exists>r. xo_modifiers fmt sp st = Some r"
proof (induction sp arbitrary: st)
  case Nil
  then show ?case by simp
next
  case (Cons c sp)
  show ?case
  proof (cases "xo_delimiter c")
    case True
    with Cons.prems show ?thesis by (auto simp: xo_delimiter_def)
  next
    case False
    with Cons.prems have d: "list_ex xo_delimiter sp" and n: "NUL \<notin> set sp" and c: "c \<noteq> NUL"
      by auto
    have "xo_modifiers fmt (c # sp) st
          = xo_modifiers fmt sp (xo_modifier fmt c (fst st) (fst (snd st)) (snd (snd st)))"
      using False c by (simp add: xo_delimiter_def)
    with Cons.IH[OF n d] show ?thesis by simp
  qed
qed

lemma xo_parse_field_delimited:
  assumes "NUL \<notin> set sp" and "list_ex xo_delimiter sp"
  shows "\<exists>f x. xo_parse_field fmt sp xop = Some (f, x) \<and> xf_len f \<le> length sp"
proof -
  from xo_modifiers_delimited[OF assms, of fmt "(NUL, 0, xop)"] obtain r where
    "xo_modifiers fmt sp (NUL, 0, xop) = Some r"
    by blast
  then show ?thesis
    by (simp add: xo_parse_field_def Let_def case_prod_beta)
qed

lemma xo_emit_loop_in_bounds:
  "xo_c_format cp \<Longrightarrow> xo_formatter xop = None \<Longrightarrow>
   xo_emit_loop R snp fmt xop cp \<noteq> Inl Fmt_overread"
proof (induction R snp fmt xop cp rule: xo_emit_loop.induct)
  case (1 R snp fmt xop cp)
  note u = xo_emit_loop.simps[of R snp fmt xop cp]
  note ok = "1.prems"(1) and fm = "1.prems"(2)
  show ?case
  proof (cases cp)
    case Nil
    then show ?thesis unfolding u by simp
  next
    case (Cons c rest)
    note cp = Cons
    consider (nul) "c = NUL" | (nl) "c \<noteq> NUL" "c = NL"
      | (esc) "c \<noteq> NUL" "c \<noteq> NL" "c = CHR ''{''" "xo_peek rest = CHR ''{''"
      | (run) "c \<noteq> NUL" "c \<noteq> NL" "c \<noteq> CHR ''{''"
      | (fld) "c \<noteq> NUL" "c \<noteq> NL" "c = CHR ''{''" "xo_peek rest \<noteq> CHR ''{''"
      by blast
    then show ?thesis
    proof cases
      case nul
      then show ?thesis unfolding u by (simp add: cp)
    next
      case nl
      show ?thesis
      proof (cases "xo_line_close R xop")
        case None
        with nl show ?thesis unfolding u by (simp add: cp)
      next
        case (Some y)
        have k: "xo_keeps xop y"
          by (rule xo_keptD[OF xo_kept_line_close[OF xo_keeps_refl] Some])
        have "xo_c_format rest" using xo_c_format_tl[OF ok] by (simp add: cp)
        moreover have "xo_formatter y = None" using k fm by (simp add: xo_keeps_def)
        ultimately have "xo_emit_loop R snp fmt y rest \<noteq> Inl Fmt_overread"
          using "1.IH"(1)[OF cp _ _ Some] nl by simp
        with nl Some show ?thesis unfolding u by (simp add: cp)
      qed
    next
      case esc
      let ?cp2 = "tl rest"
      let ?n = "xo_scan_braces ?cp2"
      let ?sp = "drop ?n ?cp2"
      let ?sp' = "(if xo_peek ?sp = CHR ''}'' \<and> xo_peek (tl ?sp) = CHR ''}'' then drop 2 ?sp else ?sp)"
      let ?cp' = "(if xo_peek ?sp' \<noteq> NUL then tl ?sp' else ?sp')"
      show ?thesis
      proof (cases "xo_format_text R xop (Some (take ?n ?cp2))")
        case None
        with esc show ?thesis unfolding u by (simp add: cp Let_def)
      next
        case (Some y)
        have k: "xo_keeps xop y"
          by (rule xo_keptD[OF xo_kept_format_text[OF xo_keeps_refl] Some])
        have "xo_c_format rest" using xo_c_format_tl[OF ok] by (simp add: cp)
        then have "xo_c_format ?sp" by (intro xo_c_format_drop xo_c_format_tl)
        then have "xo_c_format ?sp'" by (rule xo_c_format_if_drop)
        then have "xo_c_format ?cp'" by (rule xo_c_format_if_tl)
        moreover have "xo_formatter y = None" using k fm by (simp add: xo_keeps_def)
        ultimately have "xo_emit_loop R snp fmt y ?cp' \<noteq> Inl Fmt_overread"
          using "1.IH"(2)[OF cp _ _ _ refl refl refl refl refl Some] esc by simp
        with esc Some show ?thesis unfolding u by (simp add: cp Let_def)
      qed
    next
      case run
      let ?n = "xo_scan (\<lambda>c. c = CHR ''{'' \<or> c = NL) cp"
      show ?thesis
      proof (cases "xo_format_text R xop (Some (take ?n cp))")
        case None
        with run show ?thesis unfolding u by (simp add: cp Let_def)
      next
        case (Some y)
        have k: "xo_keeps xop y"
          by (rule xo_keptD[OF xo_kept_format_text[OF xo_keeps_refl] Some])
        have "xo_c_format (drop ?n cp)" using ok by (rule xo_c_format_drop)
        moreover have "xo_formatter y = None" using k fm by (simp add: xo_keeps_def)
        ultimately have "xo_emit_loop R snp fmt y (drop ?n cp) \<noteq> Inl Fmt_overread"
          using "1.IH"(3)[OF cp _ _ _ _ refl Some] run by simp
        with run Some show ?thesis unfolding u by (simp add: cp Let_def)
      qed
    next
      case fld
      have b: "xo_basep xop rest = rest" using fm by (simp add: xo_basep_def)
      have "NUL \<notin> set rest" "list_ex xo_delimiter rest"
        using ok fld by (auto simp: xo_c_format_def cp)
      from xo_parse_field_delimited[OF this, of fmt xop] obtain f x1 where
        p: "xo_parse_field fmt rest xop = Some (f, x1)" and le: "xf_len f \<le> length rest"
        by blast
      have p': "xo_parse_field fmt (xo_basep xop rest) xop = Some (f, x1)" using p b by simp
      have k1: "xo_keeps xop x1" using xo_parse_field_keeps[OF p] by simp
      show ?thesis
      proof (cases "xo_render_field R snp x1 f")
        case None
        with fld p' show ?thesis unfolding u by (simp add: cp)
      next
        case (Some x2)
        have k2: "xo_keeps x1 x2"
          by (rule xo_keptD[OF xo_kept_render_field[OF xo_keeps_refl] Some])
        have "xo_c_format rest" using xo_c_format_tl[OF ok] by (simp add: cp)
        then have "xo_c_format (drop (xf_len f) rest)" by (rule xo_c_format_drop)
        moreover have "xo_formatter x2 = None" using k1 k2 fm by (simp add: xo_keeps_def)
        moreover have nle: "\<not> xf_len f > length rest" using le by simp
        ultimately have "xo_emit_loop R snp fmt x2 (drop (xf_len f) rest) \<noteq> Inl Fmt_overread"
          using "1.IH"(4)[OF cp _ _ _ _ p' refl Some nle] fld by simp
        with fld p' Some nle show ?thesis unfolding u by (simp add: cp)
      qed
    qed
  qed
qed

lemma xo_scan_le: "xo_scan stop sp \<le> length sp"
  by (induction sp) auto

lemma xo_scan_append_brace:
  "stop (CHR ''}'') \<Longrightarrow> xo_scan stop (sp @ ''}'') = xo_scan stop sp"
  by (induction sp) auto

lemma xo_scan_stops:
  "NUL \<notin> set sp \<Longrightarrow> drop (xo_scan stop sp) sp = [] \<or> stop (hd (drop (xo_scan stop sp) sp))"
  by (induction sp) auto

lemma xo_open_ended_drop: "xo_open_ended sp \<Longrightarrow> xo_open_ended (drop n sp)"
  by (auto simp: xo_open_ended_def dest: in_set_dropD)

lemma xo_open_ended_tl: "xo_open_ended sp \<Longrightarrow> xo_open_ended (tl sp)"
  by (cases sp) (auto simp: xo_open_ended_def)

lemma xo_peek_append_brace:
  "sep \<noteq> NUL \<Longrightarrow> sep \<noteq> CHR ''}'' \<Longrightarrow> xo_peek (sp @ ''}'') = sep \<longleftrightarrow> xo_peek sp = sep"
  by (cases sp) (auto simp: xo_peek_def)

lemma xo_segment_append_brace:
  assumes "sep \<noteq> NUL" "sep \<noteq> CHR ''}''" "stop (CHR ''}'')"
  shows "xo_segment sep stop (sp @ ''}'')
         = (fst (xo_segment sep stop sp), snd (xo_segment sep stop sp) @ ''}'')"
proof (cases "xo_peek sp = sep")
  case True
  then have ne: "sp \<noteq> []" using assms(1) by (auto simp: xo_peek_def)
  then have t: "tl (sp @ ''}'') = tl sp @ ''}''" by simp
  have p: "xo_peek (sp @ ''}'') = sep" using True assms by (simp add: xo_peek_append_brace)
  have n: "xo_scan stop (tl sp @ ''}'') = xo_scan stop (tl sp)"
    using assms(3) by (rule xo_scan_append_brace)
  show ?thesis
    using True p xo_scan_le[of stop "tl sp"]
    by (simp add: xo_segment_def Let_def t n)
next
  case False
  then have "xo_peek (sp @ ''}'') \<noteq> sep" using assms by (simp add: xo_peek_append_brace)
  with False show ?thesis by (simp add: xo_segment_def)
qed

lemma xo_segment_open_ended:
  "xo_open_ended sp \<Longrightarrow> xo_open_ended (snd (xo_segment sep stop sp))"
  by (simp add: xo_segment_def Let_def xo_open_ended_drop xo_open_ended_tl)

lemma xo_segment_rest:
  assumes "xo_open_ended sp" and "\<And>c. stop c \<Longrightarrow> c = CHR ''}'' \<or> c = CHR ''/''"
    and "sp = [] \<or> hd sp = CHR ''/'' \<or> hd sp = sep"
  shows "snd (xo_segment sep stop sp) = [] \<or> hd (snd (xo_segment sep stop sp)) = CHR ''/''"
proof (cases "xo_peek sp = sep")
  case True
  let ?r = "drop (xo_scan stop (tl sp)) (tl sp)"
  have o: "xo_open_ended (tl sp)" using assms(1) by (rule xo_open_ended_tl)
  then have "NUL \<notin> set (tl sp)" by (simp add: xo_open_ended_def)
  from xo_scan_stops[OF this, of stop] have "?r = [] \<or> stop (hd ?r)" .
  moreover have "?r \<noteq> [] \<Longrightarrow> hd ?r \<noteq> CHR ''}''"
    using xo_open_ended_drop[OF o, of "xo_scan stop (tl sp)"]
    by (cases ?r) (auto simp: xo_open_ended_def)
  ultimately have "?r = [] \<or> hd ?r = CHR ''/''" using assms(2) by blast
  with True show ?thesis by (simp add: xo_segment_def Let_def)
next
  case False
  with assms(3) have "sp = [] \<or> hd sp = CHR ''/''" by (cases sp) (auto simp: xo_peek_def)
  with False show ?thesis by (simp add: xo_segment_def)
qed

lemma xo_segment_last:
  assumes "xo_open_ended sp" and "sp = [] \<or> hd sp = CHR ''/''"
  shows "snd (xo_segment (CHR ''/'') (\<lambda>c. c = CHR ''}'') sp) = []"
proof (cases sp)
  case Nil
  then show ?thesis by (simp add: xo_segment_def xo_peek_def)
next
  case (Cons c r)
  with assms(2) have c: "c = CHR ''/''" by simp
  let ?r = "drop (xo_scan (\<lambda>c. c = CHR ''}'') r) r"
  have o: "xo_open_ended r" using assms(1) Cons by (simp add: xo_open_ended_def)
  then have "NUL \<notin> set r" by (simp add: xo_open_ended_def)
  from xo_scan_stops[OF this, of "\<lambda>c. c = CHR ''}''"] have "?r = [] \<or> hd ?r = CHR ''}''" .
  moreover have "?r \<noteq> [] \<Longrightarrow> hd ?r \<noteq> CHR ''}''"
    using xo_open_ended_drop[OF o, of "xo_scan (\<lambda>c. c = CHR ''}'') r"]
    by (cases ?r) (auto simp: xo_open_ended_def)
  ultimately have "?r = []" by blast
  then show ?thesis using Cons c by (simp add: xo_segment_def xo_peek_def Let_def)
qed

lemma xo_segment_lengths:
  "length (snd (xo_segment sep stop sp)) \<le> length sp"
  "fst (xo_segment sep stop sp) = Some g \<Longrightarrow> length g \<le> length sp"
  by (auto simp: xo_segment_def Let_def split: if_splits)

lemma xo_modifiers_append:
  "NUL \<notin> set sp \<Longrightarrow> list_ex xo_delimiter sp \<Longrightarrow>
   \<exists>s f x r. xo_modifiers fmt sp st = Some (s, f, x, r)
            \<and> xo_modifiers fmt (sp @ e) st = Some (s, f, x, r @ e)
            \<and> r \<noteq> [] \<and> xo_delimiter (hd r) \<and> set r \<subseteq> set sp \<and> length r \<le> length sp
            \<and> (xo_delimiter (xo_peek sp) \<longrightarrow> s = fst st \<and> f = fst (snd st) \<and> x = snd (snd st))"
proof (induction sp arbitrary: st)
  case Nil
  then show ?case by simp
next
  case (Cons c sp)
  show ?case
  proof (cases "xo_delimiter c")
    case True
    with Cons.prems show ?thesis by (auto simp: xo_delimiter_def xo_peek_def)
  next
    case False
    with Cons.prems have d: "list_ex xo_delimiter sp" and n: "NUL \<notin> set sp" and c: "c \<noteq> NUL"
      by auto
    let ?st = "xo_modifier fmt c (fst st) (fst (snd st)) (snd (snd st))"
    have 1: "xo_modifiers fmt (c # sp) st = xo_modifiers fmt sp ?st"
      using False c by (simp add: xo_delimiter_def)
    have 2: "xo_modifiers fmt ((c # sp) @ e) st = xo_modifiers fmt (sp @ e) ?st"
      using False c by (simp add: xo_delimiter_def)
    from Cons.IH[OF n d, of ?st] False show ?thesis
      unfolding 1 2 by (auto simp: xo_peek_def)
  qed
qed

lemma xo_parse_field_unterminated:
  assumes "xo_open_ended fld" and "list_ex xo_delimiter fld"
  shows "\<exists>f x1. xo_parse_field fmt (fld @ ''}'') xop = Some (f, x1)
           \<and> xo_parse_field fmt fld xop = Some (f\<lparr>xf_len := length fld\<rparr>, x1)
           \<and> xf_len f = Suc (length fld)
           \<and> (\<forall>g. xf_format f = Some g \<longrightarrow> length g \<le> length fld)
           \<and> (xo_delimiter (xo_peek fld) \<longrightarrow> x1 = xop \<and> xf_style f = NUL \<and> xf_flags f = 0)"
proof -
  from assms(1) have n: "NUL \<notin> set fld" by (simp add: xo_open_ended_def)
  from xo_modifiers_append[OF n assms(2), of fmt "(NUL, 0, xop)" "''}''"] obtain s f x r where
    m1: "xo_modifiers fmt fld (NUL, 0, xop) = Some (s, f, x, r)" and
    m2: "xo_modifiers fmt (fld @ ''}'') (NUL, 0, xop) = Some (s, f, x, r @ ''}'')" and
    r: "r \<noteq> []" "xo_delimiter (hd r)" "set r \<subseteq> set fld" "length r \<le> length fld" and
    x: "xo_delimiter (xo_peek fld) \<longrightarrow> s = NUL \<and> f = 0 \<and> x = xop"
    by auto
  have o: "xo_open_ended r" using assms(1) r(3) by (auto simp: xo_open_ended_def)
  have h: "r = [] \<or> hd r = CHR ''/'' \<or> hd r = CHR '':''"
    using r o by (cases r) (auto simp: xo_delimiter_def xo_open_ended_def)
  define sp1 where "sp1 = snd (xo_segment (CHR '':'') (\<lambda>c. c = CHR ''}'' \<or> c = CHR ''/'') r)"
  define sp2 where "sp2 = snd (xo_segment (CHR ''/'') (\<lambda>c. c = CHR ''}'' \<or> c = CHR ''/'') sp1)"
  have o1: "xo_open_ended sp1" unfolding sp1_def using o by (rule xo_segment_open_ended)
  have h1: "sp1 = [] \<or> hd sp1 = CHR ''/''"
    unfolding sp1_def using o _ h by (rule xo_segment_rest) simp
  have o2: "xo_open_ended sp2" unfolding sp2_def using o1 by (rule xo_segment_open_ended)
  have h2: "sp2 = [] \<or> hd sp2 = CHR ''/''"
    unfolding sp2_def using o1 by (rule xo_segment_rest) (use h1 in auto)
  have s3: "snd (xo_segment (CHR ''/'') (\<lambda>c. c = CHR ''}'') sp2) = []"
    using o2 h2 by (rule xo_segment_last)
  have e1: "xo_segment (CHR '':'') (\<lambda>c. c = CHR ''}'' \<or> c = CHR ''/'') (r @ ''}'')
            = (fst (xo_segment (CHR '':'') (\<lambda>c. c = CHR ''}'' \<or> c = CHR ''/'') r), sp1 @ ''}'')"
    by (simp add: xo_segment_append_brace sp1_def)
  have e2: "xo_segment (CHR ''/'') (\<lambda>c. c = CHR ''}'' \<or> c = CHR ''/'') (sp1 @ ''}'')
            = (fst (xo_segment (CHR ''/'') (\<lambda>c. c = CHR ''}'' \<or> c = CHR ''/'') sp1), sp2 @ ''}'')"
    by (simp add: xo_segment_append_brace sp2_def)
  have e3: "xo_segment (CHR ''/'') (\<lambda>c. c = CHR ''}'') (sp2 @ ''}'')
            = (fst (xo_segment (CHR ''/'') (\<lambda>c. c = CHR ''}'') sp2), ''}'')"
    by (simp add: xo_segment_append_brace s3)
  have p2: "xo_parse_field fmt (fld @ ''}'') xop
            = Some (\<lparr>xf_style = s, xf_flags = f,
                     xf_content = fst (xo_segment (CHR '':'') (\<lambda>c. c = CHR ''}'' \<or> c = CHR ''/'') r),
                     xf_format = fst (xo_segment (CHR ''/'') (\<lambda>c. c = CHR ''}'' \<or> c = CHR ''/'') sp1),
                     xf_encoding = fst (xo_segment (CHR ''/'') (\<lambda>c. c = CHR ''}'') sp2),
                     xf_len = Suc (length fld)\<rparr>, x)"
    by (simp add: xo_parse_field_def m2 Let_def case_prod_beta e1 e2 e3 xo_peek_def)
  have p1: "xo_parse_field fmt fld xop
            = Some (\<lparr>xf_style = s, xf_flags = f,
                     xf_content = fst (xo_segment (CHR '':'') (\<lambda>c. c = CHR ''}'' \<or> c = CHR ''/'') r),
                     xf_format = fst (xo_segment (CHR ''/'') (\<lambda>c. c = CHR ''}'' \<or> c = CHR ''/'') sp1),
                     xf_encoding = fst (xo_segment (CHR ''/'') (\<lambda>c. c = CHR ''}'') sp2),
                     xf_len = length fld\<rparr>, x)"
    using s3
    by (simp add: xo_parse_field_def m1 Let_def case_prod_beta xo_peek_def
        sp1_def[symmetric] sp2_def[symmetric])
  have g: "\<forall>g. fst (xo_segment (CHR ''/'') (\<lambda>c. c = CHR ''}'' \<or> c = CHR ''/'') sp1) = Some g
             \<longrightarrow> length g \<le> length fld"
  proof (intro allI impI)
    fix g
    assume "fst (xo_segment (CHR ''/'') (\<lambda>c. c = CHR ''}'' \<or> c = CHR ''/'') sp1) = Some g"
    then have "length g \<le> length sp1" by (rule xo_segment_lengths(2))
    also have "\<dots> \<le> length r" unfolding sp1_def by (rule xo_segment_lengths(1))
    also have "\<dots> \<le> length fld" by (rule r(4))
    finally show "length g \<le> length fld" .
  qed
  show ?thesis using p1 p2 x g by simp
qed

lemma xo_render_field_len:
  "xo_render_field R snp x (f\<lparr>xf_len := n\<rparr>) = xo_render_field R snp x f"
  by (simp add: xo_render_field_def Let_def cong: if_cong)

lemma xo_emit_loop_unterminated:
  assumes "xo_unterminated fld" and "xo_formatter xop = None"
  shows "\<exists>f x1. xo_parse_field fmt (fld @ ''}'') xop = Some (f, x1)
           \<and> xo_parse_field fmt fld xop = Some (f\<lparr>xf_len := length fld\<rparr>, x1)
           \<and> (xo_delimiter (xo_peek fld) \<longrightarrow> x1 = xop)
           \<and> xo_emit_loop R snp fmt xop (CHR ''{'' # fld)
               = (case xo_render_field R snp x1 f of None \<Rightarrow> Inl Mem_fault | Some x2 \<Rightarrow> Inr x2)
           \<and> xo_emit_loop R snp fmt xop (CHR ''{'' # fld @ ''}'')
               = xo_emit_loop R snp fmt xop (CHR ''{'' # fld)"
proof -
  from assms(1) have o: "xo_open_ended fld" and d: "list_ex xo_delimiter fld"
    and b: "xo_peek fld \<noteq> CHR ''{''"
    by (simp_all add: xo_unterminated_def)
  from d have ne: "fld \<noteq> []" by auto
  then have b2: "xo_peek (fld @ ''}'') \<noteq> CHR ''{''" using b by (cases fld) (auto simp: xo_peek_def)
  from xo_parse_field_unterminated[OF o d, of fmt xop] obtain f x1 where
    p2: "xo_parse_field fmt (fld @ ''}'') xop = Some (f, x1)" and
    p1: "xo_parse_field fmt fld xop = Some (f\<lparr>xf_len := length fld\<rparr>, x1)" and
    l: "xf_len f = Suc (length fld)" and
    x: "xo_delimiter (xo_peek fld) \<longrightarrow> x1 = xop"
    by blast
  have bp: "\<And>r. xo_basep xop r = r" using assms(2) by (simp add: xo_basep_def)
  have nil: "\<And>y. xo_emit_loop R snp fmt y [] = Inr y" by (simp add: xo_emit_loop.simps)
  have 1: "xo_emit_loop R snp fmt xop (CHR ''{'' # fld)
           = (case xo_render_field R snp x1 f of None \<Rightarrow> Inl Mem_fault | Some x2 \<Rightarrow> Inr x2)"
    unfolding xo_emit_loop.simps[of R snp fmt xop "CHR ''{'' # fld"]
    using b by (simp add: bp p1 xo_render_field_len nil split: option.splits)
  have 2: "xo_emit_loop R snp fmt xop (CHR ''{'' # fld @ ''}'')
           = (case xo_render_field R snp x1 f of None \<Rightarrow> Inl Mem_fault | Some x2 \<Rightarrow> Inr x2)"
    unfolding xo_emit_loop.simps[of R snp fmt xop "CHR ''{'' # fld @ ''}''"]
    using b2 by (simp add: bp p2 l nil split: option.splits)
  from p1 p2 x 1 2 show ?thesis by simp
qed

lemma xo_emit_loop_unterminated_text:
  assumes "xo_unterminated fld" and "xo_formatter xop = None"
    and "xo_style xop = XO_STYLE_TEXT" and "xo_delimiter (xo_peek fld)"
    and "int (length (xb_data (xo_fmt xop))) + int (length fld) + 2 < xb_size (xo_fmt xop)"
  shows "\<exists>x2. xo_emit_loop R snp fmt xop (CHR ''{'' # fld) = Inr x2
           \<and> xo_stderr x2 = xo_stderr xop"
proof -
  from assms(1) have o: "xo_open_ended fld" and d: "list_ex xo_delimiter fld"
    and b: "xo_peek fld \<noteq> CHR ''{''"
    by (simp_all add: xo_unterminated_def)
  from xo_parse_field_unterminated[OF o d, of fmt xop] assms(4) obtain f where
    p1: "xo_parse_field fmt fld xop = Some (f\<lparr>xf_len := length fld\<rparr>, xop)" and
    g: "\<forall>g. xf_format f = Some g \<longrightarrow> length g \<le> length fld" and
    s: "xf_style f = NUL" "xf_flags f = 0"
    by auto
  define format where "format = (case xf_format f of None \<Rightarrow> ''%s'' | Some g \<Rightarrow> g)"
  have "length format \<le> length fld + 2"
    using g by (cases "xf_format f") (auto simp: format_def)
  with assms(5) have
    "int (length (xb_data (xo_fmt xop))) + int (length format) < xb_size (xo_fmt xop)"
    by simp
  from xo_fmt_append_room[OF this, of R]
  have r: "xo_render_field R snp xop f
           = Some (xop\<lparr>xo_fmt := (xo_fmt xop)\<lparr>xb_data := xb_data (xo_fmt xop) @ format\<rparr>\<rparr>)"
    using s assms(3) by (simp add: xo_render_field_def xo_format_value_def format_def Let_def)
  have bp: "xo_basep xop fld = fld" using assms(2) by (simp add: xo_basep_def)
  have nil: "\<And>y. xo_emit_loop R snp fmt y [] = Inr y" by (simp add: xo_emit_loop.simps)
  have "xo_emit_loop R snp fmt xop (CHR ''{'' # fld)
        = Inr (xop\<lparr>xo_fmt := (xo_fmt xop)\<lparr>xb_data := xb_data (xo_fmt xop) @ format\<rparr>\<rparr>)"
    unfolding xo_emit_loop.simps[of R snp fmt xop "CHR ''{'' # fld"]
    using b by (simp add: bp p1 xo_render_field_len r nil)
  then show ?thesis by simp
qed

text \<open>
  C6, as amended, for a handle without a formatter hook. For a format string (a C
  string) in which every opening brace is followed somewhere by a colon, a slash or a
  closing brace, emission never reads past the terminating NUL of the format string;
  the function is total, so the emission terminates. When the loop comes to a brace
  field that has no closing brace, it takes the field to end with the string: the parse
  gives the same style, flags, content and formats, and leaves the same handle (so the
  same lines on standard error) as the parse of the field with the brace added; with no
  modifiers in the field the parse leaves the handle as it was. The loop renders that
  field and stops, which is what it does for the field with the brace added. In text
  style a field without modifiers that fits the work buffer is rendered and nothing is
  printed to standard error.
\<close>

theorem xo_emit_unterminated_field:
  assumes "xo_formatter xop = None"
  shows "(NUL \<notin> set fmt \<and> xo_delimited fmt \<longrightarrow>
            xo_emit_hv R vsn snp xop fmt \<noteq> Inl Fmt_overread)
       \<and> (xo_unterminated fld \<longrightarrow>
            (\<exists>f x1. xo_parse_field fmt (fld @ ''}'') xop = Some (f, x1)
                   \<and> xo_parse_field fmt fld xop = Some (f\<lparr>xf_len := length fld\<rparr>, x1)
                   \<and> (xo_delimiter (xo_peek fld) \<longrightarrow> x1 = xop)
                   \<and> xo_emit_loop R snp fmt xop (CHR ''{'' # fld)
                       = (case xo_render_field R snp x1 f of
                            None \<Rightarrow> Inl Mem_fault | Some x2 \<Rightarrow> Inr x2)
                   \<and> xo_emit_loop R snp fmt xop (CHR ''{'' # fld @ ''}'')
                       = xo_emit_loop R snp fmt xop (CHR ''{'' # fld)))
       \<and> (xo_unterminated fld \<and> xo_style xop = XO_STYLE_TEXT \<and> xo_delimiter (xo_peek fld)
            \<and> int (length (xb_data (xo_fmt xop))) + int (length fld) + 2 < xb_size (xo_fmt xop) \<longrightarrow>
            (\<exists>x2. xo_emit_loop R snp fmt xop (CHR ''{'' # fld) = Inr x2
                  \<and> xo_stderr x2 = xo_stderr xop))"
proof (intro conjI impI)
  assume "NUL \<notin> set fmt \<and> xo_delimited fmt"
  then have "xo_c_format fmt" by (simp add: xo_c_format_def)
  from xo_emit_loop_in_bounds[OF this assms, of R snp fmt]
  show "xo_emit_hv R vsn snp xop fmt \<noteq> Inl Fmt_overread"
    by (auto simp: xo_emit_hv_def Let_def split: sum.splits option.splits prod.splits if_splits)
next
  assume "xo_unterminated fld"
  then show "\<exists>f x1. xo_parse_field fmt (fld @ ''}'') xop = Some (f, x1)
                   \<and> xo_parse_field fmt fld xop = Some (f\<lparr>xf_len := length fld\<rparr>, x1)
                   \<and> (xo_delimiter (xo_peek fld) \<longrightarrow> x1 = xop)
                   \<and> xo_emit_loop R snp fmt xop (CHR ''{'' # fld)
                       = (case xo_render_field R snp x1 f of
                            None \<Rightarrow> Inl Mem_fault | Some x2 \<Rightarrow> Inr x2)
                   \<and> xo_emit_loop R snp fmt xop (CHR ''{'' # fld @ ''}'')
                       = xo_emit_loop R snp fmt xop (CHR ''{'' # fld)"
    using assms by (rule xo_emit_loop_unterminated)
next
  assume a: "xo_unterminated fld \<and> xo_style xop = XO_STYLE_TEXT \<and> xo_delimiter (xo_peek fld)
            \<and> int (length (xb_data (xo_fmt xop))) + int (length fld) + 2 < xb_size (xo_fmt xop)"
  show "\<exists>x2. xo_emit_loop R snp fmt xop (CHR ''{'' # fld) = Inr x2
                  \<and> xo_stderr x2 = xo_stderr xop"
    by (rule xo_emit_loop_unterminated_text) (use a assms in simp_all)
qed


theorem xo_emit_unterminated_field_witness:
  "xo_formatter (xo_fresh XO_STYLE_TEXT {XOF_WARN}) = None
   \<and> NUL \<notin> set ''{:abc'' \<and> xo_delimited ''{:abc'' \<and> xo_unterminated '':abc''
   \<and> xo_style (xo_fresh XO_STYLE_TEXT {XOF_WARN}) = XO_STYLE_TEXT
   \<and> xo_delimiter (xo_peek '':abc'')
   \<and> int (length (xb_data (xo_fmt (xo_fresh XO_STYLE_TEXT {XOF_WARN})))) + int (length '':abc'') + 2
       < xb_size (xo_fmt (xo_fresh XO_STYLE_TEXT {XOF_WARN}))
   \<and> xo_emit_hv (\<lambda>n. True) (\<lambda>f. f) (\<lambda>f a. a) (xo_fresh XO_STYLE_TEXT {XOF_WARN}) ''{:abc''
       \<noteq> Inl Fmt_overread
   \<and> xo_emit_loop (\<lambda>n. True) (\<lambda>f a. a) ''{:abc'' (xo_fresh XO_STYLE_TEXT {XOF_WARN}) ''{:abc}''
       = xo_emit_loop (\<lambda>n. True) (\<lambda>f a. a) ''{:abc'' (xo_fresh XO_STYLE_TEXT {XOF_WARN}) ''{:abc''
   \<and> (\<exists>x2. xo_emit_loop (\<lambda>n. True) (\<lambda>f a. a) ''{:abc'' (xo_fresh XO_STYLE_TEXT {XOF_WARN}) ''{:abc''
              = Inr x2
         \<and> xo_stderr x2 = xo_stderr (xo_fresh XO_STYLE_TEXT {XOF_WARN}))"
proof -
  have h: "xo_formatter (xo_fresh XO_STYLE_TEXT {XOF_WARN}) = None"
    "NUL \<notin> set ''{:abc'' \<and> xo_delimited ''{:abc''" "xo_unterminated '':abc''"
    "xo_style (xo_fresh XO_STYLE_TEXT {XOF_WARN}) = XO_STYLE_TEXT"
    "xo_delimiter (xo_peek '':abc'')"
    "int (length (xb_data (xo_fmt (xo_fresh XO_STYLE_TEXT {XOF_WARN})))) + int (length '':abc'') + 2
       < xb_size (xo_fmt (xo_fresh XO_STYLE_TEXT {XOF_WARN}))"
    by (simp_all add: xo_delimiter_def xo_fresh_fields xo_unterminated_def xo_open_ended_def
        xo_peek_def)
  from xo_emit_unterminated_field[OF h(1), of "''{:abc''" "\<lambda>n. True" "\<lambda>f. f" "\<lambda>f a. a" "'':abc''"] h
  show ?thesis by auto
qed

lemmas xo_emit_eval_defs =
  xo_emit_hv_def xo_emit_loop.simps xo_basep_def xo_parse_field_def xo_modifier_def
  xo_segment_def xo_peek_def xo_render_field_def xo_format_value_def xo_format_text_def
  xo_fmt_append_def xo_buf_append_def xo_buf_has_room_def xo_str_def Let_def XO_BUFSIZ_def
  XFF_COLON_def XFF_WS_def xo_write_to_file_def

text \<open>
  The claim as stated fails on the warning: with \<open>XOF_WARN\<close> set,
  \<open>xo_emit("{:abc")\<close> in text style renders the field as a value with the default
  format and prints nothing to standard error.
\<close>

theorem xo_unterminated_no_warning_counterexample:
  "xo_emit_hv (\<lambda>n. True) (\<lambda>f. f) (\<lambda>f a. a) (xo_fresh XO_STYLE_TEXT {XOF_WARN}) ''{:abc''
     = Inr (2, (xo_fresh XO_STYLE_TEXT {XOF_WARN})\<lparr>xo_opaque := [''%s'']\<rparr>)
   \<and> XOF_WARN \<in> xo_flags (xo_fresh XO_STYLE_TEXT {XOF_WARN})
   \<and> xo_stderr ((xo_fresh XO_STYLE_TEXT {XOF_WARN})\<lparr>xo_opaque := [''%s'']\<rparr>) = []"
  by (simp add: xo_emit_eval_defs xo_fresh_fields)

text \<open>
  A field of modifiers alone that the string ends in is outside the amended claim:
  the modifier loop tests the pointer instead of the byte and walks over the NUL.
\<close>

lemma xo_modifiers_only_overread:
  "xo_emit_hv (\<lambda>n. True) (\<lambda>f. f) (\<lambda>f a. a) (xo_fresh XO_STYLE_TEXT {}) ''{V'' = Inl Fmt_overread"
  by (simp add: xo_emit_eval_defs xo_fresh_fields)

section \<open>JSON separators and the NotFirst flag\<close>














































lemma xo_zero_not_first [simp]: "(0 :: 32 word) AND XSF_NOT_FIRST = 0"
  by simp

lemma xo_list_not_first [simp]: "XSF_LIST AND XSF_NOT_FIRST = 0"
  by (simp add: XSF_LIST_def XSF_NOT_FIRST_def)















end
